(* ===== verification/Prelude.thy ===== *)
theory Prelude
  imports
    Main
    "HOL-Library.Word"
    "HOL-Library.Monad_Syntax"
    "HOL-Library.List_Lexorder"
    "HOL-Library.Char_ord"
begin

text \<open>
  Shared vocabulary of the SimSearch development: how the C++ of the repository is read
  in HOL, and the generic facts the component theories rest on.

  \<^item> \<open>std::string\<close> is \<open>string\<close>, a list of bytes (\<open>char\<close>).
  \<^item> An execution that may run into undefined behaviour (a null pointer, an index out of
    range, an integer division by zero) returns \<open>'a ub\<close>, where \<open>None\<close> is
    undefined behaviour. Ordinary failures are values: most operations of the program
    return a message, and the empty message means success.
  \<^item> Machine integers are \<open>int\<close> with the conversion to the width written out
    (\<open>int16_of\<close>, \<open>int32_of\<close>, \<open>int64_of\<close>, \<open>uint32_of\<close>), or words where
    the code works on bit patterns.
  \<^item> \<open>std::map\<close> is an association list in key order (\<open>std_map_set\<close>), because the
    program iterates over its maps.
\<close>

named_theorems std_map_simps \<open>lookups in an updated ordered map\<close>
named_theorems width_simps \<open>conversions that do not change a value in range\<close>
named_theorems ub_simps \<open>evaluation of executions that may be undefined\<close>

type_synonym 'a ub = "'a option"
type_synonym msg = string
type_synonym ('k, 'v) std_map = "('k \<times> 'v) list"

subsection \<open>Machine integers\<close>

definition int8_of :: "int \<Rightarrow> int" where
  "int8_of i = signed_take_bit 7 i"

definition int16_of :: "int \<Rightarrow> int" where
  "int16_of i = signed_take_bit 15 i"

definition int32_of :: "int \<Rightarrow> int" where
  "int32_of i = signed_take_bit 31 i"

definition int64_of :: "int \<Rightarrow> int" where
  "int64_of i = signed_take_bit 63 i"

definition uint32_of :: "int \<Rightarrow> int" where
  "uint32_of i = take_bit 32 i"

definition is_int16 :: "int \<Rightarrow> bool" where
  "is_int16 i \<longleftrightarrow> - 32768 \<le> i \<and> i \<le> 32767"

definition is_int32 :: "int \<Rightarrow> bool" where
  "is_int32 i \<longleftrightarrow> - 2147483648 \<le> i \<and> i \<le> 2147483647"

definition is_int64 :: "int \<Rightarrow> bool" where
  "is_int64 i \<longleftrightarrow> - 9223372036854775808 \<le> i \<and> i \<le> 9223372036854775807"

definition is_uint32 :: "int \<Rightarrow> bool" where
  "is_uint32 i \<longleftrightarrow> 0 \<le> i \<and> i \<le> 4294967295"

text \<open>Signed arithmetic that overflows is undefined.\<close>

definition chk32 :: "int \<Rightarrow> int ub" where
  "chk32 i = (if is_int32 i then Some i else None)"

definition chk64 :: "int \<Rightarrow> int ub" where
  "chk64 i = (if is_int64 i then Some i else None)"

subsection \<open>Decimal text of an integer (\<open>std::to_string\<close>)\<close>

definition digit_char :: "nat \<Rightarrow> char" where
  "digit_char d = char_of (48 + d)"

fun nat_to_string :: "nat \<Rightarrow> string" where
  "nat_to_string n =
     (if n < 10 then [digit_char n] else nat_to_string (n div 10) @ [digit_char (n mod 10)])"

declare nat_to_string.simps [simp del]

definition to_string :: "int \<Rightarrow> string" where
  "to_string i = (if i < 0 then CHR ''-'' # nat_to_string (nat (- i)) else nat_to_string (nat i))"

subsection \<open>Ordered maps (\<open>std::map\<close>)\<close>

primrec std_map_set :: "'k::linorder \<Rightarrow> 'v \<Rightarrow> ('k, 'v) std_map \<Rightarrow> ('k, 'v) std_map" where
  "std_map_set k v [] = [(k, v)]"
| "std_map_set k v (p # m) =
     (if k < fst p then (k, v) # p # m
      else if k = fst p then (k, v) # m
      else p # std_map_set k v m)"

definition std_map_ok :: "('k::linorder, 'v) std_map \<Rightarrow> bool" where
  "std_map_ok m \<longleftrightarrow> sorted_wrt (<) (map fst m)"

text \<open>
  Copying every entry of one map into another, the loop
  \<open>for (auto& [key, val] : src) dst[key] = val\<close> of the router.
\<close>

definition std_map_put_all :: "('k::linorder, 'v) std_map \<Rightarrow> ('k, 'v) std_map \<Rightarrow> ('k, 'v) std_map" where
  "std_map_put_all src dst = foldl (\<lambda>m (k, v). std_map_set k v m) dst src"

subsection \<open>Vectors indexed by a machine integer\<close>

definition at_ub :: "'a list \<Rightarrow> int \<Rightarrow> 'a ub" where
  "at_ub xs i = (if 0 \<le> i \<and> i < int (length xs) then Some (xs ! nat i) else None)"

definition update_ub :: "'a list \<Rightarrow> int \<Rightarrow> 'a \<Rightarrow> 'a list ub" where
  "update_ub xs i x = (if 0 \<le> i \<and> i < int (length xs) then Some (xs[nat i := x]) else None)"

subsection \<open>Facts on machine integers\<close>

lemma int16_of_id [width_simps]: "is_int16 i \<Longrightarrow> int16_of i = i"
  by (simp add: int16_of_def is_int16_def signed_take_bit_int_eq_self_iff)

lemma int32_of_id [width_simps]: "is_int32 i \<Longrightarrow> int32_of i = i"
  by (simp add: int32_of_def is_int32_def signed_take_bit_int_eq_self_iff)

lemma int64_of_id [width_simps]: "is_int64 i \<Longrightarrow> int64_of i = i"
  by (simp add: int64_of_def is_int64_def signed_take_bit_int_eq_self_iff)

lemma uint32_of_id [width_simps]: "is_uint32 i \<Longrightarrow> uint32_of i = i"
  by (simp add: uint32_of_def is_uint32_def take_bit_int_eq_self_iff)

lemma is_int16_of: "is_int16 (int16_of i)"
  using signed_take_bit_int_less_exp [of 15 i] signed_take_bit_int_greater_eq_minus_exp [of 15 i]
  by (simp add: is_int16_def int16_of_def)

lemma is_int32_of: "is_int32 (int32_of i)"
  using signed_take_bit_int_less_exp [of 31 i] signed_take_bit_int_greater_eq_minus_exp [of 31 i]
  by (simp add: is_int32_def int32_of_def)

lemma is_uint32_of: "is_uint32 (uint32_of i)"
  using take_bit_int_less_exp [of 32 i] take_bit_nonnegative [of 32 i]
  by (simp add: is_uint32_def uint32_of_def)

subsection \<open>Facts on decimal text\<close>

lemma of_char_digit_char: "d < 10 \<Longrightarrow> of_char (digit_char d) = 48 + d"
  by (simp add: digit_char_def)

lemma digit_char_inject: "d < 10 \<Longrightarrow> e < 10 \<Longrightarrow> digit_char d = digit_char e \<longleftrightarrow> d = e"
  by (metis add_left_cancel of_char_digit_char)

lemma nat_to_string_nonempty [simp]: "nat_to_string n \<noteq> []"
  by (subst nat_to_string.simps) simp

lemma nat_to_string_digits:
  "c \<in> set (nat_to_string n) \<Longrightarrow> \<exists>d < 10. c = digit_char d"
proof (induction n rule: nat_to_string.induct)
  case (1 n)
  show ?case
  proof (cases "n < 10")
    case True
    with "1.prems" show ?thesis by (auto simp: nat_to_string.simps [of n])
  next
    case False
    with "1.prems" have "c \<in> set (nat_to_string (n div 10)) \<or> c = digit_char (n mod 10)"
      by (auto simp: nat_to_string.simps [of n])
    with "1.IH" [OF False] show ?thesis
      by (metis mod_less_divisor zero_less_numeral)
  qed
qed

lemma to_string_nonempty [simp]: "to_string i \<noteq> []"
  by (simp add: to_string_def)

subsection \<open>Facts on ordered maps\<close>

lemma map_of_std_map_set [simp, std_map_simps]:
  "map_of (std_map_set k v m) = (map_of m)(k \<mapsto> v)"
  by (induction m) (auto simp: fun_eq_iff)

lemma set_fst_std_map_set: "fst ` set (std_map_set k v m) = insert k (fst ` set m)"
  by (induction m) auto

lemma std_map_ok_Nil [simp]: "std_map_ok []"
  by (simp add: std_map_ok_def)

lemma std_map_ok_set [simp]: "std_map_ok m \<Longrightarrow> std_map_ok (std_map_set k v m)"
proof (induction m)
  case Nil
  then show ?case by (simp add: std_map_ok_def)
next
  case (Cons p m)
  then have "std_map_ok (std_map_set k v m)"
    by (simp add: std_map_ok_def)
  with Cons.prems show ?case
    by (auto simp: std_map_ok_def set_fst_std_map_set simp flip: set_map)
      (auto simp: set_fst_std_map_set)
qed

lemma std_map_set_nonempty [simp]: "std_map_set k v m \<noteq> []"
  by (cases m) auto

lemma std_map_ok_distinct: "std_map_ok m \<Longrightarrow> distinct (map fst m)"
  unfolding std_map_ok_def by (induction m) auto

lemma std_map_put_all_simps [simp]:
  "std_map_put_all [] dst = dst"
  "std_map_put_all ((k, v) # src) dst = std_map_put_all src (std_map_set k v dst)"
  by (simp_all add: std_map_put_all_def)

lemma std_map_ok_put_all [simp]: "std_map_ok dst \<Longrightarrow> std_map_ok (std_map_put_all src dst)"
  by (induction src arbitrary: dst) auto

lemma map_of_std_map_put_all [std_map_simps]:
  "distinct (map fst src) \<Longrightarrow> map_of (std_map_put_all src dst) = map_of dst ++ map_of src"
proof (induction src arbitrary: dst)
  case Nil
  then show ?case by simp
next
  case (Cons p src)
  obtain k v where p: "p = (k, v)" by fastforce
  with Cons.prems have "map_of src k = None" by (simp add: map_of_eq_None_iff)
  with Cons p show ?case by (auto simp: fun_eq_iff map_add_def split: option.splits)
qed

lemma map_of_std_map_put_all_Some:
  "map_of (std_map_put_all src dst) k = Some v \<Longrightarrow> (k, v) \<in> set src \<or> map_of dst k = Some v"
proof (induction src arbitrary: dst)
  case Nil
  then show ?case by simp
next
  case (Cons p src)
  obtain k' v' where "p = (k', v')" by fastforce
  with Cons.IH [of "std_map_set k' v' dst"] Cons.prems show ?case by (auto split: if_splits)
qed

lemma dom_map_of_put_all: "dom (map_of (std_map_put_all src dst)) = dom (map_of src) \<union> dom (map_of dst)"
proof (induction src arbitrary: dst)
  case Nil
  then show ?case by simp
next
  case (Cons p src)
  obtain k v where "p = (k, v)" by fastforce
  with Cons [of "std_map_set k v dst"] show ?case by (auto split: if_splits)
qed

lemma dom_std_map_put_all:
  "fst ` set (std_map_put_all src dst) = fst ` set src \<union> fst ` set dst"
proof (induction src arbitrary: dst)
  case Nil
  then show ?case by simp
next
  case (Cons p src)
  obtain k v where "p = (k, v)" by fastforce
  with Cons [of "std_map_set k v dst"] show ?case by (simp add: set_fst_std_map_set)
qed

subsection \<open>Facts on indexing\<close>

lemma at_ub_in_range [ub_simps]:
  "0 \<le> i \<Longrightarrow> i < int (length xs) \<Longrightarrow> at_ub xs i = Some (xs ! nat i)"
  by (simp add: at_ub_def)

lemma at_ub_None_iff: "at_ub xs i = None \<longleftrightarrow> i < 0 \<or> int (length xs) \<le> i"
  by (auto simp: at_ub_def)

lemma update_ub_in_range [ub_simps]:
  "0 \<le> i \<Longrightarrow> i < int (length xs) \<Longrightarrow> update_ub xs i x = Some (xs[nat i := x])"
  by (simp add: update_ub_def)

end
