(* ===== verification/Bytes.thy ===== *)
theory Bytes
  imports Prelude
begin

text \<open>
  Values as bytes. The program copies integers and floats into byte strings by
  reinterpreting their memory (\<open>std::string((char*)&v, sizeof v)\<close>,
  \<open>*(int32_t*)buf = key\<close>, \<open>memcpy\<close>) and reads them back the same way
  (\<open>*(int64_t*)(field.value.c_str())\<close>). The host is little-endian. Reading past the
  end of the buffer is undefined.

  The locale \<open>codec\<close> is the contract of a fixed-width encoding; the client facts
  (what is found at record \<open>i\<close> of a file or buffer of consecutive records) are proved
  once in it, and every width the program uses is an interpretation.
\<close>

named_theorems codec_simps \<open>decoding what was encoded\<close>

type_synonym float32 = "32 word"
type_synonym float64 = "64 word"

subsection \<open>Little-endian bytes\<close>

primrec le_bytes :: "nat \<Rightarrow> int \<Rightarrow> string" where
  "le_bytes 0 i = []"
| "le_bytes (Suc n) i = char_of i # le_bytes n (i div 256)"

primrec le_int :: "string \<Rightarrow> int" where
  "le_int [] = 0"
| "le_int (c # cs) = of_char c + 256 * le_int cs"

definition load_bytes :: "nat \<Rightarrow> string \<Rightarrow> int ub" where
  "load_bytes n buf = (if length buf < n then None else Some (le_int (take n buf)))"

definition store_i16 :: "int \<Rightarrow> string" where
  "store_i16 i = le_bytes 2 i"

definition store_i32 :: "int \<Rightarrow> string" where
  "store_i32 i = le_bytes 4 i"

definition store_i64 :: "int \<Rightarrow> string" where
  "store_i64 i = le_bytes 8 i"

definition store_u32 :: "int \<Rightarrow> string" where
  "store_u32 i = le_bytes 4 i"

definition store_f32 :: "float32 \<Rightarrow> string" where
  "store_f32 w = le_bytes 4 (uint w)"

definition store_f64 :: "float64 \<Rightarrow> string" where
  "store_f64 w = le_bytes 8 (uint w)"

definition load_i16 :: "string \<Rightarrow> int ub" where
  "load_i16 buf = map_option int16_of (load_bytes 2 buf)"

definition load_i32 :: "string \<Rightarrow> int ub" where
  "load_i32 buf = map_option int32_of (load_bytes 4 buf)"

definition load_i64 :: "string \<Rightarrow> int ub" where
  "load_i64 buf = map_option int64_of (load_bytes 8 buf)"

definition load_u32 :: "string \<Rightarrow> int ub" where
  "load_u32 buf = load_bytes 4 buf"

definition load_f32 :: "string \<Rightarrow> float32 ub" where
  "load_f32 buf = map_option word_of_int (load_bytes 4 buf)"

definition load_f64 :: "string \<Rightarrow> float64 ub" where
  "load_f64 buf = map_option word_of_int (load_bytes 8 buf)"

text \<open>The bytes behind \<open>c_str()\<close>, the terminating zero included.\<close>

definition c_str :: "string \<Rightarrow> string" where
  "c_str s = s @ [CHR 0x00]"

subsection \<open>The contract of a fixed-width encoding\<close>

locale codec =
  fixes enc :: "'a \<Rightarrow> string"
    and dec :: "string \<Rightarrow> 'a ub"
    and width :: nat
    and valid :: "'a \<Rightarrow> bool"
  assumes enc_length: "length (enc x) = width"
    and dec_enc: "valid x \<Longrightarrow> dec (enc x @ rest) = Some x"
begin

lemma dec_enc_exact: "valid x \<Longrightarrow> dec (enc x) = Some x"
  using dec_enc [of x "[]"] by simp

lemma enc_inject: "valid x \<Longrightarrow> valid y \<Longrightarrow> enc x = enc y \<longleftrightarrow> x = y"
  by (metis dec_enc_exact option.inject)

lemma length_records: "length (concat (map enc xs)) = length xs * width"
  by (induction xs) (simp_all add: enc_length)

lemma drop_records: "i \<le> length xs \<Longrightarrow> drop (i * width) (concat (map enc xs)) = concat (map enc (drop i xs))"
proof (induction xs arbitrary: i)
  case Nil
  then show ?case by simp
next
  case (Cons x xs)
  then show ?case by (cases i) (simp_all add: enc_length)
qed

lemma dec_record:
  assumes "i < length xs" and "valid (xs ! i)"
  shows "dec (drop (i * width) (concat (map enc xs))) = Some (xs ! i)"
proof -
  have "drop (i * width) (concat (map enc xs)) = enc (xs ! i) @ concat (map enc (drop (Suc i) xs))"
    using assms(1) drop_records [of i xs] by (simp add: Cons_nth_drop_Suc [symmetric])
  with dec_enc [OF assms(2)] show ?thesis by simp
qed

lemma take_record:
  assumes "i < length xs"
  shows "take width (drop (i * width) (concat (map enc xs))) = enc (xs ! i)"
  using assms drop_records [of i xs]
  by (simp add: Cons_nth_drop_Suc [symmetric] enc_length)

end

subsection \<open>Facts on little-endian bytes\<close>

lemma length_le_bytes [simp]: "length (le_bytes n i) = n"
  by (induction n arbitrary: i) auto

lemma le_int_le_bytes: "le_int (le_bytes n i) = i mod 256 ^ n"
proof (induction n arbitrary: i)
  case 0
  then show ?case by simp
next
  case (Suc n)
  have "i mod 256 ^ Suc n = i mod 256 + 256 * ((i div 256) mod 256 ^ n)"
    by (simp add: zmod_zmult2_eq)
  with Suc show ?case by simp
qed

lemma of_char_range: "0 \<le> (of_char c :: int)" "(of_char c :: int) \<le> 255"
  using nat_of_char_less_256 [of c] of_nat_of_char [of c, where 'a = int] by linarith+

lemma le_int_range: "0 \<le> le_int s \<and> le_int s < 256 ^ length s"
proof (induction s)
  case Nil
  then show ?case by simp
next
  case (Cons c s)
  with of_char_range [of c] show ?case by simp
qed

lemma load_bytes_le_bytes [codec_simps]: "load_bytes n (le_bytes n i @ rest) = Some (i mod 256 ^ n)"
  by (simp add: load_bytes_def le_int_le_bytes)

lemma int16_of_mod: "int16_of (i mod 256 ^ 2) = int16_of i"
  using signed_take_bit_take_bit [of 15 16 i] by (simp add: int16_of_def take_bit_eq_mod)

lemma int32_of_mod: "int32_of (i mod 256 ^ 4) = int32_of i"
  using signed_take_bit_take_bit [of 31 32 i] by (simp add: int32_of_def take_bit_eq_mod)

lemma int64_of_mod: "int64_of (i mod 256 ^ 8) = int64_of i"
  using signed_take_bit_take_bit [of 63 64 i] by (simp add: int64_of_def take_bit_eq_mod)

subsection \<open>The encodings of the program\<close>

interpretation i16: codec store_i16 load_i16 2 is_int16
  by unfold_locales
    (simp_all only: store_i16_def load_i16_def length_le_bytes load_bytes_le_bytes
      option.map int16_of_mod int16_of_id)

interpretation i32: codec store_i32 load_i32 4 is_int32
  by unfold_locales
    (simp_all only: store_i32_def load_i32_def length_le_bytes load_bytes_le_bytes
      option.map int32_of_mod int32_of_id)

interpretation i64: codec store_i64 load_i64 8 is_int64
  by unfold_locales
    (simp_all only: store_i64_def load_i64_def length_le_bytes load_bytes_le_bytes
      option.map int64_of_mod int64_of_id)

interpretation u32: codec store_u32 load_u32 4 is_uint32
  by unfold_locales
    (simp_all add: store_u32_def load_u32_def load_bytes_le_bytes is_uint32_def)

interpretation f32: codec store_f32 load_f32 4 "\<lambda>_. True"
proof unfold_locales
  fix w :: float32 and rest
  have "uint w mod 256 ^ 4 = uint w"
    using uint_bounded [of w] by simp
  then show "load_f32 (store_f32 w @ rest) = Some w"
    by (simp only: store_f32_def load_f32_def load_bytes_le_bytes option.map word_of_int_uint)
qed (simp add: store_f32_def)

interpretation f64: codec store_f64 load_f64 8 "\<lambda>_. True"
proof unfold_locales
  fix w :: float64 and rest
  have "uint w mod 256 ^ 8 = uint w"
    using uint_bounded [of w] by simp
  then show "load_f64 (store_f64 w @ rest) = Some w"
    by (simp only: store_f64_def load_f64_def load_bytes_le_bytes option.map word_of_int_uint)
qed (simp add: store_f64_def)

lemmas load_store = i16.dec_enc_exact i32.dec_enc_exact i64.dec_enc_exact u32.dec_enc_exact
  f32.dec_enc_exact [OF TrueI] f64.dec_enc_exact [OF TrueI]

lemmas store_lengths = i16.enc_length i32.enc_length i64.enc_length u32.enc_length
  f32.enc_length f64.enc_length

declare load_store [codec_simps] store_lengths [codec_simps]

end
