(* ===== verification/Messages.thy ===== *)
theory Messages
  imports Bytes
begin

text \<open>
  The protobuf messages of \<^verbatim>\<open>idl/rpc_service_idl\<close> that the services exchange, as
  records with the fields of the messages. An \<open>optional\<close> field is an option; reading an
  unset one gives its default, the empty string or zero (\<open>str_or\<close>, \<open>int_or\<close>). A
  protobuf map is an association list without repeated keys, in the order an iteration
  over that map object visits it.
\<close>

definition str_or :: "string option \<Rightarrow> string" where
  "str_or s = (case s of None \<Rightarrow> '''' | Some x \<Rightarrow> x)"

definition int_or :: "int option \<Rightarrow> int" where
  "int_or i = (case i of None \<Rightarrow> 0 | Some x \<Rightarrow> x)"

record pb_index =
  ix_name :: string
  ix_type :: string
  ix_params :: "string option"

record pb_field =
  fd_name :: string
  fd_type :: string
  fd_dimension :: "int option"
  fd_index :: "pb_index option"

record pb_replica =
  rp_ps_id :: int
  rp_ps_ip :: string
  rp_ps_port :: int
  rp_is_leader :: "int option"
  rp_node_status :: "string option"
  rp_msg :: "string option"

record pb_partition =
  pt_partition_id :: int
  pt_group_name :: string
  pt_replicas :: "pb_replica list"
  pt_create_time :: "string option"
  pt_update_time :: "string option"

record pb_space =
  sp_db_name :: string
  sp_space_name :: string
  sp_id :: int
  sp_partition_num :: int
  sp_replica_num :: int
  sp_fields :: "pb_field list"
  sp_partitions :: "pb_partition list"
  sp_id_type :: "string option"
  sp_ctime :: "string option"
  sp_mtime :: "string option"

record pb_document =
  doc_id :: "string option"
  doc_ints :: "(string \<times> int) list"
  doc_longs :: "(string \<times> int) list"
  doc_floats :: "(string \<times> float32) list"
  doc_doubles :: "(string \<times> float64) list"
  doc_strings :: "(string \<times> string) list"
  doc_string_arrays :: "(string \<times> string list) list"
  doc_vectors :: "(string \<times> float32 list) list"

record doc_status =
  ds_id :: string
  ds_code :: int
  ds_msg :: string

record resp_status =
  rs_code :: "int option"
  rs_msg :: "string option"

definition empty_space :: pb_space where
  "empty_space = \<lparr>sp_db_name = '''', sp_space_name = '''', sp_id = 0, sp_partition_num = 0,
     sp_replica_num = 0, sp_fields = [], sp_partitions = [], sp_id_type = None,
     sp_ctime = None, sp_mtime = None\<rparr>"

definition empty_partition :: pb_partition where
  "empty_partition = \<lparr>pt_partition_id = 0, pt_group_name = '''', pt_replicas = [],
     pt_create_time = None, pt_update_time = None\<rparr>"

definition empty_document :: pb_document where
  "empty_document = \<lparr>doc_id = None, doc_ints = [], doc_longs = [], doc_floats = [],
     doc_doubles = [], doc_strings = [], doc_string_arrays = [], doc_vectors = []\<rparr>"

subsection \<open>Replicated-log requests (\<^verbatim>\<open>raft_rpc.proto\<close>)\<close>

datatype impl_type = UPSERT | DELETE | READ

datatype key_type = KT_INT64 | KT_STRING

record block_request =
  br_db_name :: string
  br_space_name :: string
  br_impl_type :: impl_type
  br_key_type :: key_type
  br_key :: string

record block_response =
  resp_success :: "bool option"
  resp_redirect :: string
  resp_msg :: string

definition empty_response :: block_response where
  "empty_response = \<lparr>resp_success = None, resp_redirect = '''', resp_msg = ''''\<rparr>"

definition success :: "block_response \<Rightarrow> bool" where
  "success r = (resp_success r = Some True)"

subsection \<open>Document requests and responses (\<^verbatim>\<open>common_rpc.proto\<close>)\<close>

record get_request =
  gq_db_name :: string
  gq_space_name :: string
  gq_ids :: "string list"

record get_response =
  gp_code :: int
  gp_msg :: string
  gp_documents :: "pb_document list"
  gp_failed_docs :: "doc_status list"

record upsert_request =
  uq_db_name :: string
  uq_space_name :: string
  uq_documents :: "pb_document list"

record upsert_response =
  up_code :: int
  up_msg :: string
  up_failed_docs :: "doc_status list"

record delete_request =
  dq_db_name :: string
  dq_space_name :: string
  dq_ids :: "string list"

record delete_response =
  dp_code :: int
  dp_msg :: string
  dp_failed_docs :: "doc_status list"

record search_response =
  sr_code :: int
  sr_msg :: string
  sr_documents :: "pb_document list"

record delete_space_request =
  dsq_db_name :: "string option"
  dsq_space_name :: "string option"

record mock_doc =
  md_key :: "string option"
  md_val :: "string option"
  md_msg :: string

record mock_get_request =
  mg_keys :: "string list"
  mg_key_type :: "int option"

record mock_get_response =
  mr_code :: "int option"
  mr_msg :: "string option"
  mr_docs :: "mock_doc list"

record create_space_request =
  cs_space :: pb_space
  cs_cur_partition :: pb_partition

definition empty_create_space_request :: create_space_request where
  "empty_create_space_request = \<lparr>cs_space = empty_space, cs_cur_partition = empty_partition\<rparr>"

record ps_node_info =
  ni_ps_id :: int
  ni_ps_ip :: string
  ni_ps_port :: int
  ni_msg :: string

definition empty_node_info :: ps_node_info where
  "empty_node_info = \<lparr>ni_ps_id = 0, ni_ps_ip = '''', ni_ps_port = 0, ni_msg = ''''\<rparr>"

definition empty_get_response :: get_response where
  "empty_get_response = \<lparr>gp_code = 0, gp_msg = '''', gp_documents = [], gp_failed_docs = []\<rparr>"

lemma str_or_simps [simp]: "str_or None = ''''" "str_or (Some s) = s"
  by (simp_all add: str_or_def)

lemma int_or_simps [simp]: "int_or None = 0" "int_or (Some i) = i"
  by (simp_all add: int_or_def)

end
