(* ===== verification/Numeric_Util.thy ===== *)
theory Numeric_Util
  imports Prelude
begin

text \<open>
  \<^verbatim>\<open>utils/numeric_util.cc\<close> and \<open>GetPartitionId\<close> of
  \<^verbatim>\<open>service/router/space_connection.h\<close>: the random choice of a server, the hash that
  spreads keys over partitions, and the parser of numeric document ids.

  The generator behind \<open>GenRandomInt\<close> and the hash of \<open>std::hash<std::string>\<close> are
  fixed by the platform, not by the program: \<open>draw\<close> is the value the distribution
  yields at a call, \<open>hasher\<close> any function of the key. \<open>std::stoll\<close> is modelled as the
  standard describes it: leading white space, an optional sign, decimal digits.
\<close>

subsection \<open>Random choice\<close>

definition GenRandomInt :: "(int \<Rightarrow> int \<Rightarrow> int) \<Rightarrow> int \<Rightarrow> int \<Rightarrow> int ub" where
  "GenRandomInt draw lo hi = (if lo \<le> hi then Some (draw lo hi) else None)"

definition uniform_draw :: "(int \<Rightarrow> int \<Rightarrow> int) \<Rightarrow> bool" where
  "uniform_draw draw \<longleftrightarrow> (\<forall>lo hi. lo \<le> hi \<longrightarrow> lo \<le> draw lo hi \<and> draw lo hi \<le> hi)"

subsection \<open>Hashing a key to a partition\<close>

text \<open>
  \<open>std::abs\<close> of the least 64-bit integer is not representable; the model keeps the
  bit pattern two's complement negation gives, which the conversion to \<open>uint64_t\<close>
  then reads as \<open>2 ^ 63\<close>.
\<close>

definition StrHashUint64 :: "(string \<Rightarrow> 64 word) \<Rightarrow> string \<Rightarrow> 64 word" where
  "StrHashUint64 hasher str =
     (let hash_value = hasher str in if sint hash_value < 0 then - hash_value else hash_value)"

definition GetPartitionId :: "(string \<Rightarrow> 64 word) \<Rightarrow> string \<Rightarrow> int \<Rightarrow> int ub" where
  "GetPartitionId hasher key partition_num =
     (if partition_num = 0 then None
      else Some (uint32_of (uint (StrHashUint64 hasher key) mod take_bit 64 partition_num)))"

subsection \<open>Parsing an id\<close>

definition isspace :: "char \<Rightarrow> bool" where
  "isspace c \<longleftrightarrow> c \<in> set [CHR '' '', CHR 0x09, CHR 0x0A, CHR 0x0B, CHR 0x0C, CHR 0x0D]"

definition isdigit :: "char \<Rightarrow> bool" where
  "isdigit c \<longleftrightarrow> 48 \<le> (of_char c :: nat) \<and> (of_char c :: nat) \<le> 57"

definition dec_val :: "string \<Rightarrow> nat" where
  "dec_val ds = foldl (\<lambda>a c. 10 * a + (of_char c - 48)) 0 ds"

datatype stoll_result = Invalid_argument | Out_of_range | Converted int nat

definition sign_len :: "string \<Rightarrow> nat" where
  "sign_len s = (case s of [] \<Rightarrow> 0 | c # _ \<Rightarrow> if c = CHR ''-'' \<or> c = CHR ''+'' then 1 else 0)"

definition has_minus :: "string \<Rightarrow> bool" where
  "has_minus s = (case s of [] \<Rightarrow> False | c # _ \<Rightarrow> c = CHR ''-'')"

definition stoll :: "string \<Rightarrow> stoll_result" where
  "stoll str =
     (let body = dropWhile isspace str;
          ds = takeWhile isdigit (drop (sign_len body) body);
          v = (if has_minus body then - int (dec_val ds) else int (dec_val ds))
      in if ds = [] then Invalid_argument
         else if \<not> is_int64 v then Out_of_range
         else Converted v (length (takeWhile isspace str) + sign_len body + length ds))"

text \<open>The second component is the out parameter \<open>result\<close> after the call.\<close>

definition StrToInt64 :: "string \<Rightarrow> int \<Rightarrow> msg \<times> int" where
  "StrToInt64 str result =
     (case stoll str of
        Converted v pos \<Rightarrow>
          if pos \<noteq> length str then (''Invalid input: not a valid int64_t string'', v) else ('''', v)
      | Invalid_argument \<Rightarrow> (''Invalid input: not a valid int64_t string'', result)
      | Out_of_range \<Rightarrow> (''Out of range: int64_t overflow'', result))"

subsection \<open>Hash and partition\<close>

lemma StrHashUint64_bound: "uint (StrHashUint64 hasher str) \<le> 2 ^ 63"
proof (cases "sint (hasher str) < 0")
  case True
  have "- (2 ^ 63) \<le> sint (hasher str)"
    using sint_greater_eq [of "hasher str"] by simp
  moreover have "uint (- hasher str) = (- sint (hasher str)) mod 2 ^ 64"
  proof -
    have "uint (hasher str) = sint (hasher str) mod 2 ^ 64"
      by (simp add: uint_sint take_bit_eq_mod)
    moreover have "uint (- hasher str) = (- uint (hasher str)) mod 2 ^ 64"
      by (simp add: uint_word_ariths)
    ultimately show ?thesis by (simp only: mod_minus_eq)
  qed
  ultimately show ?thesis
    using True by (simp add: StrHashUint64_def)
next
  case False
  have "uint (hasher str) = sint (hasher str) mod 2 ^ 64"
    by (simp add: uint_sint take_bit_eq_mod)
  moreover have "sint (hasher str) < 2 ^ 63"
    using sint_less [of "hasher str"] by simp
  ultimately show ?thesis
    using False by (simp add: StrHashUint64_def)
qed

lemma GetPartitionId_pos:
  assumes "0 < n" and "is_int32 n"
  shows "GetPartitionId hasher key n = Some (uint (StrHashUint64 hasher key) mod n)"
    and "0 \<le> uint (StrHashUint64 hasher key) mod n"
    and "uint (StrHashUint64 hasher key) mod n < n"
proof -
  show lo: "0 \<le> uint (StrHashUint64 hasher key) mod n"
    and hi: "uint (StrHashUint64 hasher key) mod n < n"
    using assms(1) by simp_all
  have "take_bit 64 n = n"
    using assms by (simp add: take_bit_int_eq_self_iff is_int32_def)
  moreover have "is_uint32 (uint (StrHashUint64 hasher key) mod n)"
    using lo hi assms(2) by (simp add: is_uint32_def is_int32_def)
  ultimately show "GetPartitionId hasher key n = Some (uint (StrHashUint64 hasher key) mod n)"
    using assms(1) by (simp add: GetPartitionId_def uint32_of_id)
qed

text \<open>A key always has a partition: with \<open>n > 0\<close> partitions the hash of any key, whatever
  the hash function, selects one and the same index below \<open>n\<close>.\<close>

lemma GetPartitionId_range:
  assumes "0 < n" and "is_int32 n"
  shows "\<exists>p. GetPartitionId hasher key n = Some p \<and> 0 \<le> p \<and> p < n"
  using GetPartitionId_pos [OF assms] by auto

lemma GetPartitionId_range_witness:
  "\<exists>p. GetPartitionId (\<lambda>s. - of_nat (length s)) ''doc-7'' 3 = Some p \<and> 0 \<le> p \<and> p < 3"
  by (rule GetPartitionId_range) (simp_all add: is_int32_def)

subsection \<open>Parsing what was printed\<close>

lemma isdigit_digit_char: "d < 10 \<Longrightarrow> isdigit (digit_char d)"
  by (simp add: isdigit_def of_char_digit_char)

lemma nat_to_string_all_digits: "\<forall>c \<in> set (nat_to_string n). isdigit c"
  using nat_to_string_digits isdigit_digit_char by blast

lemma dec_val_snoc: "dec_val (ds @ [c]) = 10 * dec_val ds + (of_char c - 48)"
  by (simp add: dec_val_def)

lemma dec_val_nat_to_string [simp]: "dec_val (nat_to_string n) = n"
proof (induction n rule: nat_to_string.induct)
  case (1 n)
  show ?case
  proof (cases "n < 10")
    case True
    then show ?thesis
      by (simp add: nat_to_string.simps [of n] dec_val_def of_char_digit_char)
  next
    case False
    with "1.IH" show ?thesis
      by (simp add: nat_to_string.simps [of n] dec_val_snoc of_char_digit_char)
  qed
qed

lemma isdigit_not_space: "isdigit c \<Longrightarrow> \<not> isspace c"
  by (auto simp: isdigit_def isspace_def)

lemma isdigit_not_sign: "isdigit c \<Longrightarrow> c \<noteq> CHR ''-'' \<and> c \<noteq> CHR ''+''"
  by (auto simp: isdigit_def)

lemma hd_nat_to_string_digit:
  obtains c cs where "nat_to_string n = c # cs" and "isdigit c"
proof -
  have "nat_to_string n \<noteq> []" by simp
  then obtain c cs where "nat_to_string n = c # cs" by (meson list.exhaust)
  with nat_to_string_all_digits [of n] that show ?thesis by simp
qed

lemma stoll_nat_to_string:
  assumes "is_int64 (int n)"
  shows "stoll (nat_to_string n) = Converted (int n) (length (nat_to_string n))"
proof -
  obtain c cs where c: "nat_to_string n = c # cs" "isdigit c" by (rule hd_nat_to_string_digit)
  have all: "takeWhile isdigit (nat_to_string n) = nat_to_string n"
    using nat_to_string_all_digits by simp
  have ns: "\<not> isspace c" using c(2) by (rule isdigit_not_space)
  have "dropWhile isspace (nat_to_string n) = nat_to_string n"
    and "takeWhile isspace (nat_to_string n) = []"
    using c ns by simp_all
  moreover have "sign_len (nat_to_string n) = 0" and "\<not> has_minus (nat_to_string n)"
    using c isdigit_not_sign [OF c(2)] by (simp_all add: sign_len_def has_minus_def)
  ultimately show ?thesis
    using assms by (simp add: stoll_def Let_def all)
qed

lemma stoll_minus_nat_to_string:
  assumes "is_int64 (- int n)"
  shows "stoll (CHR ''-'' # nat_to_string n) = Converted (- int n) (Suc (length (nat_to_string n)))"
proof -
  have all: "takeWhile isdigit (nat_to_string n) = nat_to_string n"
    using nat_to_string_all_digits by simp
  have "\<not> isspace (CHR ''-'')" by (simp add: isspace_def)
  with assms show ?thesis
    by (simp add: stoll_def Let_def all sign_len_def has_minus_def)
qed

lemma stoll_to_string: "is_int64 i \<Longrightarrow> stoll (to_string i) = Converted i (length (to_string i))"
  using stoll_nat_to_string [of "nat i"] stoll_minus_nat_to_string [of "nat (- i)"]
  by (simp add: to_string_def)

text \<open>Numeric ids survive printing and parsing: \<open>StrToInt64\<close> accepts the decimal text of
  every 64-bit integer, consumes all of it and returns that integer.\<close>

lemma StrToInt64_to_string:
  assumes "is_int64 i"
  shows "StrToInt64 (to_string i) r = ('''', i)"
  using stoll_to_string [OF assms] by (simp add: StrToInt64_def)

lemma StrToInt64_to_string_witness:
  "StrToInt64 (to_string (- 9223372036854775808)) 0 = ('''', - 9223372036854775808)"
  by (rule StrToInt64_to_string) (simp add: is_int64_def)

lemma to_string_inject:
  assumes "is_int64 i" and "is_int64 j"
  shows "to_string i = to_string j \<longleftrightarrow> i = j"
  using assms stoll_to_string by (metis stoll_result.inject)

lemma stoll_range: "stoll s = Converted v pos \<Longrightarrow> is_int64 v"
  by (auto simp: stoll_def Let_def split: if_splits)

lemma StrToInt64_range: "StrToInt64 s r = ('''', v) \<Longrightarrow> is_int64 v"
  by (auto simp: StrToInt64_def stoll_range split: stoll_result.splits if_splits)

lemma StrToInt64_empty: "fst (StrToInt64 '''' r) = ''Invalid input: not a valid int64_t string''"
  by (simp add: StrToInt64_def stoll_def)

end
