(* ===== verification/Common.thy ===== *)
theory Common
  imports Messages Numeric_Util "HOL-Library.Sublist"
begin

text \<open>
  \<^verbatim>\<open>common/common.cc\<close> and \<^verbatim>\<open>common/common_type.cc\<close>: the names under which spaces and
  nodes are registered, the peer list of a raft group, and the data types of fields. The
  prefixes are the globals of \<^verbatim>\<open>config/conf.cc\<close>.
\<close>

subsection \<open>Field types\<close>

datatype DType = DT_UNDEFINE | DT_INT | DT_LONG | DT_FLOAT | DT_DOUBLE | DT_STRING | DT_STRINGARRAY | DT_VECTOR

definition UNDEFINE_SDTYPE :: string where "UNDEFINE_SDTYPE = ''undefine''"
definition INT_SDTYPE :: string where "INT_SDTYPE = ''int''"
definition LONG_SDTYPE :: string where "LONG_SDTYPE = ''long''"
definition FLOAT_SDTYPE :: string where "FLOAT_SDTYPE = ''float''"
definition DOUBLE_SDTYPE :: string where "DOUBLE_SDTYPE = ''double''"
definition STRING_SDTYPE :: string where "STRING_SDTYPE = ''string''"
definition STRINGARRAY_SDTYPE :: string where "STRINGARRAY_SDTYPE = ''stringarrry''"
definition VECTOR_SDTYPE :: string where "VECTOR_SDTYPE = ''vector''"

lemmas sdtype_defs = UNDEFINE_SDTYPE_def INT_SDTYPE_def LONG_SDTYPE_def FLOAT_SDTYPE_def
  DOUBLE_SDTYPE_def STRING_SDTYPE_def STRINGARRAY_SDTYPE_def VECTOR_SDTYPE_def

definition sdtype_to_dtype :: "(string \<times> DType) list" where
  "sdtype_to_dtype =
     [(UNDEFINE_SDTYPE, DT_UNDEFINE), (INT_SDTYPE, DT_INT), (LONG_SDTYPE, DT_LONG), (FLOAT_SDTYPE, DT_FLOAT),
      (DOUBLE_SDTYPE, DT_DOUBLE), (STRING_SDTYPE, DT_STRING), (STRINGARRAY_SDTYPE, DT_STRINGARRAY),
      (VECTOR_SDTYPE, DT_VECTOR)]"

definition SDTypeToDType :: "string \<Rightarrow> DType" where
  "SDTypeToDType sdtype =
     (case map_of sdtype_to_dtype sdtype of Some t \<Rightarrow> t | None \<Rightarrow> DT_UNDEFINE)"

fun DTypeToSDType :: "DType \<Rightarrow> string" where
  "DTypeToSDType DT_INT = INT_SDTYPE"
| "DTypeToSDType DT_LONG = LONG_SDTYPE"
| "DTypeToSDType DT_FLOAT = FLOAT_SDTYPE"
| "DTypeToSDType DT_DOUBLE = DOUBLE_SDTYPE"
| "DTypeToSDType DT_STRING = STRING_SDTYPE"
| "DTypeToSDType DT_STRINGARRAY = STRINGARRAY_SDTYPE"
| "DTypeToSDType DT_VECTOR = VECTOR_SDTYPE"
| "DTypeToSDType DT_UNDEFINE = UNDEFINE_SDTYPE"

definition IsIdDType :: "DType \<Rightarrow> bool" where
  "IsIdDType dtype = (if dtype = DT_LONG \<or> dtype = DT_STRING then True else False)"

subsection \<open>Keys\<close>

definition etcd_space_prefix :: string where "etcd_space_prefix = ''/spaces/mata''"
definition ps_register_prefix :: string where "ps_register_prefix = ''/nodes/ps/''"
definition router_register_prefix :: string where "router_register_prefix = ''/nodes/router/''"

definition GenSpaceKey :: "string \<Rightarrow> string \<Rightarrow> string" where
  "GenSpaceKey db_name space_name = db_name @ ''-'' @ space_name"

primrec raft_conf_of :: "pb_replica list \<Rightarrow> string" where
  "raft_conf_of [] = ''''"
| "raft_conf_of (r # rs) = (rp_ps_ip r @ '':'' @ to_string (rp_ps_port r) @ '':0,'') @ raft_conf_of rs"

definition GetRaftConf :: "pb_partition \<Rightarrow> string" where
  "GetRaftConf pb_partition = raft_conf_of (pt_replicas pb_partition)"

definition GetPsRegisterKV :: "string \<Rightarrow> int \<Rightarrow> int \<Rightarrow> string \<times> string" where
  "GetPsRegisterKV IP port ps_id =
     (ps_register_prefix @ '':'' @ IP @ '':'' @ to_string port @ '':'' @ to_string ps_id,
      to_string port)"

definition GetPsRegisterKeyPrefixWithIpAndPort :: "string \<Rightarrow> int \<Rightarrow> string" where
  "GetPsRegisterKeyPrefixWithIpAndPort IP port =
     ps_register_prefix @ '':'' @ IP @ '':'' @ to_string port @ '':''"

definition GenRouterNodeKey :: "string \<Rightarrow> int \<Rightarrow> string" where
  "GenRouterNodeKey node_IP port = router_register_prefix @ '':'' @ node_IP @ '':'' @ to_string port"

subsection \<open>Facts on names\<close>

text \<open>The two conversions between type names and types are inverse to each other on the
  types and on the names the program knows, and every other name is \<open>DT_UNDEFINE\<close>.\<close>

lemma SDType_roundtrip:
  "SDTypeToDType (DTypeToSDType t) = t \<and>
   DTypeToSDType (SDTypeToDType s) = (if s \<in> fst ` set sdtype_to_dtype then s else UNDEFINE_SDTYPE)"
  by (cases t) (auto simp: SDTypeToDType_def sdtype_to_dtype_def sdtype_defs)

lemma IsIdDType_iff: "IsIdDType (SDTypeToDType s) \<longleftrightarrow> s = LONG_SDTYPE \<or> s = STRING_SDTYPE"
  by (auto simp: IsIdDType_def SDTypeToDType_def sdtype_to_dtype_def sdtype_defs)

lemma append_sep_eq:
  assumes "x \<notin> set as" and "x \<notin> set bs"
  shows "as @ x # cs = bs @ x # ds \<longleftrightarrow> as = bs \<and> cs = ds"
  using assms
proof (induction as arbitrary: bs)
  case Nil
  then show ?case by (cases bs) auto
next
  case (Cons a as)
  then show ?case by (cases bs) auto
qed

text \<open>Two spaces have the same key only if they are the same space, provided no database
  name contains the separator.\<close>

lemma GenSpaceKey_inject:
  assumes "CHR ''-'' \<notin> set db" and "CHR ''-'' \<notin> set db'"
  shows "GenSpaceKey db sp = GenSpaceKey db' sp' \<longleftrightarrow> db = db' \<and> sp = sp'"
  using append_sep_eq [OF assms] by (simp add: GenSpaceKey_def)

lemma GenSpaceKey_inject_witness:
  "(GenSpaceKey ''db'' ''a-b'' = GenSpaceKey ''db'' ''a-c'') = (''db'' = ''db'' \<and> ''a-b'' = ''a-c'')"
  by (rule GenSpaceKey_inject) simp_all

lemma GenSpaceKey_collision: "GenSpaceKey ''a'' ''b-c'' = GenSpaceKey ''a-b'' ''c''"
  by (simp add: GenSpaceKey_def)

lemma to_string_no_colon: "CHR '':'' \<notin> set (to_string i)"
proof
  assume "CHR '':'' \<in> set (to_string i)"
  then obtain d where "d < 10" "CHR '':'' = digit_char d"
    by (auto simp: to_string_def dest: nat_to_string_digits split: if_splits)
  then have "of_char (CHR '':'') = 48 + d" by (simp add: of_char_digit_char)
  with \<open>d < 10\<close> show False by simp
qed

text \<open>The prefix under which the master looks for a second node on the same address
  finds exactly the registrations of that address: the prefix of one address and port is a
  prefix of a node's registration key just when the node has that address and port.\<close>

lemma register_prefix_exact:
  assumes "CHR '':'' \<notin> set ip" and "CHR '':'' \<notin> set ip'" and "is_int64 port" and "is_int64 port'"
  shows "prefix (GetPsRegisterKeyPrefixWithIpAndPort ip port) (fst (GetPsRegisterKV ip' port' ps_id))
    \<longleftrightarrow> ip = ip' \<and> port = port'"
proof
  assume "prefix (GetPsRegisterKeyPrefixWithIpAndPort ip port) (fst (GetPsRegisterKV ip' port' ps_id))"
  then obtain zs where "ip @ CHR '':'' # to_string port @ CHR '':'' # zs =
      ip' @ CHR '':'' # to_string port' @ CHR '':'' # to_string ps_id"
    by (auto simp: prefix_def GetPsRegisterKeyPrefixWithIpAndPort_def GetPsRegisterKV_def)
  then have "ip = ip'" and "to_string port @ CHR '':'' # zs = to_string port' @ CHR '':'' # to_string ps_id"
    using append_sep_eq [OF assms(1,2)] by auto
  moreover from this(2) have "to_string port = to_string port'"
    using append_sep_eq [OF to_string_no_colon [of port] to_string_no_colon [of port']] by blast
  ultimately show "ip = ip' \<and> port = port'" using to_string_inject [OF assms(3,4)] by simp
next
  assume "ip = ip' \<and> port = port'"
  then show "prefix (GetPsRegisterKeyPrefixWithIpAndPort ip port) (fst (GetPsRegisterKV ip' port' ps_id))"
    by (simp add: GetPsRegisterKeyPrefixWithIpAndPort_def GetPsRegisterKV_def)
qed

lemma register_prefix_exact_witness:
  "prefix (GetPsRegisterKeyPrefixWithIpAndPort ''10.0.0.1'' 8081) (fst (GetPsRegisterKV ''10.0.0.1'' 80811 7))
    \<longleftrightarrow> ''10.0.0.1'' = ''10.0.0.1'' \<and> (8081 :: int) = 80811"
  by (rule register_prefix_exact) (simp_all add: is_int64_def)

lemma GetRaftConf_append:
  "raft_conf_of (rs @ rs') = raft_conf_of rs @ raft_conf_of rs'"
  by (induction rs) simp_all

end
