(* ===== verification/Dto.thy ===== *)
theory Dto
  imports Common "HOL-Library.AList"
begin

text \<open>
  \<^verbatim>\<open>common/dto.cc\<close>: the checks on incoming documents and ids, and the conversions
  between protobuf documents and the documents of the gamma engine.

  The gamma engine is not part of the repository. A gamma document is built by calls of
  \<open>AddField\<close>, so \<open>PbDocToGammaDoc\<close> returns the fields it adds, in order; a gamma table
  is built by setter calls, so \<open>GetGammaTable\<close> returns the calls. What
  \<open>Doc::TableFields\<close> shows of a document built this way is the parameter of the
  round-trip property, with \<open>gamma_doc_spec\<close> as the hypothesis on it.
\<close>

datatype gamma_dtype = G_INT | G_LONG | G_FLOAT | G_DOUBLE | G_STRING | G_VECTOR | G_STRINGARRAY

record gamma_field =
  gf_name :: string
  gf_value :: string
  gf_datatype :: gamma_dtype

definition ID_FIELD :: string where "ID_FIELD = ''_id''"

subsection \<open>Checks on documents and ids\<close>

definition CheckPbSpace :: "pb_space \<Rightarrow> msg" where
  "CheckPbSpace pb_space = ''''"

definition CheckPbDoc :: "pb_document \<Rightarrow> msg" where
  "CheckPbDoc d =
     (if length (doc_ints d) = 0 \<and> length (doc_longs d) = 0 \<and> length (doc_floats d) = 0 \<and>
         length (doc_doubles d) = 0 \<and> length (doc_strings d) = 0 \<and>
         length (doc_string_arrays d) = 0 \<and> length (doc_vectors d) = 0
      then ''Document is empty'' else '''')"

definition missing_msg :: "pb_field \<Rightarrow> bool \<Rightarrow> msg" where
  "missing_msg f found =
     (if found then ''''
      else ''Missing field in document: name = '' @ fd_name f @ '', type = '' @ fd_type f @ ''; '')"

definition field_msg :: "pb_document \<Rightarrow> pb_field \<Rightarrow> msg" where
  "field_msg d f =
     (let name = fd_name f; type = fd_type f in
      if type = INT_SDTYPE then missing_msg f (map_of (doc_ints d) name \<noteq> None)
      else if type = LONG_SDTYPE then missing_msg f (map_of (doc_longs d) name \<noteq> None)
      else if type = FLOAT_SDTYPE then missing_msg f (map_of (doc_floats d) name \<noteq> None)
      else if type = DOUBLE_SDTYPE then missing_msg f (map_of (doc_doubles d) name \<noteq> None)
      else if type = STRING_SDTYPE then missing_msg f (map_of (doc_strings d) name \<noteq> None)
      else if type = STRINGARRAY_SDTYPE then missing_msg f (map_of (doc_string_arrays d) name \<noteq> None)
      else if type = VECTOR_SDTYPE then
        (case map_of (doc_vectors d) name of
           Some v \<Rightarrow>
             if fd_dimension f \<noteq> None \<and> int_or (fd_dimension f) \<noteq> int (length v)
             then ''Field ['' @ name @ ''] vector dimension mismatch: expected '' @
               to_string (int_or (fd_dimension f)) @ '', got '' @ to_string (int (length v)) @ ''; ''
             else missing_msg f True
         | None \<Rightarrow> missing_msg f False)
      else ''Unknown type for field ['' @ name @ '']: '' @ type @ ''; '')"

definition CheckPbDocSpace :: "pb_document \<Rightarrow> pb_space \<Rightarrow> msg" where
  "CheckPbDocSpace d space =
     (if str_or (doc_id d) = '''' then ''Document _id is empty''
      else
        let status = (if str_or (sp_id_type space) = LONG_SDTYPE
                      then fst (StrToInt64 (str_or (doc_id d)) 0) else '''')
        in if status \<noteq> '''' then status
           else concat (map (field_msg d) (sp_fields space)))"

fun check_ids :: "pb_space \<Rightarrow> string set \<Rightarrow> string list \<Rightarrow> msg" where
  "check_ids space st [] = ''''"
| "check_ids space st (key # keys) =
     (if key = '''' then ''Document key is empty''
      else
        let status = (if str_or (sp_id_type space) = LONG_SDTYPE then fst (StrToInt64 key 0) else '''')
        in if status \<noteq> '''' then ''_id:'' @ key @ '' StrToInt64 failed: '' @ status
           else if key \<in> st then ''Duplicate document key: '' @ key
           else check_ids space (insert key st) keys)"

definition CheckPbIds :: "string list \<Rightarrow> pb_space \<Rightarrow> msg" where
  "CheckPbIds doc_keys space = check_ids space {} doc_keys"

definition GetPbDocKey :: "pb_document \<Rightarrow> DType \<Rightarrow> string" where
  "GetPbDocKey d id_dtype =
     (if id_dtype = DT_LONG then
        (case map_of (doc_longs d) ID_FIELD of Some v \<Rightarrow> to_string v | None \<Rightarrow> '''')
      else if id_dtype = DT_STRING then
        (case map_of (doc_strings d) ID_FIELD of Some v \<Rightarrow> v | None \<Rightarrow> '''')
      else '''')"

subsection \<open>From protobuf to gamma\<close>

definition ToGammaDtype :: "string \<Rightarrow> gamma_dtype" where
  "ToGammaDtype data_type =
     (if data_type = INT_SDTYPE then G_INT
      else if data_type = FLOAT_SDTYPE then G_FLOAT
      else if data_type = DOUBLE_SDTYPE then G_DOUBLE
      else if data_type = STRING_SDTYPE then G_STRING
      else if data_type = VECTOR_SDTYPE then G_VECTOR
      else G_INT)"

definition join_array :: "string list \<Rightarrow> string" where
  "join_array vals =
     (let v = concat (map (\<lambda>x. x @ '','') vals) in if v \<noteq> '''' then butlast v else v)"

definition gamma_field_of :: "(string \<Rightarrow> 'v \<Rightarrow> gamma_field) \<Rightarrow> (string \<times> 'v) list \<Rightarrow> gamma_field list" where
  "gamma_field_of mk kvs = map (\<lambda>(key, value). mk key value) kvs"

definition PbDocToGammaDoc :: "pb_document \<Rightarrow> pb_space \<Rightarrow> msg \<times> gamma_field list" where
  "PbDocToGammaDoc d space =
     (if str_or (sp_id_type space) = LONG_SDTYPE then
        (let (status, id_value) = StrToInt64 (str_or (doc_id d)) 0 in
         if status \<noteq> '''' then
           (''request Document _id:'' @ str_or (doc_id d) @ '' StrToInt64 failed: '' @ status, [])
         else
           ('''',
            [\<lparr>gf_name = ID_FIELD, gf_value = store_i64 id_value, gf_datatype = G_LONG\<rparr>] @
            gamma_field_of (\<lambda>k v. \<lparr>gf_name = k, gf_value = store_i32 v, gf_datatype = G_INT\<rparr>) (doc_ints d) @
            gamma_field_of (\<lambda>k v. \<lparr>gf_name = k, gf_value = store_i64 v, gf_datatype = G_LONG\<rparr>) (doc_longs d) @
            gamma_field_of (\<lambda>k v. \<lparr>gf_name = k, gf_value = store_f32 v, gf_datatype = G_FLOAT\<rparr>) (doc_floats d) @
            gamma_field_of (\<lambda>k v. \<lparr>gf_name = k, gf_value = store_f64 v, gf_datatype = G_DOUBLE\<rparr>) (doc_doubles d) @
            gamma_field_of (\<lambda>k v. \<lparr>gf_name = k, gf_value = v, gf_datatype = G_STRING\<rparr>) (doc_strings d) @
            gamma_field_of (\<lambda>k v. \<lparr>gf_name = k, gf_value = join_array v, gf_datatype = G_STRINGARRAY\<rparr>)
              (doc_string_arrays d) @
            gamma_field_of (\<lambda>k v. \<lparr>gf_name = k, gf_value = concat (map store_f32 v), gf_datatype = G_VECTOR\<rparr>)
              (doc_vectors d)))
      else (''Unsupported _id type: '' @ str_or (sp_id_type space), []))"

subsection \<open>From gamma to protobuf\<close>

text \<open>\<open>std::getline(iss, item, ',')\<close> until the stream is exhausted.\<close>

fun getlines :: "string \<Rightarrow> string list" where
  "getlines s =
     (if s = [] then []
      else takeWhile (\<lambda>c. c \<noteq> CHR '','') s #
        getlines (drop (Suc (length (takeWhile (\<lambda>c. c \<noteq> CHR '','') s))) s))"

declare getlines.simps [simp del]

definition add_table_field :: "string \<times> gamma_field \<Rightarrow> pb_document \<Rightarrow> pb_document ub" where
  "add_table_field nf d =
     (let name = fst nf; field = snd nf in
      case gf_datatype field of
        G_INT \<Rightarrow> do { v \<leftarrow> load_i32 (c_str (gf_value field));
                      Some (d\<lparr>doc_ints := AList.update name v (doc_ints d)\<rparr>) }
      | G_LONG \<Rightarrow> do { v \<leftarrow> load_i64 (c_str (gf_value field));
                      Some (d\<lparr>doc_longs := AList.update name v (doc_longs d)\<rparr>) }
      | G_FLOAT \<Rightarrow> do { v \<leftarrow> load_f32 (c_str (gf_value field));
                      Some (d\<lparr>doc_floats := AList.update name v (doc_floats d)\<rparr>) }
      | G_DOUBLE \<Rightarrow> do { v \<leftarrow> load_f64 (c_str (gf_value field));
                      Some (d\<lparr>doc_doubles := AList.update name v (doc_doubles d)\<rparr>) }
      | G_STRING \<Rightarrow> Some (d\<lparr>doc_strings := AList.update name (gf_value field) (doc_strings d)\<rparr>)
      | G_STRINGARRAY \<Rightarrow>
          Some (d\<lparr>doc_string_arrays := AList.update name
            ((case map_of (doc_string_arrays d) name of None \<Rightarrow> [] | Some xs \<Rightarrow> xs) @ getlines (gf_value field))
            (doc_string_arrays d)\<rparr>)
      | G_VECTOR \<Rightarrow> Some d)"

fun add_table_fields :: "(string \<times> gamma_field) list \<Rightarrow> pb_document \<Rightarrow> pb_document ub" where
  "add_table_fields [] d = Some d"
| "add_table_fields (nf # nfs) d = do { d' \<leftarrow> add_table_field nf d; add_table_fields nfs d' }"

text \<open>\<open>float val = *(float*)(field.value.c_str() + i * sizeof(float))\<close> for each \<open>i < size\<close>.\<close>

primrec read_floats :: "nat \<Rightarrow> string \<Rightarrow> float32 list ub" where
  "read_floats 0 buf = Some []"
| "read_floats (Suc n) buf = do { v \<leftarrow> load_f32 buf; vs \<leftarrow> read_floats n (drop 4 buf); Some (v # vs) }"

definition add_vector :: "string \<times> gamma_field \<Rightarrow> pb_document \<Rightarrow> pb_document ub" where
  "add_vector nf d =
     (let name = fst nf; field = snd nf in
      do {
        vals \<leftarrow> read_floats (length (gf_value field) div 4) (c_str (gf_value field));
        Some (d\<lparr>doc_vectors := AList.update name
          ((case map_of (doc_vectors d) name of None \<Rightarrow> [] | Some xs \<Rightarrow> xs) @ vals) (doc_vectors d)\<rparr>)
      })"

fun add_vectors :: "(string \<times> gamma_field) list \<Rightarrow> pb_document \<Rightarrow> pb_document ub" where
  "add_vectors [] d = Some d"
| "add_vectors (nf # nfs) d = do { d' \<leftarrow> add_vector nf d; add_vectors nfs d' }"

text \<open>
  The second loop of the source iterates over \<open>table_fields\<close> as well; the result of
  \<open>VectorFields()\<close> is not used.
\<close>

definition GammaDocToPbDoc :: "(string \<times> gamma_field) list \<Rightarrow> pb_document ub" where
  "GammaDocToPbDoc table_fields =
     do {
       d \<leftarrow> add_table_fields table_fields empty_document;
       add_vectors table_fields d
     }"

subsection \<open>The table of a space\<close>

record vector_info =
  vi_name :: string
  vi_data_type :: gamma_dtype
  vi_is_index :: bool
  vi_dimension :: int
  vi_store_param :: string

record field_info =
  fi_name :: string
  fi_data_type :: gamma_dtype
  fi_is_index :: bool

datatype table_call =
    SetName string
  | SetIndexType string
  | SetIndexParams string
  | AddVectorInfo vector_info
  | AddFieldInfo field_info

definition table_calls :: "pb_field \<Rightarrow> table_call list" where
  "table_calls f =
     (if fd_type f = ''vector'' then
        (let index = (case fd_index f of Some i \<Rightarrow> i | None \<Rightarrow> \<lparr>ix_name = '''', ix_type = '''', ix_params = None\<rparr>);
             vector_info = \<lparr>vi_name = fd_name f, vi_data_type = ToGammaDtype (fd_type f), vi_is_index = True,
               vi_dimension = int_or (fd_dimension f), vi_store_param = str_or (ix_params index)\<rparr>
         in [SetIndexType (ix_type index), SetIndexParams (str_or (ix_params index)), AddVectorInfo vector_info])
      else
        [AddFieldInfo \<lparr>fi_name = fd_name f, fi_data_type = ToGammaDtype (fd_type f),
           fi_is_index = (fd_index f \<noteq> None)\<rparr>])"

definition GetGammaTable :: "pb_space \<Rightarrow> table_call list" where
  "GetGammaTable space = SetName (sp_space_name space) # concat (map table_calls (sp_fields space))"

subsection \<open>What the checks accept\<close>

definition field_present :: "pb_document \<Rightarrow> pb_field \<Rightarrow> bool" where
  "field_present d f =
     (case SDTypeToDType (fd_type f) of
        DT_INT \<Rightarrow> fd_name f \<in> fst ` set (doc_ints d)
      | DT_LONG \<Rightarrow> fd_name f \<in> fst ` set (doc_longs d)
      | DT_FLOAT \<Rightarrow> fd_name f \<in> fst ` set (doc_floats d)
      | DT_DOUBLE \<Rightarrow> fd_name f \<in> fst ` set (doc_doubles d)
      | DT_STRING \<Rightarrow> fd_name f \<in> fst ` set (doc_strings d)
      | DT_STRINGARRAY \<Rightarrow> fd_name f \<in> fst ` set (doc_string_arrays d)
      | DT_VECTOR \<Rightarrow>
          (case map_of (doc_vectors d) (fd_name f) of
             None \<Rightarrow> False
           | Some v \<Rightarrow> fd_dimension f \<in> {None, Some (int (length v))})
      | DT_UNDEFINE \<Rightarrow> False)"

definition numeric_id :: "string \<Rightarrow> bool" where
  "numeric_id s \<longleftrightarrow> fst (StrToInt64 s 0) = ''''"

definition id_ok :: "pb_space \<Rightarrow> string \<Rightarrow> bool" where
  "id_ok space s \<longleftrightarrow> s \<noteq> '''' \<and> (str_or (sp_id_type space) = LONG_SDTYPE \<longrightarrow> numeric_id s)"

definition doc_conforms :: "pb_document \<Rightarrow> pb_space \<Rightarrow> bool" where
  "doc_conforms d space \<longleftrightarrow> id_ok space (str_or (doc_id d)) \<and> list_all (field_present d) (sp_fields space)"

lemma missing_msg_empty [simp]: "missing_msg f found = '''' \<longleftrightarrow> found"
  by (simp add: missing_msg_def)

lemma field_msg_empty_iff: "field_msg d f = '''' \<longleftrightarrow> field_present d f"
proof (cases "fd_type f = VECTOR_SDTYPE")
  case True
  then show ?thesis
    by (cases "fd_dimension f")
      (simp_all add: field_msg_def field_present_def SDTypeToDType_def sdtype_to_dtype_def sdtype_defs
        split: option.splits)
next
  case False
  then show ?thesis
    by (simp add: field_msg_def field_present_def SDTypeToDType_def sdtype_to_dtype_def sdtype_defs
        map_of_eq_None_iff)
qed

text \<open>C36: the document check of the router passes exactly the documents that conform to the
  schema of the space: a non-empty id, numeric where ids are \<open>long\<close>, and every field of the
  schema present under its type, vectors with the declared dimension.\<close>

theorem CheckPbDocSpace_iff: "CheckPbDocSpace d space = '''' \<longleftrightarrow> doc_conforms d space"
proof -
  have "concat (map (field_msg d) fs) = '''' \<longleftrightarrow> list_all (field_present d) fs" for fs
    by (induction fs) (simp_all add: field_msg_empty_iff)
  then show ?thesis
    by (auto simp: CheckPbDocSpace_def doc_conforms_def id_ok_def numeric_id_def Let_def)
qed

lemma check_ids_empty_iff:
  "check_ids space st keys = '''' \<longleftrightarrow> (\<forall>k \<in> set keys. id_ok space k) \<and> distinct keys \<and> set keys \<inter> st = {}"
  by (induction space st keys rule: check_ids.induct)
    (auto simp: id_ok_def numeric_id_def Let_def)

text \<open>The check on a list of ids passes exactly the lists of distinct, non-empty ids that
  are numeric where the space has \<open>long\<close> ids.\<close>

lemma CheckPbIds_iff: "CheckPbIds keys space = '''' \<longleftrightarrow> list_all (id_ok space) keys \<and> distinct keys"
  by (simp add: CheckPbIds_def check_ids_empty_iff list_all_iff)

lemma CheckPbIds_same_number:
  "CheckPbIds [''7'', ''07''] (empty_space\<lparr>sp_id_type := Some ''long''\<rparr>) = '''' \<and>
   snd (StrToInt64 ''7'' 0) = snd (StrToInt64 ''07'' 0)"
  by code_simp

lemma stringarray_unknown:
  "field_msg d \<lparr>fd_name = n, fd_type = ''stringarray'', fd_dimension = dim, fd_index = ix\<rparr> =
     ''Unknown type for field ['' @ n @ '']: stringarray; ''"
  by (simp add: field_msg_def sdtype_defs)


subsection \<open>String arrays\<close>

fun intercalate :: "string list \<Rightarrow> string" where
  "intercalate [] = []"
| "intercalate [x] = x"
| "intercalate (x # y # ys) = x @ CHR '','' # intercalate (y # ys)"

lemma join_array_intercalate: "join_array vals = intercalate vals"
proof -
  have "concat (map (\<lambda>x. x @ '','') (v # vs)) = intercalate (v # vs) @ '',''" for v vs
    by (induction "v # vs" arbitrary: v vs rule: intercalate.induct) simp_all
  then have "butlast (concat (map (\<lambda>x. x @ '','') (v # vs))) = intercalate (v # vs)" for v vs
    by simp
  then show ?thesis
    by (cases vals) (simp_all only: join_array_def Let_def, simp_all)
qed

lemma takeWhile_sep: "c \<notin> set x \<Longrightarrow> takeWhile (\<lambda>d. d \<noteq> c) (x @ c # r) = x"
  by (induction x) auto

lemma getlines_last: "CHR '','' \<notin> set x \<Longrightarrow> x \<noteq> [] \<Longrightarrow> getlines x = [x]"
proof (subst getlines.simps)
  assume "CHR '','' \<notin> set x" and "x \<noteq> []"
  then have "takeWhile (\<lambda>c. c \<noteq> CHR '','') x = x" by (auto simp: takeWhile_eq_all_conv)
  with \<open>x \<noteq> []\<close> show "(if x = [] then [] else takeWhile (\<lambda>c. c \<noteq> CHR '','') x #
      getlines (drop (Suc (length (takeWhile (\<lambda>c. c \<noteq> CHR '','') x))) x)) = [x]"
    by (simp only: getlines.simps [of "[]"]) (simp add: getlines.simps [of "[]"])
qed

lemma getlines_sep: "CHR '','' \<notin> set x \<Longrightarrow> getlines (x @ CHR '','' # r) = x # getlines r"
  by (subst getlines.simps) (simp add: takeWhile_sep)

definition splittable :: "string list \<Rightarrow> bool" where
  "splittable vals \<longleftrightarrow> (\<forall>x \<in> set vals. CHR '','' \<notin> set x) \<and> (vals = [] \<or> last vals \<noteq> [])"

lemma getlines_intercalate: "splittable vals \<Longrightarrow> getlines (intercalate vals) = vals"
  by (induction vals rule: intercalate.induct)
    (simp_all add: splittable_def getlines_last getlines_sep getlines.simps [of "[]"])

text \<open>An array of strings survives the comma-separated form the engine stores, when no
  element contains a comma and the last element is not empty.\<close>

lemma string_array_roundtrip:
  assumes "splittable vals"
  shows "getlines (join_array vals) = vals"
  using getlines_intercalate [OF assms] by (simp add: join_array_intercalate)

lemma string_array_roundtrip_witness:
  "getlines (join_array [''red'', '''', ''blue'']) = [''red'', '''', ''blue'']"
  by (rule string_array_roundtrip) (simp add: splittable_def)

lemma string_array_lossy: "getlines (join_array [''a'', '''']) = [''a'']" "getlines (join_array ['''']) = []"
  by (simp_all add: join_array_intercalate getlines_last getlines_sep [of "''a''" "[]", simplified]
      getlines.simps [of "[]"])

subsection \<open>Reading table fields back\<close>

definition gf_int :: "gamma_field \<Rightarrow> int option" where
  "gf_int f = (if gf_datatype f = G_INT then load_i32 (c_str (gf_value f)) else None)"

definition gf_long :: "gamma_field \<Rightarrow> int option" where
  "gf_long f = (if gf_datatype f = G_LONG then load_i64 (c_str (gf_value f)) else None)"

definition gf_float :: "gamma_field \<Rightarrow> float32 option" where
  "gf_float f = (if gf_datatype f = G_FLOAT then load_f32 (c_str (gf_value f)) else None)"

definition gf_double :: "gamma_field \<Rightarrow> float64 option" where
  "gf_double f = (if gf_datatype f = G_DOUBLE then load_f64 (c_str (gf_value f)) else None)"

definition gf_string :: "gamma_field \<Rightarrow> string option" where
  "gf_string f = (if gf_datatype f = G_STRING then Some (gf_value f) else None)"

definition gf_array :: "gamma_field \<Rightarrow> string list option" where
  "gf_array f = (if gf_datatype f = G_STRINGARRAY then Some (getlines (gf_value f)) else None)"

lemmas gf_defs = gf_int_def gf_long_def gf_float_def gf_double_def gf_string_def gf_array_def

definition readable :: "gamma_field \<Rightarrow> bool" where
  "readable f \<longleftrightarrow>
     (gf_datatype f = G_INT \<longrightarrow> gf_int f \<noteq> None) \<and> (gf_datatype f = G_LONG \<longrightarrow> gf_long f \<noteq> None) \<and>
     (gf_datatype f = G_FLOAT \<longrightarrow> gf_float f \<noteq> None) \<and> (gf_datatype f = G_DOUBLE \<longrightarrow> gf_double f \<noteq> None)"

text \<open>The entries of kind \<open>sel\<close> that a list of table fields adds to a map.\<close>

definition put_fields :: "(gamma_field \<Rightarrow> 'v option) \<Rightarrow> (string \<times> gamma_field) list \<Rightarrow> (string \<rightharpoonup> 'v) \<Rightarrow> string \<rightharpoonup> 'v" where
  "put_fields sel l m = m ++ (\<lambda>n. Option.bind (map_of l n) sel)"

lemma put_fields_Nil [simp]: "put_fields sel [] m = m"
  by (simp add: put_fields_def map_add_def)

lemma put_fields_Cons:
  "n \<notin> fst ` set l \<Longrightarrow>
     put_fields sel ((n, f) # l) m = put_fields sel l (case sel f of None \<Rightarrow> m | Some v \<Rightarrow> m(n \<mapsto> v))"
proof -
  assume "n \<notin> fst ` set l"
  then have "map_of l n = None" by (simp add: map_of_eq_None_iff)
  then show ?thesis by (auto simp: put_fields_def map_add_def fun_eq_iff split: option.splits)
qed

definition reads_as :: "(string \<times> gamma_field) list \<Rightarrow> pb_document \<Rightarrow> pb_document \<Rightarrow> bool" where
  "reads_as l d d' \<longleftrightarrow>
     doc_id d' = doc_id d \<and> doc_vectors d' = doc_vectors d \<and>
     map_of (doc_ints d') = put_fields gf_int l (map_of (doc_ints d)) \<and>
     map_of (doc_longs d') = put_fields gf_long l (map_of (doc_longs d)) \<and>
     map_of (doc_floats d') = put_fields gf_float l (map_of (doc_floats d)) \<and>
     map_of (doc_doubles d') = put_fields gf_double l (map_of (doc_doubles d)) \<and>
     map_of (doc_strings d') = put_fields gf_string l (map_of (doc_strings d)) \<and>
     map_of (doc_string_arrays d') = put_fields gf_array l (map_of (doc_string_arrays d))"

lemma reads_as_empty:
  assumes "reads_as l empty_document d"
  shows "doc_id d = None" "map_of (doc_ints d) = put_fields gf_int l Map.empty"
    "map_of (doc_longs d) = put_fields gf_long l Map.empty"
    "map_of (doc_floats d) = put_fields gf_float l Map.empty"
    "map_of (doc_doubles d) = put_fields gf_double l Map.empty"
    "map_of (doc_strings d) = put_fields gf_string l Map.empty"
    "map_of (doc_string_arrays d) = put_fields gf_array l Map.empty"
  using assms by (simp_all add: reads_as_def empty_document_def)

lemma add_table_field_reads:
  assumes "readable f" and "map_of (doc_string_arrays d) n = None"
  shows "\<exists>d1. add_table_field (n, f) d = Some d1 \<and> reads_as [(n, f)] d d1"
  using assms
  by (cases "gf_datatype f")
    (auto simp: add_table_field_def reads_as_def readable_def gf_defs put_fields_Cons update_conv')

lemma reads_as_Cons:
  assumes "n \<notin> fst ` set l" and "reads_as [(n, f)] d d1" and "reads_as l d1 d'"
  shows "reads_as ((n, f) # l) d d'"
  using assms by (simp add: reads_as_def put_fields_Cons)

lemma add_table_fields_reads:
  assumes "distinct (map fst l)" and "\<forall>f \<in> snd ` set l. readable f"
    and "\<forall>n \<in> fst ` set l. map_of (doc_string_arrays d) n = None"
  shows "\<exists>d'. add_table_fields l d = Some d' \<and> reads_as l d d'"
  using assms
proof (induction l arbitrary: d)
  case Nil
  then show ?case by (simp add: reads_as_def)
next
  case (Cons nf l)
  obtain n f where nf: "nf = (n, f)" by fastforce
  from Cons.prems nf obtain d1 where d1: "add_table_field (n, f) d = Some d1" "reads_as [(n, f)] d d1"
    using add_table_field_reads [of f d n] by auto
  have "\<forall>k \<in> fst ` set l. map_of (doc_string_arrays d1) k = None"
    using Cons.prems nf d1(2)
    by (auto simp: reads_as_def put_fields_Cons split: option.splits)
  moreover have "distinct (map fst l)" and "\<forall>f \<in> snd ` set l. readable f"
    using Cons.prems nf by auto
  ultimately obtain d' where "add_table_fields l d1 = Some d'" "reads_as l d1 d'"
    using Cons.IH [of d1] by blast
  with d1 nf Cons.prems(1) reads_as_Cons [of n l f d d1 d'] show ?case by auto
qed

subsection \<open>Vectors are read from the table fields\<close>

lemma read_floats_defined: "n * 4 \<le> length buf \<Longrightarrow> \<exists>vs. read_floats n buf = Some vs"
proof (induction n arbitrary: buf)
  case 0
  then show ?case by simp
next
  case (Suc n)
  have "load_f32 buf \<noteq> None" using Suc.prems by (simp add: load_f32_def load_bytes_def)
  moreover have "\<exists>vs. read_floats n (drop 4 buf) = Some vs" using Suc by simp
  ultimately show ?case by auto
qed

lemma add_vector_defined:
  "\<exists>vs. add_vector (n, f) d = Some (d\<lparr>doc_vectors := AList.update n vs (doc_vectors d)\<rparr>)"
proof -
  have "length (gf_value f) div 4 * 4 \<le> length (c_str (gf_value f))"
    by (simp add: c_str_def div_times_less_eq_dividend le_SucI)
  then obtain vals where "read_floats (length (gf_value f) div 4) (c_str (gf_value f)) = Some vals"
    using read_floats_defined by blast
  then show ?thesis by (auto simp: add_vector_def)
qed

lemma add_vectors_defined:
  "\<exists>vs. add_vectors l d = Some (d\<lparr>doc_vectors := vs\<rparr>) \<and>
     fst ` set vs = fst ` set l \<union> fst ` set (doc_vectors d)"
proof (induction l arbitrary: d)
  case Nil
  show ?case by (rule exI [of _ "doc_vectors d"]) simp
next
  case (Cons nf l)
  obtain n f where nf: "nf = (n, f)" by fastforce
  obtain v where v: "add_vector (n, f) d = Some (d\<lparr>doc_vectors := AList.update n v (doc_vectors d)\<rparr>)"
    using add_vector_defined by blast
  from Cons [of "d\<lparr>doc_vectors := AList.update n v (doc_vectors d)\<rparr>"] obtain vs where
    "add_vectors l (d\<lparr>doc_vectors := AList.update n v (doc_vectors d)\<rparr>) =
       Some (d\<lparr>doc_vectors := vs\<rparr>)"
    "fst ` set vs = fst ` set l \<union> fst ` set (AList.update n v (doc_vectors d))"
    by auto
  moreover have "fst ` set (AList.update n v (doc_vectors d)) = insert n (fst ` set (doc_vectors d))"
    by (simp add: dom_update)
  ultimately show ?case using v nf by auto
qed

lemma GammaDocToPbDoc_reads:
  assumes "distinct (map fst l)" and "\<forall>f \<in> snd ` set l. readable f"
  obtains d vs where "GammaDocToPbDoc l = Some (d\<lparr>doc_vectors := vs\<rparr>)"
    and "reads_as l empty_document d" and "fst ` set vs = fst ` set l"
proof -
  have "\<forall>n \<in> fst ` set l. map_of (doc_string_arrays empty_document) n = None"
    by (simp add: empty_document_def)
  then obtain d where d: "add_table_fields l empty_document = Some d" "reads_as l empty_document d"
    using add_table_fields_reads [OF assms] by blast
  then have "doc_vectors d = []" by (simp add: reads_as_def empty_document_def)
  with add_vectors_defined [of l d] obtain vs where
    "add_vectors l d = Some (d\<lparr>doc_vectors := vs\<rparr>)" "fst ` set vs = fst ` set l" by auto
  with d that show ?thesis by (simp add: GammaDocToPbDoc_def)
qed

subsection \<open>Round trip of a document\<close>

definition gamma_doc_spec :: "(gamma_field list \<Rightarrow> (string \<times> gamma_field) list) \<Rightarrow> bool" where
  "gamma_doc_spec table_fields_of \<longleftrightarrow>
     (\<forall>fs. distinct (map fst (table_fields_of fs)) \<and>
        map_of (table_fields_of fs) =
          map_of (rev (map (\<lambda>f. (gf_name f, f)) (filter (\<lambda>f. gf_datatype f \<noteq> G_VECTOR) fs))))"

definition scalar_names :: "pb_document \<Rightarrow> string list" where
  "scalar_names d =
     map fst (doc_ints d) @ map fst (doc_longs d) @ map fst (doc_floats d) @ map fst (doc_doubles d) @
     map fst (doc_strings d) @ map fst (doc_string_arrays d)"

definition doc_typed :: "pb_document \<Rightarrow> bool" where
  "doc_typed d \<longleftrightarrow>
     (\<forall>v \<in> snd ` set (doc_ints d). is_int32 v) \<and> (\<forall>v \<in> snd ` set (doc_longs d). is_int64 v) \<and>
     (\<forall>vals \<in> snd ` set (doc_string_arrays d). splittable vals)"

definition table_alist :: "int \<Rightarrow> pb_document \<Rightarrow> (string \<times> gamma_field) list" where
  "table_alist idv d =
     [(ID_FIELD, \<lparr>gf_name = ID_FIELD, gf_value = store_i64 idv, gf_datatype = G_LONG\<rparr>)] @
     map (\<lambda>(k, v). (k, \<lparr>gf_name = k, gf_value = store_i32 v, gf_datatype = G_INT\<rparr>)) (doc_ints d) @
     map (\<lambda>(k, v). (k, \<lparr>gf_name = k, gf_value = store_i64 v, gf_datatype = G_LONG\<rparr>)) (doc_longs d) @
     map (\<lambda>(k, v). (k, \<lparr>gf_name = k, gf_value = store_f32 v, gf_datatype = G_FLOAT\<rparr>)) (doc_floats d) @
     map (\<lambda>(k, v). (k, \<lparr>gf_name = k, gf_value = store_f64 v, gf_datatype = G_DOUBLE\<rparr>)) (doc_doubles d) @
     map (\<lambda>(k, v). (k, \<lparr>gf_name = k, gf_value = v, gf_datatype = G_STRING\<rparr>)) (doc_strings d) @
     map (\<lambda>(k, v). (k, \<lparr>gf_name = k, gf_value = join_array v, gf_datatype = G_STRINGARRAY\<rparr>)) (doc_string_arrays d)"

lemma filter_gamma_field_of:
  "(\<And>k v. gf_datatype (mk k v) \<noteq> G_VECTOR) \<Longrightarrow>
     filter (\<lambda>f. gf_datatype f \<noteq> G_VECTOR) (gamma_field_of mk kvs) = gamma_field_of mk kvs"
  "(\<And>k v. gf_datatype (mk k v) = G_VECTOR) \<Longrightarrow>
     filter (\<lambda>f. gf_datatype f \<noteq> G_VECTOR) (gamma_field_of mk kvs) = []"
  by (auto simp: gamma_field_of_def filter_id_conv filter_empty_conv)

lemma table_alist_fields:
  assumes "str_or (sp_id_type space) = LONG_SDTYPE" and "StrToInt64 (str_or (doc_id d)) 0 = ('''', idv)"
  shows "map (\<lambda>f. (gf_name f, f)) (filter (\<lambda>f. gf_datatype f \<noteq> G_VECTOR) (snd (PbDocToGammaDoc d space))) =
    table_alist idv d"
  using assms
  by (simp add: PbDocToGammaDoc_def filter_gamma_field_of table_alist_def)
    (simp add: gamma_field_of_def case_prod_unfold)

lemma map_fst_table_alist: "map fst (table_alist idv d) = ID_FIELD # scalar_names d"
  by (simp add: table_alist_def scalar_names_def case_prod_unfold comp_def)

lemma gf_stored:
  "is_int32 i \<Longrightarrow> load_i32 (c_str (store_i32 i)) = Some i"
  "is_int64 i \<Longrightarrow> load_i64 (c_str (store_i64 i)) = Some i"
  "load_f32 (c_str (store_f32 w)) = Some w"
  "load_f64 (c_str (store_f64 w')) = Some w'"
  by (simp_all only: c_str_def i32.dec_enc i64.dec_enc f32.dec_enc f64.dec_enc)

lemma put_fields_eq:
  assumes "distinct (map fst l)" and "distinct (map fst kvs)"
    and "\<And>n v. (\<exists>f. (n, f) \<in> set l \<and> sel f = Some v) \<longleftrightarrow> (n, v) \<in> set kvs"
  shows "put_fields sel l Map.empty = map_of kvs"
proof
  fix n
  have "put_fields sel l Map.empty n = Some v \<longleftrightarrow> map_of kvs n = Some v" for v
    using assms by (auto simp: put_fields_def bind_eq_Some_conv)
  then show "put_fields sel l Map.empty n = map_of kvs n"
    by (metis not_None_eq)
qed

lemma table_fields_set:
  assumes "gamma_doc_spec table_fields_of" and "distinct (ID_FIELD # scalar_names d)"
    and "str_or (sp_id_type space) = LONG_SDTYPE" and "StrToInt64 (str_or (doc_id d)) 0 = ('''', idv)"
  shows "distinct (map fst (table_fields_of (snd (PbDocToGammaDoc d space))))"
    and "set (table_fields_of (snd (PbDocToGammaDoc d space))) = set (table_alist idv d)"
proof -
  let ?l = "table_fields_of (snd (PbDocToGammaDoc d space))"
  show dl: "distinct (map fst ?l)" using assms(1) by (simp add: gamma_doc_spec_def)
  have "map_of ?l = map_of (rev (table_alist idv d))"
    using assms(1) by (simp add: gamma_doc_spec_def flip: table_alist_fields [OF assms(3,4)])
  moreover have "distinct (map fst (rev (table_alist idv d)))"
    using assms(2) by (simp add: rev_map [symmetric] map_fst_table_alist)
  ultimately show "set ?l = set (table_alist idv d)"
    using map_of_inject_set [OF dl] by simp
qed

lemma table_alist_readable:
  assumes "doc_typed d" and "is_int64 idv" and "(n, f) \<in> set (table_alist idv d)"
  shows "readable f"
  using assms by (auto simp: table_alist_def doc_typed_def readable_def gf_defs gf_stored)

lemma table_alist_iff:
  "(n, f) \<in> set (table_alist idv d) \<longleftrightarrow>
     (n = ID_FIELD \<and> f = \<lparr>gf_name = n, gf_value = store_i64 idv, gf_datatype = G_LONG\<rparr>) \<or>
     (\<exists>v. (n, v) \<in> set (doc_ints d) \<and> f = \<lparr>gf_name = n, gf_value = store_i32 v, gf_datatype = G_INT\<rparr>) \<or>
     (\<exists>v. (n, v) \<in> set (doc_longs d) \<and> f = \<lparr>gf_name = n, gf_value = store_i64 v, gf_datatype = G_LONG\<rparr>) \<or>
     (\<exists>v. (n, v) \<in> set (doc_floats d) \<and> f = \<lparr>gf_name = n, gf_value = store_f32 v, gf_datatype = G_FLOAT\<rparr>) \<or>
     (\<exists>v. (n, v) \<in> set (doc_doubles d) \<and> f = \<lparr>gf_name = n, gf_value = store_f64 v, gf_datatype = G_DOUBLE\<rparr>) \<or>
     (\<exists>v. (n, v) \<in> set (doc_strings d) \<and> f = \<lparr>gf_name = n, gf_value = v, gf_datatype = G_STRING\<rparr>) \<or>
     (\<exists>v. (n, v) \<in> set (doc_string_arrays d) \<and> f = \<lparr>gf_name = n, gf_value = join_array v, gf_datatype = G_STRINGARRAY\<rparr>)"
  unfolding table_alist_def by auto

lemma table_alist_kinds:
  assumes "doc_typed d" and "is_int64 idv"
  shows "(\<exists>f. (n, f) \<in> set (table_alist idv d) \<and> gf_int f = Some i) \<longleftrightarrow> (n, i) \<in> set (doc_ints d)"
    and "(\<exists>f. (n, f) \<in> set (table_alist idv d) \<and> gf_long f = Some i) \<longleftrightarrow>
      (n, i) \<in> set ((ID_FIELD, idv) # doc_longs d)"
    and "(\<exists>f. (n, f) \<in> set (table_alist idv d) \<and> gf_float f = Some x) \<longleftrightarrow> (n, x) \<in> set (doc_floats d)"
    and "(\<exists>f. (n, f) \<in> set (table_alist idv d) \<and> gf_double f = Some y) \<longleftrightarrow> (n, y) \<in> set (doc_doubles d)"
    and "(\<exists>f. (n, f) \<in> set (table_alist idv d) \<and> gf_string f = Some s) \<longleftrightarrow> (n, s) \<in> set (doc_strings d)"
    and "(\<exists>f. (n, f) \<in> set (table_alist idv d) \<and> gf_array f = Some a) \<longleftrightarrow> (n, a) \<in> set (doc_string_arrays d)"
proof -
  have ints: "load_i32 (c_str (store_i32 v)) = Some v" if "(k, v) \<in> set (doc_ints d)" for k v
    using assms(1) that gf_stored(1) by (force simp: doc_typed_def)
  have longs: "load_i64 (c_str (store_i64 v)) = Some v" if "(k, v) \<in> set (doc_longs d)" for k v
    using assms(1) that gf_stored(2) by (force simp: doc_typed_def)
  have arrays: "getlines (join_array v) = v" if "(k, v) \<in> set (doc_string_arrays d)" for k v
    using assms(1) that getlines_intercalate by (force simp: doc_typed_def join_array_intercalate)
  show "(\<exists>f. (n, f) \<in> set (table_alist idv d) \<and> gf_int f = Some i) \<longleftrightarrow> (n, i) \<in> set (doc_ints d)"
    using ints by (auto simp: table_alist_iff gf_int_def ex_disj_distrib conj_disj_distribR)
  show "(\<exists>f. (n, f) \<in> set (table_alist idv d) \<and> gf_long f = Some i) \<longleftrightarrow>
      (n, i) \<in> set ((ID_FIELD, idv) # doc_longs d)"
    using longs gf_stored(2) [OF assms(2)] by (auto simp: table_alist_iff gf_long_def ex_disj_distrib conj_disj_distribR)
  show "(\<exists>f. (n, f) \<in> set (table_alist idv d) \<and> gf_float f = Some x) \<longleftrightarrow> (n, x) \<in> set (doc_floats d)"
    using gf_stored(3) by (auto simp: table_alist_iff gf_float_def ex_disj_distrib conj_disj_distribR)
  show "(\<exists>f. (n, f) \<in> set (table_alist idv d) \<and> gf_double f = Some y) \<longleftrightarrow> (n, y) \<in> set (doc_doubles d)"
    using gf_stored(4) by (auto simp: table_alist_iff gf_double_def ex_disj_distrib conj_disj_distribR)
  show "(\<exists>f. (n, f) \<in> set (table_alist idv d) \<and> gf_string f = Some s) \<longleftrightarrow> (n, s) \<in> set (doc_strings d)"
    by (auto simp: table_alist_iff gf_string_def ex_disj_distrib conj_disj_distribR)
  show "(\<exists>f. (n, f) \<in> set (table_alist idv d) \<and> gf_array f = Some a) \<longleftrightarrow> (n, a) \<in> set (doc_string_arrays d)"
    using arrays by (auto simp: table_alist_iff gf_array_def ex_disj_distrib conj_disj_distribR)
qed


definition demo_document :: pb_document where
  "demo_document = empty_document\<lparr>doc_id := Some ''-42'', doc_ints := [(''age'', 7)],
     doc_longs := [(''ts'', 5000000000)], doc_strings := [(''name'', ''x'')],
     doc_string_arrays := [(''tags'', [''red'', ''blue''])], doc_vectors := [(''emb'', [1, 2])]\<rparr>"

definition demo_table_fields :: "gamma_field list \<Rightarrow> (string \<times> gamma_field) list" where
  "demo_table_fields fs =
     foldl (\<lambda>m f. AList.update (gf_name f) f m) [] (filter (\<lambda>f. gf_datatype f \<noteq> G_VECTOR) fs)"

lemma demo_gamma_doc_spec: "gamma_doc_spec demo_table_fields"
proof -
  have "distinct (map fst m) \<Longrightarrow>
      distinct (map fst (foldl (\<lambda>m f. AList.update (gf_name f) f m) m fs)) \<and>
      map_of (foldl (\<lambda>m f. AList.update (gf_name f) f m) m fs) =
        map_of m ++ map_of (rev (map (\<lambda>f. (gf_name f, f)) fs))" for m and fs :: "gamma_field list"
    by (induction fs arbitrary: m) (auto simp: distinct_update update_conv' fun_eq_iff map_add_def split: option.splits)
  then show ?thesis by (simp add: gamma_doc_spec_def demo_table_fields_def)
qed


end
