(* ===== verification/Files.thy ===== *)
theory Files
  imports Numeric_Util "HOL-Library.AList" "HOL-Library.Sublist"
begin

text \<open>
  The file system the servers work on, and \<open>utils/file_tool.cc\<close>.

  POSIX files are modelled as the program uses them: a directory tree of paths, inodes with
  their contents (a renamed or replaced file stays readable through its descriptors), open
  files with a position, and the free space of the device, which is what makes a
  \<open>write\<close> short. The butil file functions are not part of the repository: they are the
  record \<open>butil\<close> of functions, with \<open>butil_spec\<close> as the hypothesis that they do what
  their documentation says.
\<close>

subsection \<open>State\<close>

datatype node = Regular nat | Directory

record open_file =
  of_inode :: nat
  of_pos :: nat

record file_system =
  fs_nodes :: "(string \<times> node) list"
  fs_data :: "nat \<Rightarrow> string"
  fs_next :: nat
  fs_fds :: "(int \<times> open_file) list"
  fs_room :: nat
  fs_denied :: "string \<Rightarrow> bool"

definition node_at :: "file_system \<Rightarrow> string \<Rightarrow> node option" where
  "node_at fs p = map_of (fs_nodes fs) p"

definition dirname :: "string \<Rightarrow> string" where
  "dirname p = rev (drop 1 (dropWhile (\<lambda>c. c \<noteq> CHR ''/'') (rev p)))"

definition is_dir :: "file_system \<Rightarrow> string \<Rightarrow> bool" where
  "is_dir fs d \<longleftrightarrow> d = '''' \<or> node_at fs d = Some Directory"

definition is_file :: "file_system \<Rightarrow> string \<Rightarrow> bool" where
  "is_file fs p = (case node_at fs p of Some (Regular _) \<Rightarrow> True | _ \<Rightarrow> False)"

definition content :: "file_system \<Rightarrow> string \<Rightarrow> string option" where
  "content fs p = (case node_at fs p of Some (Regular n) \<Rightarrow> Some (fs_data fs n) | _ \<Rightarrow> None)"

subsection \<open>System calls\<close>

definition lowest_fd :: "(int \<times> open_file) list \<Rightarrow> int" where
  "lowest_fd fds = hd (filter (\<lambda>n. n \<notin> fst ` set fds) (map int [0..<Suc (length fds)]))"

definition create_file :: "string \<Rightarrow> file_system \<Rightarrow> file_system" where
  "create_file p fs =
     fs\<lparr>fs_nodes := AList.update p (Regular (fs_next fs)) (fs_nodes fs),
        fs_data := (fs_data fs)(fs_next fs := ''''), fs_next := Suc (fs_next fs)\<rparr>"

definition new_fd :: "nat \<Rightarrow> file_system \<Rightarrow> int \<times> file_system" where
  "new_fd ino fs =
     (let fd = lowest_fd (fs_fds fs)
      in (fd, fs\<lparr>fs_fds := (fd, \<lparr>of_inode = ino, of_pos = 0\<rparr>) # fs_fds fs\<rparr>))"

definition sys_open :: "string \<Rightarrow> file_system \<Rightarrow> int \<times> file_system" where
  "sys_open p fs =
     (if fs_denied fs p then (- 1, fs)
      else case node_at fs p of
        Some Directory \<Rightarrow> (- 1, fs)
      | Some (Regular n) \<Rightarrow> new_fd n fs
      | None \<Rightarrow>
          if is_dir fs (dirname p) then new_fd (fs_next fs) (create_file p fs) else (- 1, fs))"

definition sys_close :: "int \<Rightarrow> file_system \<Rightarrow> file_system" where
  "sys_close fd fs = fs\<lparr>fs_fds := filter (\<lambda>e. fst e \<noteq> fd) (fs_fds fs)\<rparr>"

definition set_pos :: "int \<Rightarrow> open_file \<Rightarrow> nat \<Rightarrow> file_system \<Rightarrow> file_system" where
  "set_pos fd f n fs = fs\<lparr>fs_fds := AList.update fd (f\<lparr>of_pos := n\<rparr>) (fs_fds fs)\<rparr>"

definition sys_lseek_set :: "int \<Rightarrow> int \<Rightarrow> file_system \<Rightarrow> int \<times> file_system" where
  "sys_lseek_set fd off fs =
     (case map_of (fs_fds fs) fd of
        None \<Rightarrow> (- 1, fs)
      | Some f \<Rightarrow> if off < 0 then (- 1, fs) else (off, set_pos fd f (nat off) fs))"

definition sys_lseek_end :: "int \<Rightarrow> file_system \<Rightarrow> int \<times> file_system" where
  "sys_lseek_end fd fs =
     (case map_of (fs_fds fs) fd of
        None \<Rightarrow> (- 1, fs)
      | Some f \<Rightarrow>
          let n = length (fs_data fs (of_inode f)) in (int n, set_pos fd f n fs))"

definition sys_read :: "int \<Rightarrow> nat \<Rightarrow> file_system \<Rightarrow> int \<times> string \<times> file_system" where
  "sys_read fd n fs =
     (case map_of (fs_fds fs) fd of
        None \<Rightarrow> (- 1, '''', fs)
      | Some f \<Rightarrow>
          let bytes = take n (drop (of_pos f) (fs_data fs (of_inode f)))
          in (int (length bytes), bytes, set_pos fd f (of_pos f + length bytes) fs))"

definition overwrite :: "string \<Rightarrow> nat \<Rightarrow> string \<Rightarrow> string" where
  "overwrite c pos bytes =
     take pos (c @ replicate (pos - length c) (CHR 0x00)) @ bytes @ drop (pos + length bytes) c"

text \<open>
  Bytes that replace existing ones need no space; the others take what is free, and a
  \<open>write\<close> that finds no space at all fails.
\<close>

definition sys_write :: "int \<Rightarrow> string \<Rightarrow> file_system \<Rightarrow> int \<times> file_system" where
  "sys_write fd bytes fs =
     (case map_of (fs_fds fs) fd of
        None \<Rightarrow> (- 1, fs)
      | Some f \<Rightarrow>
          let c = fs_data fs (of_inode f);
              old = length c - of_pos f;
              k = min (length bytes) (old + fs_room fs)
          in if k = 0 \<and> bytes \<noteq> '''' then (- 1, fs)
             else (int k,
               set_pos fd f (of_pos f + k)
                 (fs\<lparr>fs_data := (fs_data fs)(of_inode f := overwrite c (of_pos f) (take k bytes)),
                     fs_room := fs_room fs - (k - min k old)\<rparr>)))"

definition below :: "string \<Rightarrow> string \<Rightarrow> bool" where
  "below d p = prefix (d @ ''/'') p"

definition sys_rename :: "string \<Rightarrow> string \<Rightarrow> file_system \<Rightarrow> int \<times> file_system" where
  "sys_rename old new fs =
     (case node_at fs old of
        None \<Rightarrow> (- 1, fs)
      | Some (Regular n) \<Rightarrow>
          if node_at fs new = Some Directory \<or> \<not> is_dir fs (dirname new) then (- 1, fs)
          else if old = new then (0, fs)
          else (0, fs\<lparr>fs_nodes := AList.update new (Regular n) (AList.delete old (fs_nodes fs))\<rparr>)
      | Some Directory \<Rightarrow>
          if is_file fs new \<or> \<not> is_dir fs (dirname new) \<or> below old new
             \<or> list_ex (\<lambda>e. below new (fst e)) (fs_nodes fs) then (- 1, fs)
          else if old = new then (0, fs)
          else (0, fs\<lparr>fs_nodes :=
              map (\<lambda>(p, nd). (if p = old \<or> below old p then new @ drop (length old) p else p, nd))
                (AList.delete new (fs_nodes fs))\<rparr>))"

definition sys_unlink :: "string \<Rightarrow> file_system \<Rightarrow> int \<times> file_system" where
  "sys_unlink p fs =
     (if is_file fs p then (0, fs\<lparr>fs_nodes := AList.delete p (fs_nodes fs)\<rparr>) else (- 1, fs))"

definition sys_link :: "string \<Rightarrow> string \<Rightarrow> file_system \<Rightarrow> int \<times> file_system" where
  "sys_link old new fs =
     (case node_at fs old of
        Some (Regular n) \<Rightarrow>
          if node_at fs new \<noteq> None \<or> \<not> is_dir fs (dirname new) then (- 1, fs)
          else (0, fs\<lparr>fs_nodes := AList.update new (Regular n) (fs_nodes fs)\<rparr>)
      | _ \<Rightarrow> (- 1, fs))"

subsection \<open>File streams\<close>

text \<open>
  \<open>std::ifstream ifs(p)\<close> read to its end (a directory opens and reads as empty), and
  \<open>std::ofstream ofs(p)\<close>, which truncates or creates the file, followed by
  \<open>ofs << text\<close>, which writes what fits and reports nothing.
\<close>

definition ifstream_read :: "string \<Rightarrow> file_system \<Rightarrow> string option" where
  "ifstream_read p fs =
     (if fs_denied fs p then None
      else case node_at fs p of
        None \<Rightarrow> None
      | Some Directory \<Rightarrow> Some ''''
      | Some (Regular n) \<Rightarrow> Some (fs_data fs n))"

definition ofstream_open :: "string \<Rightarrow> file_system \<Rightarrow> file_system option" where
  "ofstream_open p fs =
     (if fs_denied fs p then None
      else case node_at fs p of
        Some Directory \<Rightarrow> None
      | Some (Regular n) \<Rightarrow>
          Some (fs\<lparr>fs_data := (fs_data fs)(n := ''''), fs_room := fs_room fs + length (fs_data fs n)\<rparr>)
      | None \<Rightarrow> if is_dir fs (dirname p) then Some (create_file p fs) else None)"

definition ofstream_put :: "string \<Rightarrow> string \<Rightarrow> file_system \<Rightarrow> file_system" where
  "ofstream_put p text fs =
     (case node_at fs p of
        Some (Regular n) \<Rightarrow>
          let t = take (fs_room fs) text
          in fs\<lparr>fs_data := (fs_data fs)(n := fs_data fs n @ t), fs_room := fs_room fs - length t\<rparr>
      | _ \<Rightarrow> fs)"

subsection \<open>The butil file functions\<close>

record butil =
  PathExists :: "string \<Rightarrow> file_system \<Rightarrow> bool"
  DirectoryExists :: "string \<Rightarrow> file_system \<Rightarrow> bool"
  CreateDirectory :: "string \<Rightarrow> file_system \<Rightarrow> bool \<times> file_system"
  CopyFile :: "string \<Rightarrow> string \<Rightarrow> file_system \<Rightarrow> bool \<times> file_system"
  DeleteFile :: "string \<Rightarrow> bool \<Rightarrow> file_system \<Rightarrow> bool \<times> file_system"

text \<open>
  What the documentation of the butil functions promises and the program relies on:
  existence tests, copying a file (the target is created or replaced when its directory
  exists and there is space; nothing else changes), and removing a file.
\<close>

definition frame_except :: "string \<Rightarrow> file_system \<Rightarrow> file_system \<Rightarrow> bool" where
  "frame_except p fs fs' \<longleftrightarrow>
     (\<forall>q. q \<noteq> p \<longrightarrow> node_at fs' q = node_at fs q) \<and>
     (\<forall>n < fs_next fs. node_at fs p \<noteq> Some (Regular n) \<longrightarrow> fs_data fs' n = fs_data fs n) \<and>
     fs_next fs \<le> fs_next fs' \<and> fs_fds fs' = fs_fds fs \<and> fs_denied fs' = fs_denied fs"

definition copy_spec :: "(string \<Rightarrow> string \<Rightarrow> file_system \<Rightarrow> bool \<times> file_system) \<Rightarrow> bool" where
  "copy_spec copy \<longleftrightarrow>
     (\<forall>a b fs c. content fs a = Some c \<and> a \<noteq> b \<and> node_at fs b \<noteq> Some Directory \<and>
        is_dir fs (dirname b) \<and> \<not> fs_denied fs b \<and> length c \<le> fs_room fs \<longrightarrow>
        fst (copy a b fs) \<and> content (snd (copy a b fs)) b = Some c \<and>
        frame_except b fs (snd (copy a b fs)) \<and>
        (\<forall>n. node_at fs b = None \<and> node_at (snd (copy a b fs)) b = Some (Regular n) \<longrightarrow>
           n = fs_next fs \<and> n < fs_next (snd (copy a b fs))) \<and>
        (\<forall>n. node_at fs b = Some (Regular n) \<longrightarrow> node_at (snd (copy a b fs)) b = Some (Regular n)) \<and>
        fs_room fs \<le> fs_room (snd (copy a b fs)) + length c)"

definition delete_spec :: "(string \<Rightarrow> bool \<Rightarrow> file_system \<Rightarrow> bool \<times> file_system) \<Rightarrow> bool" where
  "delete_spec del \<longleftrightarrow>
     (\<forall>p r fs. (node_at fs p = None \<longrightarrow> del p r fs = (True, fs)) \<and>
        (is_file fs p \<longrightarrow> del p r fs = (True, fs\<lparr>fs_nodes := AList.delete p (fs_nodes fs)\<rparr>)))"

definition butil_spec :: "butil \<Rightarrow> bool" where
  "butil_spec bu \<longleftrightarrow>
     (\<forall>p fs. PathExists bu p fs \<longleftrightarrow> node_at fs p \<noteq> None) \<and>
     (\<forall>p fs. DirectoryExists bu p fs \<longleftrightarrow> node_at fs p = Some Directory) \<and>
     copy_spec (CopyFile bu) \<and> delete_spec (DeleteFile bu)"

subsection \<open>Backup of a file (\<open>utils/file_tool.cc\<close>)\<close>

fun backup_loop :: "butil \<Rightarrow> string \<Rightarrow> nat list \<Rightarrow> file_system \<Rightarrow> msg \<times> file_system" where
  "backup_loop bu filename [] fs = ('''', fs)"
| "backup_loop bu filename (i # is) fs =
     (let new_path_file = filename @ to_string (int i)
      in if PathExists bu new_path_file fs \<and> \<not> DirectoryExists bu new_path_file fs
         then backup_loop bu filename is fs
         else
           let (rc, fs1) = sys_rename filename new_path_file fs
           in if rc \<noteq> 0
              then (filename @ '' file rename to '' @ new_path_file @ '' file failed'', fs1)
              else backup_loop bu filename is fs1)"

definition BackupFile :: "butil \<Rightarrow> string \<Rightarrow> file_system \<Rightarrow> msg \<times> file_system" where
  "BackupFile bu filename fs =
     (if PathExists bu filename fs then backup_loop bu filename [0..<100] fs else ('''', fs))"

subsection \<open>Facts on the file system\<close>

lemma lowest_fd_fresh: "lowest_fd fds \<notin> fst ` set fds" and lowest_fd_nonneg: "0 \<le> lowest_fd fds"
proof -
  have "\<not> set (map int [0..<Suc (length fds)]) \<subseteq> fst ` set fds"
  proof
    assume "set (map int [0..<Suc (length fds)]) \<subseteq> fst ` set fds"
    then have "card (set (map int [0..<Suc (length fds)])) \<le> card (fst ` set fds)"
      by (intro card_mono) simp_all
    also have "\<dots> \<le> length fds" using card_length [of "map fst fds"] by simp
    finally show False using distinct_card [of "map int [0..<Suc (length fds)]"]
      by (simp add: distinct_map del: upt_Suc)
  qed
  then have "filter (\<lambda>n. n \<notin> fst ` set fds) (map int [0..<Suc (length fds)]) \<noteq> []"
    by (auto simp: filter_empty_conv)
  from hd_in_set [OF this] have "lowest_fd fds \<in> set (map int [0..<Suc (length fds)]) - fst ` set fds"
    unfolding lowest_fd_def by (simp only: set_filter mem_Collect_eq Diff_iff simp_thms)
  then show "lowest_fd fds \<notin> fst ` set fds" "0 \<le> lowest_fd fds" by auto
qed

lemma lowest_fd_map_of [simp]: "map_of fds (lowest_fd fds) = None"
  using lowest_fd_fresh [of fds] by (simp add: map_of_eq_None_iff)

lemma set_pos_simps [simp]:
  "fs_data (set_pos fd f n fs) = fs_data fs" "fs_nodes (set_pos fd f n fs) = fs_nodes fs"
  "fs_room (set_pos fd f n fs) = fs_room fs" "fs_next (set_pos fd f n fs) = fs_next fs"
  "fs_denied (set_pos fd f n fs) = fs_denied fs"
  "map_of (fs_fds (set_pos fd f n fs)) = (map_of (fs_fds fs))(fd \<mapsto> f\<lparr>of_pos := n\<rparr>)"
  by (simp_all add: set_pos_def update_conv')

lemma length_overwrite_end [simp]: "length (overwrite c (length c) b) = length c + length b"
  by (simp add: overwrite_def)

lemma overwrite_end [simp]: "overwrite c (length c) b = c @ b"
  by (simp add: overwrite_def)

lemma node_at_upd [simp]:
  "node_at (fs\<lparr>fs_nodes := AList.update p nd ns\<rparr>) q = (if q = p then Some nd else map_of ns q)"
  "node_at (fs\<lparr>fs_nodes := AList.delete p ns\<rparr>) q = (if q = p then None else map_of ns q)"
  by (simp_all add: node_at_def update_conv' delete_conv')

lemma butil_exists:
  assumes "butil_spec bu"
  shows "PathExists bu p fs \<longleftrightarrow> node_at fs p \<noteq> None"
    and "DirectoryExists bu p fs \<longleftrightarrow> node_at fs p = Some Directory"
  using assms by (simp_all add: butil_spec_def)


subsection \<open>What the backup does\<close>

definition backup_error :: "string \<Rightarrow> nat \<Rightarrow> msg" where
  "backup_error filename i =
     filename @ '' file rename to '' @ (filename @ to_string (int i)) @ '' file failed''"

definition backup_free :: "file_system \<Rightarrow> string \<Rightarrow> nat list \<Rightarrow> nat list" where
  "backup_free fs filename is = filter (\<lambda>i. \<not> is_file fs (filename @ to_string (int i))) is"

definition backup_move :: "string \<Rightarrow> nat \<Rightarrow> nat \<Rightarrow> file_system \<Rightarrow> file_system" where
  "backup_move filename i n fs =
     fs\<lparr>fs_nodes := AList.update (filename @ to_string (int i)) (Regular n)
          (AList.delete filename (fs_nodes fs))\<rparr>"

lemma is_file_exists:
  "butil_spec bu \<Longrightarrow> (PathExists bu p fs \<and> \<not> DirectoryExists bu p fs) \<longleftrightarrow> is_file fs p"
  by (auto simp: butil_exists is_file_def split: option.splits node.splits)

lemma nat_to_string_no_slash: "CHR ''/'' \<notin> set (nat_to_string n)"
  using nat_to_string_all_digits [of n] by (auto simp: isdigit_def)

lemma dirname_digits: "dirname (p @ to_string (int i)) = dirname p"
proof -
  have "c \<noteq> CHR ''/''" if "c \<in> set (rev (nat_to_string i))" for c
    using that nat_to_string_no_slash [of i] by auto
  then show ?thesis by (simp add: dirname_def to_string_def dropWhile_append2 del: set_rev)
qed

lemma sys_rename_missing: "node_at fs old = None \<Longrightarrow> sys_rename old new fs = (- 1, fs)"
  by (simp add: sys_rename_def)

lemma sys_rename_backup:
  assumes "node_at fs f = Some (Regular n)" and "is_dir fs (dirname f)"
  shows "sys_rename f (f @ to_string (int i)) fs =
    (if node_at fs (f @ to_string (int i)) = Some Directory then (- 1, fs) else (0, backup_move f i n fs))"
  using assms by (simp add: sys_rename_def dirname_digits backup_move_def)

lemma backup_free_simps [simp]:
  "backup_free fs f [] = []"
  "backup_free fs f (i # is) =
     (if is_file fs (f @ to_string (int i)) then backup_free fs f is else i # backup_free fs f is)"
  by (simp_all add: backup_free_def)

lemma backup_loop_missing:
  assumes "butil_spec bu" and "node_at fs f = None"
  shows "backup_loop bu f is fs =
    (case backup_free fs f is of [] \<Rightarrow> '''' | i # _ \<Rightarrow> backup_error f i, fs)"
  using assms(2)
  by (induction "is")
    (simp_all add: is_file_exists [OF assms(1)] sys_rename_missing backup_error_def)


lemma backup_move_frame:
  "node_at (backup_move f i n fs) q =
     (if q = f @ to_string (int i) then Some (Regular n) else if q = f then None else node_at fs q)"
  by (simp add: backup_move_def node_at_def update_conv' delete_conv')

lemma backup_name_inject:
  "i < 100 \<Longrightarrow> j < 100 \<Longrightarrow> f @ to_string (int i) = f @ to_string (int j) \<longleftrightarrow> i = j"
  by (simp add: to_string_inject is_int64_def)

lemma backup_free_move:
  assumes "\<forall>j \<in> set is. j < 100 \<and> j \<noteq> i" and "i < 100"
  shows "backup_free (backup_move f i n fs) f is = backup_free fs f is"
  unfolding backup_free_def
proof (rule filter_cong [OF refl])
  fix j assume "j \<in> set is"
  with assms have "f @ to_string (int j) \<noteq> f @ to_string (int i)"
    using backup_name_inject [of j i f] by blast
  then show "(\<not> is_file (backup_move f i n fs) (f @ to_string (int j))) = (\<not> is_file fs (f @ to_string (int j)))"
    by (simp add: is_file_def backup_move_frame)
qed

lemma backup_loop_regular:
  assumes "butil_spec bu" and "node_at fs f = Some (Regular n)" and "is_dir fs (dirname f)"
    and "distinct is" and "\<forall>i \<in> set is. i < 100"
  shows "backup_loop bu f is fs =
    (case backup_free fs f is of
       [] \<Rightarrow> ('''', fs)
     | i # rest \<Rightarrow>
         if node_at fs (f @ to_string (int i)) = Some Directory then (backup_error f i, fs)
         else (case rest of [] \<Rightarrow> '''' | j # _ \<Rightarrow> backup_error f j, backup_move f i n fs))"
  using assms(4,5)
proof (induction "is")
  case Nil
  then show ?case by simp
next
  case (Cons i "is")
  show ?case
  proof (cases "is_file fs (f @ to_string (int i))")
    case True
    with Cons show ?thesis by (simp add: is_file_exists [OF assms(1)])
  next
    case False
    have "node_at (backup_move f i n fs) f = None" by (simp add: backup_move_frame)
    moreover have "backup_free (backup_move f i n fs) f is = backup_free fs f is"
      using Cons.prems by (intro backup_free_move) auto
    ultimately have "backup_loop bu f is (backup_move f i n fs) =
        (case backup_free fs f is of [] \<Rightarrow> '''' | j # _ \<Rightarrow> backup_error f j, backup_move f i n fs)"
      by (simp add: backup_loop_missing [OF assms(1)])
    with False show ?thesis
      by (simp add: is_file_exists [OF assms(1)] sys_rename_backup [OF assms(2,3)] backup_error_def)
  qed
qed

text \<open>Backing up a file renames it to the first of the numbered names that is not a file;
  but the loop does not stop there: when another number is free it tries again, the file is
  gone, and the call reports an error although the backup was made. With every number taken
  the file stays where it is and the call reports success.\<close>

lemma BackupFile_regular:
  assumes "butil_spec bu" and "node_at fs f = Some (Regular n)" and "is_dir fs (dirname f)"
  shows "BackupFile bu f fs =
    (case backup_free fs f [0..<100] of
       [] \<Rightarrow> ('''', fs)
     | i # rest \<Rightarrow>
         if node_at fs (f @ to_string (int i)) = Some Directory then (backup_error f i, fs)
         else (case rest of [] \<Rightarrow> '''' | j # _ \<Rightarrow> backup_error f j, backup_move f i n fs))"
proof -
  have "\<forall>i \<in> set [0..<100]. i < (100 :: nat)" unfolding set_upt by (intro ballI) (erule atLeastLessThan_iff [THEN iffD1, THEN conjunct2])
  from backup_loop_regular [OF assms distinct_upt this] show ?thesis
    by (simp only: BackupFile_def butil_exists [OF assms(1)] assms(2) option.distinct not_False_eq_True if_True)
qed

subsection \<open>A concrete butil\<close>

definition demo_copy :: "string \<Rightarrow> string \<Rightarrow> file_system \<Rightarrow> bool \<times> file_system" where
  "demo_copy a b fs =
     (case content fs a of
        None \<Rightarrow> (False, fs)
      | Some c \<Rightarrow>
          (case ofstream_open b fs of
             None \<Rightarrow> (False, fs)
           | Some fs1 \<Rightarrow> (True, ofstream_put b c fs1)))"

definition demo_delete :: "string \<Rightarrow> bool \<Rightarrow> file_system \<Rightarrow> bool \<times> file_system" where
  "demo_delete p r fs =
     (if node_at fs p = None then (True, fs)
      else (True, fs\<lparr>fs_nodes := AList.delete p (fs_nodes fs)\<rparr>))"

definition demo_butil :: butil where
  "demo_butil =
     \<lparr>PathExists = (\<lambda>p fs. node_at fs p \<noteq> None),
      DirectoryExists = (\<lambda>p fs. node_at fs p = Some Directory),
      CreateDirectory = (\<lambda>p fs. (True, fs\<lparr>fs_nodes := AList.update p Directory (fs_nodes fs)\<rparr>)),
      CopyFile = demo_copy, DeleteFile = demo_delete\<rparr>"

lemma demo_copy_spec: "copy_spec demo_copy"
  unfolding copy_spec_def
proof (intro allI impI, elim conjE)
  fix a b fs c
  assume a: "content fs a = Some c" "a \<noteq> b" "node_at fs b \<noteq> Some Directory" "is_dir fs (dirname b)"
    "\<not> fs_denied fs b" "length c \<le> fs_room fs"
  show "fst (demo_copy a b fs) \<and> content (snd (demo_copy a b fs)) b = Some c \<and>
        frame_except b fs (snd (demo_copy a b fs)) \<and>
        (\<forall>n. node_at fs b = None \<and> node_at (snd (demo_copy a b fs)) b = Some (Regular n) \<longrightarrow>
           n = fs_next fs \<and> n < fs_next (snd (demo_copy a b fs))) \<and>
        (\<forall>n. node_at fs b = Some (Regular n) \<longrightarrow> node_at (snd (demo_copy a b fs)) b = Some (Regular n)) \<and>
        fs_room fs \<le> fs_room (snd (demo_copy a b fs)) + length c"
  proof (cases "node_at fs b")
    case None
    with a show ?thesis
      by (simp add: demo_copy_def ofstream_open_def ofstream_put_def create_file_def content_def
          frame_except_def Let_def node_at_def update_conv')
  next
    case (Some nd)
    with a(3) obtain n where "node_at fs b = Some (Regular n)" by (cases nd) auto
    with a show ?thesis
      by (simp add: demo_copy_def ofstream_open_def ofstream_put_def content_def
          frame_except_def Let_def node_at_def)
  qed
qed

lemma demo_butil_spec: "butil_spec demo_butil"
  using demo_copy_spec
  by (auto simp: butil_spec_def demo_butil_def delete_spec_def demo_delete_def is_file_def)

definition demo_fs :: file_system where
  "demo_fs =
     \<lparr>fs_nodes = [(''d'', Directory), (''d/x'', Regular 0), (''s'', Directory)],
      fs_data = (\<lambda>_. ''''), fs_next = 1, fs_fds = [(0, \<lparr>of_inode = 0, of_pos = 0\<rparr>)],
      fs_room = 1000, fs_denied = (\<lambda>_. False)\<rparr>"

lemma BackupFile_regular_witness:
  "BackupFile demo_butil ''d/x'' demo_fs = (backup_error ''d/x'' 1, backup_move ''d/x'' 0 0 demo_fs)"
proof -
  have at: "node_at demo_fs ''d/x'' = Some (Regular 0)" "is_dir demo_fs (dirname ''d/x'')"
    by (simp_all add: demo_fs_def node_at_def is_dir_def dirname_def)
  have "[0..<100] = 0 # 1 # [2..<(100 :: nat)]" by (simp add: upt_conv_Cons)
  then show ?thesis
    using BackupFile_regular [OF demo_butil_spec at]
    by (simp add: is_file_def demo_fs_def node_at_def to_string_def nat_to_string.simps digit_char_def
        del: upt_rec_numeral)
qed

subsection \<open>What the backup leaves alone\<close>

definition backup_name :: "string \<Rightarrow> string \<Rightarrow> bool" where
  "backup_name f q \<longleftrightarrow> (\<exists>i. q = f @ to_string (int i))"

lemma backup_loop_frame:
  assumes "is_file fs f \<or> node_at fs f = None" and "\<not> backup_name f q" and "q \<noteq> f"
  shows "node_at (snd (backup_loop bu f is fs)) q = node_at fs q \<and>
    fs_data (snd (backup_loop bu f is fs)) = fs_data fs \<and>
    fs_fds (snd (backup_loop bu f is fs)) = fs_fds fs \<and>
    fs_next (snd (backup_loop bu f is fs)) = fs_next fs \<and>
    fs_room (snd (backup_loop bu f is fs)) = fs_room fs \<and>
    fs_denied (snd (backup_loop bu f is fs)) = fs_denied fs \<and>
    (node_at (snd (backup_loop bu f is fs)) f = None \<or> node_at (snd (backup_loop bu f is fs)) f = node_at fs f)"
  using assms(1)
proof (induction "is" arbitrary: fs)
  case Nil
  then show ?case by simp
next
  case (Cons i "is")
  let ?q = "f @ to_string (int i)"
  have q: "q \<noteq> ?q" using assms(2) by (auto simp: backup_name_def)
  consider "node_at fs f = None" | n where "node_at fs f = Some (Regular n)"
    using Cons.prems by (auto simp: is_file_def split: option.splits node.splits)
  then show ?case
  proof cases
    case 1
    with Cons.IH [of fs] show ?thesis by (simp add: sys_rename_missing Let_def)
  next
    case 2
    let ?m = "backup_move f i n fs"
    have m: "node_at ?m f = None" "node_at ?m q = node_at fs q" "fs_data ?m = fs_data fs"
      "fs_fds ?m = fs_fds fs" "fs_next ?m = fs_next fs" "fs_room ?m = fs_room fs" "fs_denied ?m = fs_denied fs"
      using q assms(3) by (simp_all add: backup_move_frame) (simp_all add: backup_move_def)
    have "sys_rename f ?q fs \<in> {(- 1, fs), (0, ?m)}"
      using 2 by (simp add: sys_rename_def backup_move_def)
    moreover note Cons.IH [of fs, OF Cons.prems] Cons.IH [of ?m, simplified m]
    ultimately show ?thesis by (auto simp: Let_def)
  qed
qed

lemma BackupFile_frame:
  assumes "is_file fs f \<or> node_at fs f = None"
    and "BackupFile bu f fs = (m, fs')"
  shows "\<And>q. \<not> backup_name f q \<Longrightarrow> q \<noteq> f \<Longrightarrow> node_at fs' q = node_at fs q"
    and "fs_data fs' = fs_data fs" and "fs_fds fs' = fs_fds fs" and "fs_next fs' = fs_next fs"
    and "fs_room fs' = fs_room fs" and "fs_denied fs' = fs_denied fs"
    and "node_at fs' f = None \<or> node_at fs' f = node_at fs f"
proof -
  define l where "l = [0..<100 :: nat]"
  have run: "fs' = (if PathExists bu f fs then snd (backup_loop bu f l fs) else fs)"
    using assms(2) unfolding BackupFile_def l_def [symmetric] by (auto split: if_splits)
  note fr = backup_loop_frame [OF assms(1), of _ bu l]
  show "node_at fs' q = node_at fs q" if "\<not> backup_name f q" "q \<noteq> f" for q
    using fr [OF that] run by simp
  have no_x: "''x'' \<noteq> to_string (int i)" for i
  proof
    assume "''x'' = to_string (int i)"
    then have "\<forall>c \<in> set ''x''. isdigit c"
      using nat_to_string_all_digits [of i] by (simp add: to_string_def)
    then show False by (simp add: isdigit_def)
  qed
  have "\<not> backup_name f (f @ ''x'')" "f @ ''x'' \<noteq> f"
    using no_x by (auto simp: backup_name_def)
  from fr [OF this] run
  show "fs_data fs' = fs_data fs" "fs_fds fs' = fs_fds fs" "fs_next fs' = fs_next fs"
    "fs_room fs' = fs_room fs" "fs_denied fs' = fs_denied fs"
    "node_at fs' f = None \<or> node_at fs' f = node_at fs f" by simp_all
qed

end
