(* ===== verification/Engine.thy ===== *)
theory Engine
  imports Bytes Files
begin

text \<open>
  The file-backed store of \<open>engine/engine.h\<close> and \<open>engine/engine.cc\<close>, which the raft
  snapshots use. A data file holds the documents one after the other; a metadata file holds
  one record of 14 bytes per document (key, offset and length); an ordered map holds the last
  record of each key. Every operation passes the engine and the file system.

  The invariant \<open>engine_ok\<close> relates the map, the counters and the two files through the
  list of records written so far; \<open>docs\<close> is what the store holds. The contract of the record
  encoding is an interpretation of \<open>codec\<close>.
\<close>

record engine =
  en_path :: string
  en_data_fd :: int
  en_mata_fd :: int
  en_data_size :: int
  en_mata_offset :: int
  en_raw_data_offset :: int
  en_key_to_offset :: "(int, int \<times> int) std_map"

definition mata_filename :: string where "mata_filename = ''/engine_mata.dat''"

definition data_filename :: string where "data_filename = ''/engine_data.txt''"

definition one_doc_mata_size :: nat where "one_doc_mata_size = 14"

definition new_engine :: engine where
  "new_engine =
     \<lparr>en_path = '''', en_data_fd = - 1, en_mata_fd = - 1, en_data_size = 0, en_mata_offset = 0,
      en_raw_data_offset = 0, en_key_to_offset = []\<rparr>"

definition data_path :: "engine \<Rightarrow> string" where
  "data_path en = en_path en @ data_filename"

definition mata_path :: "engine \<Rightarrow> string" where
  "mata_path en = en_path en @ mata_filename"

definition Engine_Init :: "string \<Rightarrow> engine \<Rightarrow> bool \<times> engine" where
  "Engine_Init path en = (True, en\<lparr>en_path := path\<rparr>)"

definition Engine_destroy :: "engine \<Rightarrow> file_system \<Rightarrow> file_system" where
  "Engine_destroy en fs =
     (let fs1 = (if en_data_fd en > 0 then sys_close (en_data_fd en) fs else fs)
      in if en_mata_fd en > 0 then sys_close (en_mata_fd en) fs1 else fs1)"

subsection \<open>Loading\<close>

text \<open>The loop over the metadata file, from record \<open>i\<close>, with \<open>n\<close> records left.\<close>

primrec load_index :: "nat \<Rightarrow> int \<Rightarrow> engine \<Rightarrow> file_system \<Rightarrow> (msg \<times> engine \<times> file_system) ub" where
  "load_index 0 i en fs = Some ('''', en, fs)"
| "load_index (Suc n) i en fs = do {
     pos \<leftarrow> chk32 (i * int one_doc_mata_size);
     let fs1 = snd (sys_lseek_set (en_mata_fd en) pos fs);
     let (rc, buf, fs2) = sys_read (en_mata_fd en) one_doc_mata_size fs1;
     if rc \<noteq> int one_doc_mata_size then Some (''read mata file failed.'', en, fs2)
     else do {
       key \<leftarrow> load_i32 buf;
       off \<leftarrow> load_i64 (drop 4 buf);
       len \<leftarrow> load_i16 (drop 12 buf);
       load_index n (i + 1)
         (en\<lparr>en_key_to_offset := std_map_set key (off, len) (en_key_to_offset en)\<rparr>) fs2
     }
   }"

definition restore_snapshot :: "butil \<Rightarrow> string \<Rightarrow> engine \<Rightarrow> file_system \<Rightarrow> file_system" where
  "restore_snapshot bu snapshot_path en fs =
     (let ss_data_path = snapshot_path @ data_filename;
          ss_mata_path = snapshot_path @ mata_filename
      in if PathExists bu ss_mata_path fs \<and> PathExists bu ss_data_path fs then
           let fs1 = snd (BackupFile bu (data_path en) fs);
               fs2 = snd (BackupFile bu (mata_path en) fs1);
               fs3 = snd (CopyFile bu ss_data_path (data_path en) fs2)
           in snd (CopyFile bu ss_mata_path (mata_path en) fs3)
         else fs)"

definition Engine_CreatOrLoad ::
  "butil \<Rightarrow> string \<Rightarrow> engine \<Rightarrow> file_system \<Rightarrow> (msg \<times> engine \<times> file_system) ub" where
  "Engine_CreatOrLoad bu snapshot_path en fs =
     (let fs1 = (if snapshot_path \<noteq> '''' then restore_snapshot bu snapshot_path en fs else fs);
          (dfd, fs2) = sys_open (data_path en) fs1;
          en1 = en\<lparr>en_data_fd := dfd\<rparr>
      in if dfd \<le> 0 then Some (''open '' @ [CHR 0x27] @ data_path en @ [CHR 0x27] @ '' file failed'', en1, fs2)
         else
           let (mfd, fs3) = sys_open (mata_path en) fs2;
               en2 = en1\<lparr>en_mata_fd := mfd\<rparr>
           in if mfd \<le> 0 then Some (''open '' @ [CHR 0x27] @ mata_path en @ [CHR 0x27] @ '' file failed'', en2, fs3)
              else
                let (raw, fs4) = sys_lseek_end dfd fs3;
                    (mata, fs5) = sys_lseek_end mfd fs4;
                    en3 = en2\<lparr>en_raw_data_offset := raw, en_mata_offset := mata,
                      en_data_size := int32_of (mata div int one_doc_mata_size)\<rparr>
                in load_index (nat (en_data_size en3)) 0 en3 fs5)"

subsection \<open>Adding and reading\<close>

definition record_bytes :: "int \<Rightarrow> int \<Rightarrow> int \<Rightarrow> string" where
  "record_bytes key off len = store_i32 key @ store_i64 off @ store_i16 len"

fun batch_add :: "(int \<times> int) list \<Rightarrow> string \<Rightarrow> int \<Rightarrow> engine \<Rightarrow> file_system
    \<Rightarrow> (msg \<times> engine \<times> file_system) ub" where
  "batch_add [] data all_len en fs = Some ('''', en, fs)"
| "batch_add ((key, data_len) # kvs) data all_len en fs =
     (if data_len < 0 \<or> int (length (c_str data)) < all_len + data_len then None
      else
        let fs1 = snd (sys_lseek_set (en_data_fd en) (en_raw_data_offset en) fs);
            (rc, fs2) = sys_write (en_data_fd en) (take (nat data_len) (drop (nat all_len) (c_str data))) fs1
        in if rc \<noteq> data_len then
             Some (''Engine::write raw data failed, offset:'' @ to_string (en_raw_data_offset en) @
                   '', length:'' @ to_string data_len, en, fs2)
           else
             let fs3 = snd (sys_lseek_set (en_mata_fd en) (en_mata_offset en) fs2);
                 (rc, fs4) = sys_write (en_mata_fd en) (record_bytes key (en_raw_data_offset en) data_len) fs3
             in if rc \<noteq> int one_doc_mata_size then
                  Some (''Engine::write mata data failed, offset:'' @ to_string (en_mata_offset en) @
                        '', length:'' @ to_string (int one_doc_mata_size), en, fs4)
                else do {
                  raw \<leftarrow> chk64 (en_raw_data_offset en + data_len);
                  mata \<leftarrow> chk64 (en_mata_offset en + int one_doc_mata_size);
                  n \<leftarrow> chk32 (en_data_size en + 1);
                  batch_add kvs data (all_len + data_len)
                    (en\<lparr>en_key_to_offset :=
                          std_map_set key (en_raw_data_offset en, data_len) (en_key_to_offset en),
                        en_raw_data_offset := raw, en_mata_offset := mata, en_data_size := n\<rparr>) fs4
                })"

definition Engine_BatchAdd :: "(int \<times> int) list \<Rightarrow> string \<Rightarrow> engine \<Rightarrow> file_system
    \<Rightarrow> (msg \<times> engine \<times> file_system) ub" where
  "Engine_BatchAdd kv_list data en fs = batch_add kv_list data 0 en fs"

text \<open>\<open>std::string::resize\<close> with a negative length throws, which nothing catches.\<close>

definition resize_string :: "string \<Rightarrow> int \<Rightarrow> string ub" where
  "resize_string s n =
     (if n < 0 then None else Some (take (nat n) s @ replicate (nat n - length s) (CHR 0x00)))"

definition Engine_Get :: "engine \<Rightarrow> int \<Rightarrow> file_system \<Rightarrow> (string \<times> file_system) ub" where
  "Engine_Get en key fs =
     (case map_of (en_key_to_offset en) key of
        None \<Rightarrow> Some ('''', fs)
      | Some (off, sz) \<Rightarrow> do {
          res \<leftarrow> resize_string '''' sz;
          let fs1 = snd (sys_lseek_set (en_data_fd en) off fs);
          let (rc, bytes, fs2) = sys_read (en_data_fd en) (nat sz) fs1;
          Some (overwrite res 0 bytes, fs2)
        })"

fun mget_lengths :: "engine \<Rightarrow> int list \<Rightarrow> int list \<Rightarrow> int list" where
  "mget_lengths en (key # keys) (l # ls) =
     (case map_of (en_key_to_offset en) key of None \<Rightarrow> l | Some (off, sz) \<Rightarrow> sz) # mget_lengths en keys ls"
| "mget_lengths en keys ls = ls"

definition mget_total :: "engine \<Rightarrow> int list \<Rightarrow> int" where
  "mget_total en keys =
     (\<Sum>key \<leftarrow> keys. case map_of (en_key_to_offset en) key of None \<Rightarrow> 0 | Some (off, sz) \<Rightarrow> sz)"

text \<open>
  The second loop: \<open>off\<close> inside it is the offset in the data file (the declaration hides
  the running offset), and it is where the bytes go in the result buffer.
\<close>

fun mget_read :: "engine \<Rightarrow> int list \<Rightarrow> string \<Rightarrow> file_system \<Rightarrow> (bool \<times> string \<times> file_system) ub" where
  "mget_read en [] res_buf fs = Some (True, res_buf, fs)"
| "mget_read en (key # keys) res_buf fs =
     (case map_of (en_key_to_offset en) key of
        None \<Rightarrow> mget_read en keys res_buf fs
      | Some (off, sz) \<Rightarrow>
          if off < 0 \<or> int (length res_buf) < off then None
          else
            let fs1 = snd (sys_lseek_set (en_data_fd en) off fs);
                (rc, bytes, fs2) = sys_read (en_data_fd en) (nat sz) fs1
            in if length res_buf < nat off + length bytes then None
               else if rc \<noteq> sz then Some (False, overwrite res_buf (nat off) bytes, fs2)
               else mget_read en keys (overwrite res_buf (nat off) bytes) fs2)"

definition Engine_Mget :: "engine \<Rightarrow> int list \<Rightarrow> int list \<Rightarrow> string \<Rightarrow> file_system
    \<Rightarrow> (bool \<times> int list \<times> string \<times> file_system) ub" where
  "Engine_Mget en keys doc_lengths res_buf fs = do {
     let lengths0 = take (length keys) doc_lengths @ replicate (length keys - length doc_lengths) 0;
     let lengths = mget_lengths en keys lengths0;
     buf \<leftarrow> resize_string res_buf (mget_total en keys);
     (ok, buf1, fs1) \<leftarrow> mget_read en keys buf fs;
     Some (ok, lengths, buf1, fs1)
   }"

subsection \<open>Snapshot and removal\<close>

definition Engine_Snapshot :: "butil \<Rightarrow> string \<Rightarrow> string list \<Rightarrow> engine \<Rightarrow> file_system
    \<Rightarrow> msg \<times> string list \<times> file_system" where
  "Engine_Snapshot bu raft_root filenames en fs =
     (let fs1 = snd (CopyFile bu (data_path en) (raft_root @ data_filename) fs);
          fs2 = snd (CopyFile bu (mata_path en) (raft_root @ mata_filename) fs1)
      in ('''', filenames @ [data_filename, mata_filename], fs2))"

definition Engine_Delete :: "butil \<Rightarrow> engine \<Rightarrow> file_system \<Rightarrow> msg \<times> engine \<times> file_system" where
  "Engine_Delete bu en fs =
     (let fs1 = (if en_data_fd en \<ge> 0 then sys_close (en_data_fd en) fs else fs);
          fs2 = (if en_mata_fd en \<ge> 0 then sys_close (en_mata_fd en) fs1 else fs1);
          en1 = en\<lparr>en_key_to_offset := [], en_data_size := 0, en_mata_offset := 0, en_raw_data_offset := 0\<rparr>;
          fs3 = snd (DeleteFile bu (mata_path en) False fs2);
          fs4 = snd (DeleteFile bu (data_path en) False fs3)
      in ('''', en1, fs4))"

subsection \<open>Records\<close>

type_synonym mata_record = "int \<times> int \<times> int"

definition mata_enc :: "mata_record \<Rightarrow> string" where
  "mata_enc r = record_bytes (fst r) (fst (snd r)) (snd (snd r))"

definition mata_dec :: "string \<Rightarrow> mata_record ub" where
  "mata_dec buf = do {
     key \<leftarrow> load_i32 buf;
     off \<leftarrow> load_i64 (drop 4 buf);
     len \<leftarrow> load_i16 (drop 12 buf);
     Some (key, off, len)
   }"

definition mata_valid :: "mata_record \<Rightarrow> bool" where
  "mata_valid r \<longleftrightarrow> is_int32 (fst r) \<and> is_int64 (fst (snd r)) \<and> is_int16 (snd (snd r))"

interpretation mata: codec mata_enc mata_dec one_doc_mata_size mata_valid
proof
  show "length (mata_enc r) = one_doc_mata_size" for r
    by (simp add: mata_enc_def record_bytes_def one_doc_mata_size_def i32.enc_length i64.enc_length i16.enc_length)
  show "mata_dec (mata_enc r @ rest) = Some r" if "mata_valid r" for r rest
  proof -
    obtain k l n where r: "r = (k, l, n)" by (cases r)
    with that have v: "is_int32 k" "is_int64 l" "is_int16 n" by (simp_all add: mata_valid_def)
    have "drop 4 (mata_enc r @ rest) = store_i64 l @ store_i16 n @ rest"
      and "drop 12 (mata_enc r @ rest) = store_i16 n @ rest"
      by (simp_all add: r mata_enc_def record_bytes_def i32.enc_length i64.enc_length)
    with v show ?thesis
      by (simp add: mata_dec_def) (simp add: r mata_enc_def record_bytes_def i32.dec_enc i64.dec_enc i16.dec_enc)
  qed
qed

definition index_of :: "mata_record list \<Rightarrow> (int, int \<times> int) std_map" where
  "index_of recs = foldl (\<lambda>m (k, l, n). std_map_set k (l, n) m) [] recs"

lemma index_of_simps [simp]:
  "index_of [] = []" "index_of (recs @ [(k, l, n)]) = std_map_set k (l, n) (index_of recs)"
  by (simp_all add: index_of_def)

subsection \<open>Files behind descriptors\<close>

definition fd_inode :: "file_system \<Rightarrow> int \<Rightarrow> nat option" where
  "fd_inode fs fd = map_option of_inode (map_of (fs_fds fs) fd)"

definition same_files :: "file_system \<Rightarrow> file_system \<Rightarrow> bool" where
  "same_files fs fs' \<longleftrightarrow>
     fs_nodes fs' = fs_nodes fs \<and> fs_data fs' = fs_data fs \<and> fs_next fs' = fs_next fs \<and>
     fs_room fs' = fs_room fs \<and> fs_denied fs' = fs_denied fs \<and> fd_inode fs' = fd_inode fs"

lemma same_files_refl [simp]: "same_files fs fs"
  by (simp add: same_files_def)

lemma same_files_trans: "same_files fs fs' \<Longrightarrow> same_files fs' fs'' \<Longrightarrow> same_files fs fs''"
  by (simp add: same_files_def)

lemma same_files_set_pos: "map_of (fs_fds fs) fd = Some f \<Longrightarrow> same_files fs (set_pos fd f n fs)"
  by (auto simp: same_files_def fd_inode_def)

lemma read_at:
  assumes "fd_inode fs fd = Some n" and "0 \<le> off"
  obtains fs' where "sys_read fd k (snd (sys_lseek_set fd off fs)) =
      (int (length (take k (drop (nat off) (fs_data fs n)))), take k (drop (nat off) (fs_data fs n)), fs')"
    and "same_files fs fs'"
proof -
  from assms(1) obtain f where f: "map_of (fs_fds fs) fd = Some f" "of_inode f = n"
    by (auto simp: fd_inode_def)
  let ?fs1 = "set_pos fd f (nat off) fs"
  let ?b = "take k (drop (nat off) (fs_data fs n))"
  have "sys_read fd k (snd (sys_lseek_set fd off fs)) =
      (int (length ?b), ?b, set_pos fd (f\<lparr>of_pos := nat off\<rparr>) (nat off + length ?b) ?fs1)"
    using f assms(2) by (simp add: sys_lseek_set_def sys_read_def Let_def)
  moreover have "same_files fs (set_pos fd (f\<lparr>of_pos := nat off\<rparr>) (nat off + length ?b) ?fs1)"
    by (rule same_files_trans [OF same_files_set_pos [OF f(1)] same_files_set_pos]) simp
  ultimately show ?thesis using that by blast
qed

lemma write_end:
  assumes "fd_inode fs fd = Some n" and "off = int (length (fs_data fs n))" and "length b \<le> fs_room fs"
  obtains fs' where "sys_write fd b (snd (sys_lseek_set fd off fs)) = (int (length b), fs')"
    and "fs_data fs' = (fs_data fs)(n := fs_data fs n @ b)" and "fd_inode fs' = fd_inode fs"
    and "fs_nodes fs' = fs_nodes fs" and "fs_next fs' = fs_next fs"
    and "fs_room fs' = fs_room fs - length b" and "fs_denied fs' = fs_denied fs"
proof -
  from assms(1) obtain f where f: "map_of (fs_fds fs) fd = Some f" "of_inode f = n"
    by (auto simp: fd_inode_def)
  let ?fs1 = "set_pos fd f (nat off) fs"
  let ?f1 = "f\<lparr>of_pos := nat off\<rparr>"
  have "sys_write fd b (snd (sys_lseek_set fd off fs)) = (int (length b),
      set_pos fd ?f1 (nat off + length b)
        (?fs1\<lparr>fs_data := (fs_data fs)(n := fs_data fs n @ b), fs_room := fs_room fs - length b\<rparr>))"
    using f assms by (simp add: sys_lseek_set_def sys_write_def Let_def)
  then show ?thesis
    by (rule that) (use f in \<open>auto simp: fd_inode_def\<close>)
qed

subsection \<open>The invariant\<close>

definition rec_ok :: "nat \<Rightarrow> mata_record \<Rightarrow> bool" where
  "rec_ok n r \<longleftrightarrow> is_int32 (fst r) \<and> is_int16 (snd (snd r)) \<and> 0 \<le> snd (snd r) \<and> 0 \<le> fst (snd r) \<and>
     fst (snd r) + snd (snd r) \<le> int n"

definition engine_ok :: "mata_record list \<Rightarrow> engine \<Rightarrow> file_system \<Rightarrow> bool" where
  "engine_ok recs en fs \<longleftrightarrow>
     (\<exists>di mi. fd_inode fs (en_data_fd en) = Some di \<and> fd_inode fs (en_mata_fd en) = Some mi \<and> di \<noteq> mi \<and>
        node_at fs (data_path en) = Some (Regular di) \<and> node_at fs (mata_path en) = Some (Regular mi) \<and>
        fs_data fs mi = concat (map mata_enc recs) \<and>
        en_raw_data_offset en = int (length (fs_data fs di)) \<and>
        list_all (rec_ok (length (fs_data fs di))) recs) \<and>
     en_mata_offset en = int (one_doc_mata_size * length recs) \<and> en_data_size en = int (length recs) \<and>
     en_key_to_offset en = index_of recs \<and>
     is_int64 (en_raw_data_offset en) \<and> is_int32 (int (one_doc_mata_size * length recs))"

definition docs :: "engine \<Rightarrow> file_system \<Rightarrow> int \<rightharpoonup> string" where
  "docs en fs key =
     (case (map_of (en_key_to_offset en) key, fd_inode fs (en_data_fd en)) of
        (Some (off, n), Some di) \<Rightarrow> Some (take (nat n) (drop (nat off) (fs_data fs di)))
      | _ \<Rightarrow> None)"

lemma engine_ok_same_files: "engine_ok recs en fs \<Longrightarrow> same_files fs fs' \<Longrightarrow> engine_ok recs en fs'"
  by (simp add: engine_ok_def same_files_def node_at_def)

lemma docs_same_files: "same_files fs fs' \<Longrightarrow> docs en fs' = docs en fs"
  by (rule ext) (simp add: docs_def same_files_def split: option.split)

lemma rec_ok_mono: "rec_ok n r \<Longrightarrow> n \<le> n' \<Longrightarrow> rec_ok n' r"
  by (auto simp: rec_ok_def)

lemma map_of_index_of: "map_of (index_of recs) k = Some (l, n) \<Longrightarrow> (k, l, n) \<in> set recs"
proof (induction recs rule: rev_induct)
  case Nil
  then show ?case by simp
next
  case (snoc r recs)
  then show ?case by (cases r) (auto split: if_splits)
qed


subsection \<open>Reading a document\<close>

text \<open>On a store that satisfies the invariant, \<open>Get\<close> returns the bytes the store holds
  for the key, the empty string for a key it does not hold, and leaves the store as it was.\<close>

lemma Engine_Get_docs:
  assumes "engine_ok recs en fs"
  shows "\<exists>fs'. Engine_Get en key fs = Some (case docs en fs key of Some d \<Rightarrow> d | None \<Rightarrow> '''', fs') \<and>
    engine_ok recs en fs' \<and> docs en fs' = docs en fs"
proof -
  from assms obtain di where di: "fd_inode fs (en_data_fd en) = Some di"
    and recs: "list_all (rec_ok (length (fs_data fs di))) recs" and idx: "en_key_to_offset en = index_of recs"
    by (auto simp: engine_ok_def)
  show ?thesis
  proof (cases "map_of (en_key_to_offset en) key")
    case None
    with assms show ?thesis by (simp add: Engine_Get_def docs_def)
  next
    case (Some e)
    obtain off n where e: "e = (off, n)" by (cases e)
    with Some idx have "(key, off, n) \<in> set recs" by (simp add: map_of_index_of)
    with recs have ok: "0 \<le> off" "0 \<le> n" "off + n \<le> int (length (fs_data fs di))"
      by (auto simp: list_all_iff rec_ok_def)
    obtain fs' where fs': "sys_read (en_data_fd en) (nat n) (snd (sys_lseek_set (en_data_fd en) off fs)) =
        (int (length (take (nat n) (drop (nat off) (fs_data fs di)))),
         take (nat n) (drop (nat off) (fs_data fs di)), fs')" "same_files fs fs'"
      using read_at [OF di ok(1)] by blast
    have "Engine_Get en key fs = Some (take (nat n) (drop (nat off) (fs_data fs di)), fs')"
      using Some e ok fs'(1) by (simp add: Engine_Get_def resize_string_def overwrite_def)
    with Some e di fs'(2) engine_ok_same_files [OF assms] docs_same_files show ?thesis
      by (auto simp: docs_def)
  qed
qed

subsection \<open>Adding documents\<close>

fun doc_pieces :: "(int \<times> int) list \<Rightarrow> string \<Rightarrow> (int \<times> string) list" where
  "doc_pieces [] data = []"
| "doc_pieces ((key, n) # kvs) data = (key, take (nat n) data) # doc_pieces kvs (drop (nat n) data)"

fun new_records :: "(int \<times> int) list \<Rightarrow> int \<Rightarrow> mata_record list" where
  "new_records [] off = []"
| "new_records ((key, n) # kvs) off = (key, off, n) # new_records kvs (off + n)"

definition batch_ok :: "(int \<times> int) list \<Rightarrow> string \<Rightarrow> bool" where
  "batch_ok kvs data \<longleftrightarrow>
     list_all (\<lambda>(key, n). is_int32 key \<and> is_int16 n \<and> 0 \<le> n) kvs \<and>
     (\<Sum>kv \<leftarrow> kvs. snd kv) \<le> int (length data)"

definition batch_fits :: "(int \<times> int) list \<Rightarrow> engine \<Rightarrow> file_system \<Rightarrow> bool" where
  "batch_fits kvs en fs \<longleftrightarrow>
     (\<Sum>kv \<leftarrow> kvs. snd kv) + int (one_doc_mata_size * length kvs) \<le> int (fs_room fs) \<and>
     is_int64 (en_raw_data_offset en + (\<Sum>kv \<leftarrow> kvs. snd kv)) \<and>
     is_int32 (en_mata_offset en + int (one_doc_mata_size * length kvs))"


lemma docs_append:
  assumes "engine_ok recs en fs" and "fd_inode fs (en_data_fd en) = Some di"
    and "fd_inode fs' (en_data_fd en') = Some di" and "fs_data fs' di = fs_data fs di @ b"
    and "en_key_to_offset en' = std_map_set key (int (length (fs_data fs di)), int (length b)) (en_key_to_offset en)"
  shows "docs en' fs' = (docs en fs)(key \<mapsto> b)"
proof
  fix k
  from assms(1,2) have recs: "list_all (rec_ok (length (fs_data fs di))) recs" "en_key_to_offset en = index_of recs"
    by (auto simp: engine_ok_def)
  show "docs en' fs' k = ((docs en fs)(key \<mapsto> b)) k"
  proof (cases "k = key")
    case True
    with assms show ?thesis by (simp add: docs_def)
  next
    case False
    have "off + n \<le> int (length (fs_data fs di)) \<and> 0 \<le> off \<and> 0 \<le> n"
      if "map_of (index_of recs) k = Some (off, n)" for off n
      using map_of_index_of [OF that] recs(1) by (auto simp: list_all_iff rec_ok_def)
    with False assms recs(2) show ?thesis
      by (auto simp: docs_def split: option.split)
  qed
qed

definition engine_files :: "mata_record list \<Rightarrow> engine \<Rightarrow> file_system \<Rightarrow> nat \<Rightarrow> nat \<Rightarrow> bool" where
  "engine_files recs en fs di mi \<longleftrightarrow>
     fd_inode fs (en_data_fd en) = Some di \<and> fd_inode fs (en_mata_fd en) = Some mi \<and> di \<noteq> mi \<and>
     node_at fs (data_path en) = Some (Regular di) \<and> node_at fs (mata_path en) = Some (Regular mi) \<and>
     fs_data fs mi = concat (map mata_enc recs) \<and>
     en_raw_data_offset en = int (length (fs_data fs di)) \<and>
     list_all (rec_ok (length (fs_data fs di))) recs"

lemma engine_ok_files:
  assumes "engine_ok recs en fs"
  obtains di mi where "engine_files recs en fs di mi"
  using assms by (auto simp: engine_ok_def engine_files_def)

definition add_entry :: "int \<Rightarrow> int \<Rightarrow> engine \<Rightarrow> engine" where
  "add_entry key n en = en\<lparr>en_key_to_offset :=
        std_map_set key (en_raw_data_offset en, n) (en_key_to_offset en),
      en_raw_data_offset := en_raw_data_offset en + n,
      en_mata_offset := en_mata_offset en + int one_doc_mata_size, en_data_size := en_data_size en + 1\<rparr>"

lemma engine_ok_append:
  assumes "engine_ok recs en fs" and files: "engine_files recs en fs di mi"
    and "is_int32 key" and "is_int16 n" and n: "0 \<le> n" "length b = nat n"
    and size: "is_int64 (en_raw_data_offset en + n)" "is_int32 (en_mata_offset en + int one_doc_mata_size)"
    and fs': "fd_inode fs' = fd_inode fs" "fs_nodes fs' = fs_nodes fs"
      "fs_data fs' di = fs_data fs di @ b"
      "fs_data fs' mi = fs_data fs mi @ mata_enc (key, en_raw_data_offset en, n)"
  shows "engine_ok (recs @ [(key, en_raw_data_offset en, n)]) (add_entry key n en) fs'"
    and "docs (add_entry key n en) fs' = (docs en fs)(key \<mapsto> b)"
proof -
  have counts: "en_mata_offset en = int (one_doc_mata_size * length recs)" "en_data_size en = int (length recs)"
      "en_key_to_offset en = index_of recs"
    using assms(1) by (auto simp: engine_ok_def)
  have "rec_ok (length (fs_data fs di @ b)) (key, en_raw_data_offset en, n)"
    using assms(3,4) n files by (simp add: rec_ok_def engine_files_def)
  then have recs: "list_all (rec_ok (length (fs_data fs di @ b))) (recs @ [(key, en_raw_data_offset en, n)])"
    using files rec_ok_mono [of "length (fs_data fs di)" _ "length (fs_data fs di @ b)"]
    by (auto simp: list_all_iff engine_files_def)
  have "engine_files (recs @ [(key, en_raw_data_offset en, n)]) (add_entry key n en) fs' di mi"
    using files fs' n recs
    by (simp add: engine_files_def add_entry_def node_at_def data_path_def mata_path_def)
  moreover have "is_int32 (int (one_doc_mata_size * length (recs @ [(key, en_raw_data_offset en, n)])))"
    using size(2) counts(1) by (simp add: algebra_simps)
  ultimately show "engine_ok (recs @ [(key, en_raw_data_offset en, n)]) (add_entry key n en) fs'"
    using counts size unfolding engine_ok_def engine_files_def
    by (auto simp: add_entry_def algebra_simps)
  show "docs (add_entry key n en) fs' = (docs en fs)(key \<mapsto> b)"
    using docs_append [OF assms(1), of di fs' "add_entry key n en" b key] files fs' n
    by (simp add: add_entry_def engine_files_def)
qed

lemma batch_add_step:
  assumes ok: "engine_ok recs en fs" and "is_int32 key" and "is_int16 n" and n: "0 \<le> n"
    and a: "0 \<le> all_len" "all_len + n \<le> int (length data)" and room: "nat n + one_doc_mata_size \<le> fs_room fs"
    and size: "is_int64 (en_raw_data_offset en + n)" "is_int32 (en_mata_offset en + int one_doc_mata_size)"
  obtains fs' where
    "batch_add ((key, n) # kvs) data all_len en fs = batch_add kvs data (all_len + n) (add_entry key n en) fs'"
    "engine_ok (recs @ [(key, en_raw_data_offset en, n)]) (add_entry key n en) fs'"
    "docs (add_entry key n en) fs' = (docs en fs)(key \<mapsto> take (nat n) (drop (nat all_len) data))"
    "fs_room fs' = fs_room fs - nat n - one_doc_mata_size"
proof -
  obtain di mi where files: "engine_files recs en fs di mi" using ok by (rule engine_ok_files)
  have counts: "en_mata_offset en = int (one_doc_mata_size * length recs)" "en_data_size en = int (length recs)"
    using ok by (simp_all add: engine_ok_def)
  define b where "b = take (nat n) (drop (nat all_len) data)"
  have b: "take (nat n) (drop (nat all_len) (c_str data)) = b" "length b = nat n"
    using a n by (simp_all add: b_def c_str_def)
  define r where "r = record_bytes key (en_raw_data_offset en) n"
  have r: "r = mata_enc (key, en_raw_data_offset en, n)" by (simp add: r_def mata_enc_def)
  have rl: "length r = one_doc_mata_size" by (simp add: r mata.enc_length)
  obtain fs1 where fs1: "sys_write (en_data_fd en) b (snd (sys_lseek_set (en_data_fd en) (en_raw_data_offset en) fs)) =
        (int (length b), fs1)" "fs_data fs1 = (fs_data fs)(di := fs_data fs di @ b)" "fd_inode fs1 = fd_inode fs"
      "fs_nodes fs1 = fs_nodes fs" "fs_room fs1 = fs_room fs - length b"
    using write_end [of fs "en_data_fd en" di "en_raw_data_offset en" b] files room b(2)
    by (auto simp: engine_files_def)
  have m: "fd_inode fs1 (en_mata_fd en) = Some mi" "en_mata_offset en = int (length (fs_data fs1 mi))"
      "length r \<le> fs_room fs1"
    using files fs1(2,3,5) room b(2) rl counts(1) by (simp_all add: engine_files_def mata.length_records mult.commute)
  obtain fs2 where fs2: "sys_write (en_mata_fd en) r (snd (sys_lseek_set (en_mata_fd en) (en_mata_offset en) fs1)) =
        (int (length r), fs2)" "fs_data fs2 = (fs_data fs1)(mi := fs_data fs1 mi @ r)" "fd_inode fs2 = fd_inode fs1"
      "fs_nodes fs2 = fs_nodes fs1" "fs_room fs2 = fs_room fs1 - length r"
    by (rule write_end [OF m]) blast
  have "is_int32 (en_data_size en + 1)" "is_int64 (en_mata_offset en + int one_doc_mata_size)"
    using size(2) by (simp_all add: counts is_int32_def is_int64_def one_doc_mata_size_def)
  then have "batch_add ((key, n) # kvs) data all_len en fs = batch_add kvs data (all_len + n) (add_entry key n en) fs2"
    using n a b fs1(1) fs2(1) rl size
    by (simp add: c_str_def [of data] Let_def flip: r_def) (simp add: chk64_def chk32_def add_entry_def)
  moreover have "fd_inode fs2 = fd_inode fs" "fs_nodes fs2 = fs_nodes fs" "fs_data fs2 di = fs_data fs di @ b"
      "fs_data fs2 mi = fs_data fs mi @ mata_enc (key, en_raw_data_offset en, n)"
    using files fs1 fs2 r by (simp_all add: engine_files_def)
  note engine_ok_append [OF ok files assms(2,3) n b(2) size this]
  ultimately show ?thesis using that fs1(5) fs2(5) b(2) rl by (auto simp: b_def)
qed


lemma sum_lengths_nonneg:
  "list_all (\<lambda>(key, n). is_int32 key \<and> is_int16 n \<and> 0 \<le> n) kvs \<Longrightarrow> 0 \<le> (\<Sum>kv \<leftarrow> kvs. snd kv)"
  by (induction kvs) auto

lemma engine_ok_nonneg: "engine_ok recs en fs \<Longrightarrow> 0 \<le> en_raw_data_offset en \<and> 0 \<le> en_mata_offset en"
  by (auto simp: engine_ok_def)

lemma batch_fits_Cons:
  assumes "batch_fits ((key, n) # kvs) en fs" and "0 \<le> en_raw_data_offset en" and "0 \<le> en_mata_offset en"
    and "0 \<le> n" and "0 \<le> (\<Sum>kv \<leftarrow> kvs. snd kv)"
  shows "nat n + one_doc_mata_size \<le> fs_room fs" and "is_int64 (en_raw_data_offset en + n)"
    and "is_int32 (en_mata_offset en + int one_doc_mata_size)"
    and "fs_room fs' = fs_room fs - nat n - one_doc_mata_size \<Longrightarrow> batch_fits kvs (add_entry key n en) fs'"
proof -
  have fits: "n + (\<Sum>kv \<leftarrow> kvs. snd kv) + int one_doc_mata_size + int (one_doc_mata_size * length kvs) \<le> int (fs_room fs)"
    "is_int64 (en_raw_data_offset en + n + (\<Sum>kv \<leftarrow> kvs. snd kv))"
    "is_int32 (en_mata_offset en + int one_doc_mata_size + int (one_doc_mata_size * length kvs))"
    using assms(1) by (simp_all add: batch_fits_def algebra_simps)
  have nn: "0 \<le> int (one_doc_mata_size * length kvs)" by simp
  with fits(1) assms(4,5) show "nat n + one_doc_mata_size \<le> fs_room fs" by linarith
  show "is_int64 (en_raw_data_offset en + n)" using fits(2) assms by (simp add: is_int64_def)
  show "is_int32 (en_mata_offset en + int one_doc_mata_size)" 
    using fits(3) assms(3) nn unfolding is_int32_def by linarith
  show "batch_fits kvs (add_entry key n en) fs'" if "fs_room fs' = fs_room fs - nat n - one_doc_mata_size"
    using that fits assms(4,5) by (simp add: batch_fits_def add_entry_def)
qed

lemma batch_add_ok:
  assumes "engine_ok recs en fs"
    and "list_all (\<lambda>(key, n). is_int32 key \<and> is_int16 n \<and> 0 \<le> n) kvs"
    and "0 \<le> all_len" and "all_len + (\<Sum>kv \<leftarrow> kvs. snd kv) \<le> int (length data)" and "batch_fits kvs en fs"
  shows "\<exists>en' fs'. batch_add kvs data all_len en fs = Some ('''', en', fs') \<and>
    engine_ok (recs @ new_records kvs (en_raw_data_offset en)) en' fs' \<and>
    docs en' fs' = docs en fs ++ map_of (rev (doc_pieces kvs (drop (nat all_len) data)))"
  using assms
proof (induction kvs arbitrary: recs en fs all_len)
  case Nil
  then show ?case by simp
next
  case (Cons kv kvs)
  obtain key n where kv: "kv = (key, n)" by (cases kv)
  with Cons.prems(2) have n: "is_int32 key" "is_int16 n" "0 \<le> n"
    and rest: "list_all (\<lambda>(key, n). is_int32 key \<and> is_int16 n \<and> 0 \<le> n) kvs" by simp_all
  note sum = sum_lengths_nonneg [OF rest]
  note fits = batch_fits_Cons [OF Cons.prems(5) [unfolded kv] _ _ n(3) sum]
  have "all_len + n \<le> int (length data)" using Cons.prems(4) sum by (simp add: kv)
  then obtain fs1 where fs1:
    "batch_add ((key, n) # kvs) data all_len en fs = batch_add kvs data (all_len + n) (add_entry key n en) fs1"
    "engine_ok (recs @ [(key, en_raw_data_offset en, n)]) (add_entry key n en) fs1"
    "docs (add_entry key n en) fs1 = (docs en fs)(key \<mapsto> take (nat n) (drop (nat all_len) data))"
    "fs_room fs1 = fs_room fs - nat n - one_doc_mata_size"
    using batch_add_step [OF Cons.prems(1) n Cons.prems(3), of data kvs] fits engine_ok_nonneg [OF Cons.prems(1)]
    by blast
  have "all_len + n + (\<Sum>kv \<leftarrow> kvs. snd kv) \<le> int (length data)" using Cons.prems(4) by (simp add: kv)
  from Cons.IH [OF fs1(2) rest _ this fits(4)] obtain en' fs' where
    "batch_add kvs data (all_len + n) (add_entry key n en) fs1 = Some ('''', en', fs')"
    "engine_ok ((recs @ [(key, en_raw_data_offset en, n)]) @ new_records kvs (en_raw_data_offset (add_entry key n en))) en' fs'"
    "docs en' fs' = docs (add_entry key n en) fs1 ++ map_of (rev (doc_pieces kvs (drop (nat (all_len + n)) data)))"
    using Cons.prems(3) n(3) fs1(4) engine_ok_nonneg [OF Cons.prems(1)] by auto
  then show ?case
    using fs1 Cons.prems(3) n(3) by (simp add: kv add_entry_def nat_add_distrib add.commute)
qed

text \<open>C6: adding a batch whose lengths fit its data, when there is space for it, succeeds: the
  invariant holds again, with one record per document appended, and the store then holds the
  documents of the batch (the last one of each key) over what it held.\<close>

theorem Engine_BatchAdd_docs:
  assumes "engine_ok recs en fs" and "batch_ok kvs data" and "batch_fits kvs en fs"
  shows "\<exists>en' fs'. Engine_BatchAdd kvs data en fs = Some ('''', en', fs') \<and>
    engine_ok (recs @ new_records kvs (en_raw_data_offset en)) en' fs' \<and>
    docs en' fs' = docs en fs ++ map_of (rev (doc_pieces kvs data))"
  using batch_add_ok [OF assms(1), of kvs 0 data] assms(2,3)
  by (simp add: Engine_BatchAdd_def batch_ok_def)


subsection \<open>Loading the files again\<close>

text \<open>What a pair of files on disk holds, whether or not they are open.\<close>

definition disk_ok :: "mata_record list \<Rightarrow> string \<Rightarrow> file_system \<Rightarrow> nat \<Rightarrow> nat \<Rightarrow> bool" where
  "disk_ok recs path fs di mi \<longleftrightarrow>
     di \<noteq> mi \<and> node_at fs (path @ data_filename) = Some (Regular di) \<and>
     node_at fs (path @ mata_filename) = Some (Regular mi) \<and>
     fs_data fs mi = concat (map mata_enc recs) \<and> list_all (rec_ok (length (fs_data fs di))) recs \<and>
     is_int64 (int (length (fs_data fs di))) \<and> is_int32 (int (one_doc_mata_size * length recs))"

definition disk_docs :: "mata_record list \<Rightarrow> string \<Rightarrow> int \<rightharpoonup> string" where
  "disk_docs recs data key =
     map_option (\<lambda>(off, n). take (nat n) (drop (nat off) data)) (map_of (index_of recs) key)"

lemma engine_ok_disk:
  assumes "engine_ok recs en fs"
  obtains di mi where "disk_ok recs (en_path en) fs di mi" and "docs en fs = disk_docs recs (fs_data fs di)"
proof -
  obtain di mi where "engine_files recs en fs di mi" using assms by (rule engine_ok_files)
  then show ?thesis
    using that [of di mi] assms
    by (auto simp: engine_ok_def engine_files_def disk_ok_def data_path_def mata_path_def docs_def disk_docs_def
        fun_eq_iff split: option.split)
qed

lemma rec_ok_valid: "rec_ok n r \<Longrightarrow> is_int64 (int n) \<Longrightarrow> mata_valid r"
  by (auto simp: rec_ok_def mata_valid_def is_int64_def is_int16_def)

lemma mata_dec_loads:
  assumes "mata_dec buf = Some (k, l, n)"
  shows "load_i32 buf = Some k" and "load_i64 (drop 4 buf) = Some l" and "load_i16 (drop 12 buf) = Some n"
  using assms by (auto simp: mata_dec_def bind_eq_Some_conv)

lemma load_index_ok:
  assumes "fd_inode fs (en_mata_fd en) = Some mi" and "fs_data fs mi = concat (map mata_enc recs)"
    and "list_all mata_valid recs" and "is_int32 (int (one_doc_mata_size * length recs))"
    and "i + n = length recs"
  shows "\<exists>fs'. load_index n (int i) en fs = Some ('''', en\<lparr>en_key_to_offset :=
      foldl (\<lambda>m (k, l, n). std_map_set k (l, n) m) (en_key_to_offset en) (drop i recs)\<rparr>, fs') \<and> same_files fs fs'"
  using assms
proof (induction n arbitrary: i en fs)
  case 0
  then show ?case by simp
next
  case (Suc n)
  obtain k l len where r: "recs ! i = (k, l, len)" by (cases "recs ! i")
  have i: "i < length recs" using Suc.prems(5) by simp
  with Suc.prems(3) have v: "mata_valid (recs ! i)" by (simp add: list_all_length)
  have pos: "chk32 (int i * int one_doc_mata_size) = Some (int (i * one_doc_mata_size))"
    using Suc.prems(4) i by (simp add: chk32_def is_int32_def one_doc_mata_size_def)
  have buf: "take one_doc_mata_size (drop (nat (int (i * one_doc_mata_size))) (fs_data fs mi)) = mata_enc (recs ! i)"
    using mata.take_record [OF i] Suc.prems(2) by (simp only: nat_int)
  obtain fs1 where fs1: "sys_read (en_mata_fd en) one_doc_mata_size
      (snd (sys_lseek_set (en_mata_fd en) (int (i * one_doc_mata_size)) fs)) =
      (int one_doc_mata_size, mata_enc (recs ! i), fs1)" "same_files fs fs1"
    using read_at [OF Suc.prems(1), of "int (i * one_doc_mata_size)" one_doc_mata_size]
    unfolding buf mata.enc_length by auto
  note loads = mata_dec_loads [OF mata.dec_enc_exact [OF v, unfolded r]]
  let ?en = "en\<lparr>en_key_to_offset := std_map_set k (l, len) (en_key_to_offset en)\<rparr>"
  have step: "load_index (Suc n) (int i) en fs = load_index n (int (Suc i)) ?en fs1"
    using fs1(1) pos loads r by (simp add: add.commute)
  have "fd_inode fs1 (en_mata_fd ?en) = Some mi" "fs_data fs1 mi = concat (map mata_enc recs)" "Suc i + n = length recs"
    using Suc.prems fs1(2) by (simp_all add: same_files_def)
  from Suc.IH [OF this(1,2) Suc.prems(3,4) this(3)] step show ?case
    using i r fs1(2) by (auto simp: Cons_nth_drop_Suc [symmetric] intro: same_files_trans)
qed


lemma sys_open_regular:
  assumes "node_at fs p = Some (Regular n)" and "\<not> fs_denied fs p" and "fd_inode fs 0 \<noteq> None"
  obtains fd fs' where "sys_open p fs = (fd, fs')" "0 < fd" "fd_inode fs fd = None"
    "fd_inode fs' = (fd_inode fs)(fd \<mapsto> n)"
    "fs_nodes fs' = fs_nodes fs" "fs_data fs' = fs_data fs" "fs_denied fs' = fs_denied fs"
    "fs_room fs' = fs_room fs" "fs_next fs' = fs_next fs"
proof -
  let ?fd = "lowest_fd (fs_fds fs)"
  have free: "fd_inode fs ?fd = None" by (simp add: fd_inode_def)
  with assms(3) lowest_fd_nonneg [of "fs_fds fs"] have "0 < ?fd" by (cases "?fd = 0") auto
  moreover have "sys_open p fs = (?fd, fs\<lparr>fs_fds := (?fd, \<lparr>of_inode = n, of_pos = 0\<rparr>) # fs_fds fs\<rparr>)"
    using assms(1,2) by (simp add: sys_open_def new_fd_def Let_def)
  ultimately show ?thesis
    using free by (intro that) (assumption | simp add: fd_inode_def fun_eq_iff)+
qed

lemma sys_lseek_end_inode:
  assumes "fd_inode fs fd = Some n"
  obtains fs' where "sys_lseek_end fd fs = (int (length (fs_data fs n)), fs')" and "same_files fs fs'"
proof -
  from assms obtain f where f: "map_of (fs_fds fs) fd = Some f" "of_inode f = n" by (auto simp: fd_inode_def)
  then show ?thesis
    by (intro that [of "set_pos fd f (length (fs_data fs n)) fs"] same_files_set_pos)
      (simp_all add: sys_lseek_end_def Let_def)
qed

lemma Engine_load:
  assumes disk: "disk_ok recs (en_path en) fs di mi"
    and "\<not> fs_denied fs (data_path en)" and "\<not> fs_denied fs (mata_path en)" and "fd_inode fs 0 \<noteq> None"
    and "en_key_to_offset en = []"
  shows "\<exists>en' fs'. Engine_CreatOrLoad bu '''' en fs = Some ('''', en', fs') \<and> engine_ok recs en' fs' \<and>
    docs en' fs' = disk_docs recs (fs_data fs di) \<and> en_path en' = en_path en"
proof -
  have at: "node_at fs (data_path en) = Some (Regular di)" "node_at fs (mata_path en) = Some (Regular mi)" "di \<noteq> mi"
    and mata: "fs_data fs mi = concat (map mata_enc recs)"
    and recs: "list_all (rec_ok (length (fs_data fs di))) recs" "is_int64 (int (length (fs_data fs di)))"
      "is_int32 (int (one_doc_mata_size * length recs))"
    using disk by (simp_all add: disk_ok_def data_path_def mata_path_def)
  obtain dfd fs1 where fs1: "sys_open (data_path en) fs = (dfd, fs1)" "0 < dfd" "fd_inode fs dfd = None"
      "fd_inode fs1 = (fd_inode fs)(dfd \<mapsto> di)" "fs_nodes fs1 = fs_nodes fs" "fs_data fs1 = fs_data fs"
      "fs_denied fs1 = fs_denied fs"
    using sys_open_regular [OF at(1) assms(2,4)] by metis
  have "node_at fs1 (mata_path en) = Some (Regular mi)" "\<not> fs_denied fs1 (mata_path en)" "fd_inode fs1 0 \<noteq> None"
    using at fs1 assms(3,4) by (simp_all add: node_at_def)
  then obtain mfd fs2 where fs2: "sys_open (mata_path en) fs1 = (mfd, fs2)" "0 < mfd" "fd_inode fs1 mfd = None"
      "fd_inode fs2 = (fd_inode fs1)(mfd \<mapsto> mi)" "fs_nodes fs2 = fs_nodes fs1" "fs_data fs2 = fs_data fs1"
    using sys_open_regular by metis
  have fds: "fd_inode fs2 dfd = Some di" "fd_inode fs2 mfd = Some mi" using fs1(4) fs2(3,4) by auto
  obtain fs3 where fs3: "sys_lseek_end dfd fs2 = (int (length (fs_data fs di)), fs3)" "same_files fs2 fs3"
    using sys_lseek_end_inode [OF fds(1)] fs1(6) fs2(6) by metis
  obtain fs4 where fs4: "sys_lseek_end mfd fs3 = (int (one_doc_mata_size * length recs), fs4)" "same_files fs3 fs4"
    using sys_lseek_end_inode [of fs3 mfd mi] fds(2) fs3(2) fs1(6) fs2(6) mata
    by (auto simp: same_files_def mata.length_records mult.commute)
  let ?en = "en\<lparr>en_data_fd := dfd, en_mata_fd := mfd, en_raw_data_offset := int (length (fs_data fs di)),
      en_mata_offset := int (one_doc_mata_size * length recs), en_data_size := int (length recs)\<rparr>"
  have "int32_of (int (length recs)) = int (length recs)"
    using recs(3) by (intro int32_of_id) (simp add: is_int32_def one_doc_mata_size_def)
  then have run: "Engine_CreatOrLoad bu '''' en fs = load_index (length recs) (int 0) ?en fs4"
    using fs1(1,2) fs2(1,2) fs3(1) fs4(1) by (simp add: Engine_CreatOrLoad_def one_doc_mata_size_def)
  have s: "fd_inode fs4 = fd_inode fs2" "fs_data fs4 = fs_data fs" "fs_nodes fs4 = fs_nodes fs"
    using fs1 fs2 fs3(2) fs4(2) by (simp_all add: same_files_def)
  have "list_all mata_valid recs" using recs rec_ok_valid by (auto simp: list_all_iff)
  with load_index_ok [of fs4 ?en mi recs 0 "length recs"] s fds(2) mata recs(3)
  obtain fs5 where fs5: "load_index (length recs) (int 0) ?en fs4 =
      Some ('''', ?en\<lparr>en_key_to_offset := index_of recs\<rparr>, fs5)" "same_files fs4 fs5"
    using assms(5) by (auto simp: index_of_def)
  have "engine_ok recs (?en\<lparr>en_key_to_offset := index_of recs\<rparr>) fs4"
    using at mata recs fds s by (simp add: engine_ok_def node_at_def data_path_def mata_path_def)
  moreover have "docs (?en\<lparr>en_key_to_offset := index_of recs\<rparr>) fs4 = disk_docs recs (fs_data fs di)"
    using fds s by (auto simp: docs_def disk_docs_def fun_eq_iff split: option.split)
  ultimately show ?thesis
    using run fs5 engine_ok_same_files [OF _ fs5(2)] docs_same_files [OF fs5(2)] by auto
qed

text \<open>C22: a store closed and opened again on the same files, by a process whose standard input is
  open, holds the documents it held, and satisfies the invariant again.\<close>

theorem Engine_reload:
  assumes "engine_ok recs en fs" and "fs_nodes fs0 = fs_nodes fs" and "fs_data fs0 = fs_data fs"
    and "\<not> fs_denied fs0 (data_path en)" and "\<not> fs_denied fs0 (mata_path en)" and "fd_inode fs0 0 \<noteq> None"
    and "en_path en0 = en_path en" and "en_key_to_offset en0 = []"
  shows "\<exists>en' fs'. Engine_CreatOrLoad bu '''' en0 fs0 = Some ('''', en', fs') \<and>
    engine_ok recs en' fs' \<and> docs en' fs' = docs en fs"
proof -
  obtain di mi where d: "disk_ok recs (en_path en) fs di mi" "docs en fs = disk_docs recs (fs_data fs di)"
    using assms(1) by (rule engine_ok_disk)
  have "disk_ok recs (en_path en0) fs0 di mi"
    using d(1) assms(2,3,7) by (simp add: disk_ok_def node_at_def)
  with assms(3-8) d(2) show ?thesis
    using Engine_load [of recs en0 fs0 di mi bu] by (auto simp: data_path_def mata_path_def)
qed



subsection \<open>Snapshot and restore\<close>

text \<open>A file system without hard links, which every operation of the engine keeps that way.\<close>

definition fs_ok :: "file_system \<Rightarrow> bool" where
  "fs_ok fs \<longleftrightarrow>
     (\<forall>p n. node_at fs p = Some (Regular n) \<longrightarrow> n < fs_next fs) \<and>
     (\<forall>p q n. node_at fs p = Some (Regular n) \<and> node_at fs q = Some (Regular n) \<longrightarrow> p = q)"

definition replaceable :: "file_system \<Rightarrow> string \<Rightarrow> bool" where
  "replaceable fs p \<longleftrightarrow> node_at fs p \<noteq> Some Directory \<and> is_dir fs (dirname p) \<and> \<not> fs_denied fs p"

lemma copy_file:
  assumes "butil_spec bu" and ok: "fs_ok fs" and src: "content fs a = Some c" and "a \<noteq> b"
    and "replaceable fs b" and "length c \<le> fs_room fs"
  obtains fs' where "CopyFile bu a b fs = (True, fs')" and "fs_ok fs'"
    and "content fs' b = Some c" and "\<And>q. q \<noteq> b \<Longrightarrow> content fs' q = content fs q"
    and "\<And>q. q \<noteq> b \<Longrightarrow> node_at fs' q = node_at fs q" and "fs_fds fs' = fs_fds fs"
    and "fs_denied fs' = fs_denied fs" and "fs_room fs \<le> fs_room fs' + length c"
proof -
  let ?fs = "snd (CopyFile bu a b fs)"
  have "copy_spec (CopyFile bu)" using assms(1) by (simp add: butil_spec_def)
  with assms(3-6) have spec: "fst (CopyFile bu a b fs)" "content ?fs b = Some c" "frame_except b fs ?fs"
    "\<And>n. node_at fs b = None \<Longrightarrow> node_at ?fs b = Some (Regular n) \<Longrightarrow> n = fs_next fs \<and> n < fs_next ?fs"
    "\<And>n. node_at fs b = Some (Regular n) \<Longrightarrow> node_at ?fs b = Some (Regular n)"
    "fs_room fs \<le> fs_room ?fs + length c"
    unfolding copy_spec_def replaceable_def by blast+
  have frame: "\<And>q. q \<noteq> b \<Longrightarrow> node_at ?fs q = node_at fs q" "fs_next fs \<le> fs_next ?fs"
      "\<And>n. n < fs_next fs \<Longrightarrow> node_at fs b \<noteq> Some (Regular n) \<Longrightarrow> fs_data ?fs n = fs_data fs n"
    using spec(3) by (auto simp: frame_except_def)
  have new: "n < fs_next ?fs \<and> (\<forall>q. q \<noteq> b \<longrightarrow> node_at fs q \<noteq> Some (Regular n))"
    if "node_at ?fs b = Some (Regular n)" for n
  proof (cases "node_at fs b")
    case None
    with spec(4) [OF None that] ok show ?thesis by (auto simp: fs_ok_def)
  next
    case (Some nd)
    moreover have "nd \<noteq> Directory" using assms(5) Some by (auto simp: replaceable_def)
    ultimately have "node_at fs b = Some (Regular n)" using spec(5) that by (cases nd) auto
    with ok frame(2) show ?thesis by (fastforce simp: fs_ok_def)
  qed
  have "fs_ok ?fs"
    unfolding fs_ok_def
  proof (intro conjI allI impI)
    show "n < fs_next ?fs" if "node_at ?fs p = Some (Regular n)" for p n
      using that new [of n] frame(1) [of p] frame(2) ok
      by (cases "p = b") (auto simp: fs_ok_def intro: order_less_le_trans)
    show "p = q" if "node_at ?fs p = Some (Regular n) \<and> node_at ?fs q = Some (Regular n)" for p q n
      using that new [of n] frame(1) [of p] frame(1) [of q] ok unfolding fs_ok_def by metis
  qed
  moreover have "fs_data ?fs m = fs_data fs m" if "node_at fs q = Some (Regular m)" "q \<noteq> b" for q m
    using frame(3) [of m] ok that unfolding fs_ok_def by metis
  then have "content ?fs q = content fs q" if "q \<noteq> b" for q
    using frame(1) [OF that] that by (simp add: content_def split: option.split node.split)
  ultimately show ?thesis
    using that [of ?fs] spec frame by (cases "CopyFile bu a b fs") (auto simp: frame_except_def)
qed

lemma fs_ok_backup_loop:
  assumes "fs_ok fs" and "is_file fs f \<or> node_at fs f = None"
  shows "fs_ok (snd (backup_loop bu f is fs))"
  using assms
proof (induction "is" arbitrary: fs)
  case Nil
  then show ?case by simp
next
  case (Cons i "is")
  consider "node_at fs f = None" | n where "node_at fs f = Some (Regular n)"
    using Cons.prems by (auto simp: is_file_def split: option.splits node.splits)
  then show ?case
  proof cases
    case 1
    with Cons.IH [of fs] Cons.prems show ?thesis by (simp add: sys_rename_missing Let_def)
  next
    case 2
    let ?m = "backup_move f i n fs"
    have "fs_next ?m = fs_next fs" by (simp add: backup_move_def)
    then have "fs_ok ?m" using Cons.prems(1) 2 by (auto simp: fs_ok_def backup_move_frame)
    moreover have "node_at ?m f = None" by (simp add: backup_move_frame)
    moreover have "sys_rename f (f @ to_string (int i)) fs \<in> {(- 1, fs), (0, ?m)}"
      using 2 by (simp add: sys_rename_def backup_move_def)
    ultimately show ?thesis using Cons.IH [of ?m] Cons.IH [of fs] Cons.prems by (auto simp: Let_def)
  qed
qed

lemma fs_ok_BackupFile:
  assumes "fs_ok fs" and "is_file fs f \<or> node_at fs f = None"
  shows "fs_ok (snd (BackupFile bu f fs))"
  using fs_ok_backup_loop [OF assms] assms(1) unfolding BackupFile_def
  by (cases "PathExists bu f fs") (simp_all only: if_True if_False snd_conv)

lemma content_cong:
  "node_at fs' q = node_at fs q \<Longrightarrow> fs_data fs' = fs_data fs \<Longrightarrow> content fs' q = content fs q"
  by (simp add: content_def split: option.split node.split)

text \<open>The files of two directories are told apart by their names.\<close>

lemma engine_paths [simp]:
  "p @ data_filename \<noteq> q @ mata_filename" "q @ mata_filename \<noteq> p @ data_filename"
  "p @ data_filename = q @ data_filename \<longleftrightarrow> p = q" "p @ mata_filename = q @ mata_filename \<longleftrightarrow> p = q"
  "dirname (p @ data_filename) = p" "dirname (p @ mata_filename) = p"
  "p \<noteq> p @ data_filename" "p \<noteq> p @ mata_filename"
  by (simp_all add: data_filename_def mata_filename_def dirname_def)

lemma engine_names [simp]:
  "data_filename \<noteq> []" "mata_filename \<noteq> []" "data_filename \<noteq> mata_filename" "mata_filename \<noteq> data_filename"
  by (simp_all add: data_filename_def mata_filename_def)

lemma last_to_string: "isdigit (last (to_string (int i)))"
  using nat_to_string_all_digits [of i] last_in_set [of "nat_to_string i"] by (simp add: to_string_def)

lemma not_backup_name [simp]:
  "\<not> backup_name f (p @ data_filename)" "\<not> backup_name f (p @ mata_filename)"
proof -
  have "last (f @ to_string (int i)) \<noteq> CHR ''t''" for i
    using last_to_string [of i] by (auto simp: isdigit_def)
  moreover have "last (p @ data_filename) = CHR ''t''" "last (p @ mata_filename) = CHR ''t''"
    by (simp_all add: data_filename_def mata_filename_def)
  ultimately show "\<not> backup_name f (p @ data_filename)" "\<not> backup_name f (p @ mata_filename)"
    unfolding backup_name_def by metis+
qed

text \<open>A directory holds the two files with given contents.\<close>

definition holds :: "mata_record list \<Rightarrow> string \<Rightarrow> string \<Rightarrow> file_system \<Rightarrow> bool" where
  "holds recs data path fs \<longleftrightarrow>
     content fs (path @ data_filename) = Some data \<and>
     content fs (path @ mata_filename) = Some (concat (map mata_enc recs))"

definition room_for :: "mata_record list \<Rightarrow> string \<Rightarrow> nat" where
  "room_for recs data = length data + length (concat (map mata_enc recs))"

lemma copy_pair:
  assumes "butil_spec bu" and "fs_ok fs" and "holds recs data p fs" and "p \<noteq> q"
    and "replaceable fs (q @ data_filename)" and "replaceable fs (q @ mata_filename)"
    and "room_for recs data \<le> fs_room fs"
  obtains fs' where
    "snd (CopyFile bu (p @ mata_filename) (q @ mata_filename)
       (snd (CopyFile bu (p @ data_filename) (q @ data_filename) fs))) = fs'"
    "fs_ok fs'" "holds recs data q fs'" "holds recs data p fs'" "fs_fds fs' = fs_fds fs"
    "fs_denied fs' = fs_denied fs" "fs_room fs \<le> fs_room fs' + room_for recs data"
    "\<And>r. r \<noteq> q @ data_filename \<Longrightarrow> r \<noteq> q @ mata_filename \<Longrightarrow>
       node_at fs' r = node_at fs r \<and> content fs' r = content fs r"
proof -
  have src: "content fs (p @ data_filename) = Some data"
    "content fs (p @ mata_filename) = Some (concat (map mata_enc recs))"
    using assms(3) by (simp_all add: holds_def)
  have "p @ data_filename \<noteq> q @ data_filename" "length data \<le> fs_room fs"
    using assms(4,7) by (simp_all add: room_for_def)
  from copy_file [OF assms(1,2) src(1) this(1) assms(5) this(2)] obtain fs1 where fs1:
    "CopyFile bu (p @ data_filename) (q @ data_filename) fs = (True, fs1)" "fs_ok fs1"
    "content fs1 (q @ data_filename) = Some data"
    "\<And>r. r \<noteq> q @ data_filename \<Longrightarrow> content fs1 r = content fs r"
    "\<And>r. r \<noteq> q @ data_filename \<Longrightarrow> node_at fs1 r = node_at fs r"
    "fs_fds fs1 = fs_fds fs" "fs_denied fs1 = fs_denied fs" "fs_room fs \<le> fs_room fs1 + length data" by metis
  have "replaceable fs1 (q @ mata_filename)"
    using assms(6) fs1(5) [of q] fs1(5) [of "q @ mata_filename"] fs1(7) by (simp add: replaceable_def is_dir_def)
  moreover have "content fs1 (p @ mata_filename) = Some (concat (map mata_enc recs))"
    using src(2) fs1(4) by simp
  moreover have "p @ mata_filename \<noteq> q @ mata_filename" "length (concat (map mata_enc recs)) \<le> fs_room fs1"
    using assms(4,7) fs1(8) by (simp_all add: room_for_def)
  ultimately obtain fs2 where fs2:
    "CopyFile bu (p @ mata_filename) (q @ mata_filename) fs1 = (True, fs2)" "fs_ok fs2"
    "content fs2 (q @ mata_filename) = Some (concat (map mata_enc recs))"
    "\<And>r. r \<noteq> q @ mata_filename \<Longrightarrow> content fs2 r = content fs1 r"
    "\<And>r. r \<noteq> q @ mata_filename \<Longrightarrow> node_at fs2 r = node_at fs1 r"
    "fs_fds fs2 = fs_fds fs1" "fs_denied fs2 = fs_denied fs1"
    "fs_room fs1 \<le> fs_room fs2 + length (concat (map mata_enc recs))"
    using copy_file [OF assms(1) fs1(2)] by metis
  show ?thesis
    using fs1 fs2 src assms(4) by (intro that [of fs2]) (simp_all add: holds_def room_for_def)
qed


lemma holds_disk_ok:
  assumes "fs_ok fs" and "holds recs data path fs" and "list_all (rec_ok (length data)) recs"
    and "is_int64 (int (length data))" and "is_int32 (int (one_doc_mata_size * length recs))"
  obtains di mi where "disk_ok recs path fs di mi" and "fs_data fs di = data"
proof -
  from assms(2) obtain di mi where "node_at fs (path @ data_filename) = Some (Regular di)" "fs_data fs di = data"
    "node_at fs (path @ mata_filename) = Some (Regular mi)" "fs_data fs mi = concat (map mata_enc recs)"
    by (auto simp: holds_def content_def split: option.splits node.splits)
  moreover from this assms(1) have "di \<noteq> mi"
    unfolding fs_ok_def by (metis engine_paths(1))
  ultimately show ?thesis using that [of di mi] assms(3-5) by (simp add: disk_ok_def)
qed

lemma disk_ok_holds: "disk_ok recs path fs di mi \<Longrightarrow> holds recs (fs_data fs di) path fs"
  by (simp add: disk_ok_def holds_def content_def)

lemma BackupFile_replaceable:
  assumes "replaceable fs f" and "fs_ok fs" and "dirname f \<noteq> f" and "\<not> backup_name f (dirname f)"
  obtains m fs' where "BackupFile bu f fs = (m, fs')" and "fs_ok fs'" and "replaceable fs' f"
    and "\<And>q. \<not> backup_name f q \<Longrightarrow> q \<noteq> f \<Longrightarrow> node_at fs' q = node_at fs q \<and> content fs' q = content fs q"
    and "fs_fds fs' = fs_fds fs" and "fs_room fs' = fs_room fs" and "fs_denied fs' = fs_denied fs"
proof -
  obtain m fs' where run: "BackupFile bu f fs = (m, fs')" by (cases "BackupFile bu f fs")
  have reg: "is_file fs f \<or> node_at fs f = None"
    using assms(1) by (auto simp: replaceable_def is_file_def split: option.splits node.splits)
  note fr = BackupFile_frame [OF reg run]
  have "replaceable fs' f"
    using assms fr(1) [OF assms(4,3)] fr(6,7) by (auto simp: replaceable_def is_dir_def)
  with fs_ok_BackupFile [OF assms(2) reg, of bu] run fr content_cong [OF fr(1) fr(2)] show ?thesis
    by (intro that [of m fs']) simp_all
qed

lemma restore_snapshot_holds:
  assumes "butil_spec bu" and "fs_ok fs" and "holds recs data root fs" and "en_path en \<noteq> root"
    and "replaceable fs (data_path en)" and "replaceable fs (mata_path en)"
    and "room_for recs data \<le> fs_room fs"
  shows "fs_ok (restore_snapshot bu root en fs)" and "holds recs data (en_path en) (restore_snapshot bu root en fs)"
    and "fs_fds (restore_snapshot bu root en fs) = fs_fds fs"
    and "fs_denied (restore_snapshot bu root en fs) = fs_denied fs"
proof -
  let ?p = "en_path en"
  have not_dir: "\<not> backup_name (?p @ s) ?p" for s by (auto simp: backup_name_def)
  have ex: "node_at fs (root @ mata_filename) \<noteq> None" "node_at fs (root @ data_filename) \<noteq> None"
    using assms(3) by (auto simp: holds_def content_def split: option.splits)
  obtain m1 fs1 where fs1: "BackupFile bu (?p @ data_filename) fs = (m1, fs1)" "fs_ok fs1"
      "replaceable fs1 (?p @ data_filename)"
      "\<And>q. \<not> backup_name (?p @ data_filename) q \<Longrightarrow> q \<noteq> ?p @ data_filename \<Longrightarrow>
        node_at fs1 q = node_at fs q \<and> content fs1 q = content fs q"
      "fs_fds fs1 = fs_fds fs" "fs_room fs1 = fs_room fs" "fs_denied fs1 = fs_denied fs"
    using BackupFile_replaceable [OF assms(5) [unfolded data_path_def] assms(2)] not_dir by auto
  have "replaceable fs1 (?p @ mata_filename)"
    using assms(6) fs1(4) [of "?p @ mata_filename"] fs1(4) [of ?p] fs1(7) not_dir
    by (simp add: replaceable_def is_dir_def mata_path_def)
  from BackupFile_replaceable [OF this fs1(2)] not_dir
  obtain m2 fs2 where fs2: "BackupFile bu (?p @ mata_filename) fs1 = (m2, fs2)" "fs_ok fs2"
      "replaceable fs2 (?p @ mata_filename)"
      "\<And>q. \<not> backup_name (?p @ mata_filename) q \<Longrightarrow> q \<noteq> ?p @ mata_filename \<Longrightarrow>
        node_at fs2 q = node_at fs1 q \<and> content fs2 q = content fs1 q"
      "fs_fds fs2 = fs_fds fs1" "fs_room fs2 = fs_room fs1" "fs_denied fs2 = fs_denied fs1" by auto
  have "replaceable fs2 (?p @ data_filename)"
    using fs1(3) fs2(4) [of "?p @ data_filename"] fs2(4) [of ?p] fs2(7) not_dir
    by (simp add: replaceable_def is_dir_def)
  moreover have "holds recs data root fs2"
    using assms(3,4) fs1(4) fs2(4) by (simp add: holds_def)
  moreover have "room_for recs data \<le> fs_room fs2" "root \<noteq> ?p" using assms(4,7) fs1(6) fs2(6) by auto
  ultimately obtain fs3 where "snd (CopyFile bu (root @ mata_filename) (?p @ mata_filename)
       (snd (CopyFile bu (root @ data_filename) (?p @ data_filename) fs2))) = fs3"
    "fs_ok fs3" "holds recs data ?p fs3" "fs_fds fs3 = fs_fds fs2" "fs_denied fs3 = fs_denied fs2"
    using copy_pair [OF assms(1) fs2(2) _ _ _ fs2(3)] by metis
  then show "fs_ok (restore_snapshot bu root en fs)" "holds recs data ?p (restore_snapshot bu root en fs)"
    "fs_fds (restore_snapshot bu root en fs) = fs_fds fs"
    "fs_denied (restore_snapshot bu root en fs) = fs_denied fs"
    using ex fs1 fs2 unfolding restore_snapshot_def data_path_def mata_path_def Let_def butil_exists [OF assms(1)]
    by simp_all
qed


lemma Engine_CreatOrLoad_snapshot:
  "root \<noteq> '''' \<Longrightarrow>
     Engine_CreatOrLoad bu root en fs = Engine_CreatOrLoad bu '''' en (restore_snapshot bu root en fs)"
  by (simp add: Engine_CreatOrLoad_def)



subsection \<open>A concrete store\<close>

definition demo_store_fs :: file_system where
  "demo_store_fs =
     \<lparr>fs_nodes = [(''d'', Directory), (''s'', Directory), (''e'', Directory),
        (''d/engine_data.txt'', Regular 1), (''d/engine_mata.dat'', Regular 2), (''e/engine_data.txt'', Regular 3)],
      fs_data = (\<lambda>_. '''')(1 := ''ab'', 2 := mata_enc (7, 0, 2), 3 := ''old''), fs_next = 4,
      fs_fds = [(0, \<lparr>of_inode = 0, of_pos = 0\<rparr>), (1, \<lparr>of_inode = 1, of_pos = 0\<rparr>), (2, \<lparr>of_inode = 2, of_pos = 0\<rparr>)],
      fs_room = 1000, fs_denied = (\<lambda>_. False)\<rparr>"

definition demo_engine :: engine where
  "demo_engine =
     \<lparr>en_path = ''d'', en_data_fd = 1, en_mata_fd = 2, en_data_size = 1, en_mata_offset = 14,
      en_raw_data_offset = 2, en_key_to_offset = [(7, (0, 2))]\<rparr>"

lemma demo_engine_ok: "engine_ok [(7, 0, 2)] demo_engine demo_store_fs"
  by (simp add: engine_ok_def demo_engine_def demo_store_fs_def fd_inode_def node_at_def data_path_def mata_path_def
      data_filename_def mata_filename_def rec_ok_def index_of_def is_int16_def is_int32_def is_int64_def
      one_doc_mata_size_def)

lemma demo_docs: "docs demo_engine demo_store_fs = [7 \<mapsto> ''ab'']"
  by (rule ext) (simp add: docs_def demo_engine_def demo_store_fs_def fd_inode_def)

lemma Engine_Get_docs_witness:
  "\<exists>fs'. Engine_Get demo_engine 7 demo_store_fs = Some (''ab'', fs')"
  using Engine_Get_docs [OF demo_engine_ok, of 7] by (auto simp: demo_docs)

theorem Engine_BatchAdd_docs_witness:
  "\<exists>en' fs'. Engine_BatchAdd [(8, 2), (7, 1)] ''xyz'' demo_engine demo_store_fs = Some ('''', en', fs') \<and>
    docs en' fs' 7 = Some ''z'' \<and> docs en' fs' 8 = Some ''xy''"
proof -
  have "batch_ok [(8, 2), (7, 1)] ''xyz''" "batch_fits [(8, 2), (7, 1)] demo_engine demo_store_fs"
    by (simp_all add: batch_ok_def batch_fits_def is_int16_def is_int32_def is_int64_def demo_engine_def
        demo_store_fs_def one_doc_mata_size_def)
  from Engine_BatchAdd_docs [OF demo_engine_ok this] show ?thesis by (auto simp: demo_docs)
qed

theorem Engine_reload_witness:
  "\<exists>en' fs'. Engine_CreatOrLoad demo_butil '''' (new_engine\<lparr>en_path := ''d''\<rparr>)
      (demo_store_fs\<lparr>fs_fds := [(0, \<lparr>of_inode = 0, of_pos = 0\<rparr>)]\<rparr>) = Some ('''', en', fs') \<and>
    docs en' fs' 7 = Some ''ab''"
proof -
  let ?fs = "demo_store_fs\<lparr>fs_fds := [(0, \<lparr>of_inode = 0, of_pos = 0\<rparr>)]\<rparr>"
  let ?en = "new_engine\<lparr>en_path := ''d''\<rparr>"
  have "fs_nodes ?fs = fs_nodes demo_store_fs" "fs_data ?fs = fs_data demo_store_fs"
    "\<not> fs_denied ?fs (data_path demo_engine)" "\<not> fs_denied ?fs (mata_path demo_engine)" "fd_inode ?fs 0 \<noteq> None"
    "en_path ?en = en_path demo_engine" "en_key_to_offset ?en = []"
    by (simp_all add: fd_inode_def demo_store_fs_def demo_engine_def new_engine_def)
  from Engine_reload [OF demo_engine_ok this, of demo_butil, unfolded demo_docs] show ?thesis by auto
qed



subsection \<open>Reading several documents\<close>

text \<open>Reading one stored document with \<open>Mget\<close> writes outside the result buffer (undefined
  behaviour) whenever the document does not lie at the start of the data file: the bytes go
  to the offset in the file, not to the offset in the result.\<close>

lemma Engine_Mget_single:
  assumes "engine_ok recs en fs" and "map_of (en_key_to_offset en) key = Some (off, n)" and "0 < n"
  shows "Engine_Mget en [key] [] '''' fs = None \<longleftrightarrow> 0 < off"
proof -
  from assms(1) obtain di where di: "fd_inode fs (en_data_fd en) = Some di"
    and recs: "list_all (rec_ok (length (fs_data fs di))) recs" and idx: "en_key_to_offset en = index_of recs"
    by (auto simp: engine_ok_def)
  from assms(2) idx have "(key, off, n) \<in> set recs" by (simp add: map_of_index_of)
  with recs have ok: "0 \<le> off" "off + n \<le> int (length (fs_data fs di))"
    by (auto simp: list_all_iff rec_ok_def)
  let ?b = "take (nat n) (drop (nat off) (fs_data fs di))"
  obtain fs' where fs': "sys_read (en_data_fd en) (nat n) (snd (sys_lseek_set (en_data_fd en) off fs)) =
      (int (length ?b), ?b, fs')"
    using read_at [OF di ok(1)] by blast
  have "length ?b = nat n" using ok assms(3) by simp
  with fs' assms(2,3) ok show ?thesis
    by (auto simp: Engine_Mget_def mget_total_def resize_string_def Let_def)
qed

lemma Engine_Mget_single_witness:
  "\<exists>r. Engine_Mget demo_engine [7] [] '''' demo_store_fs = Some r"
proof -
  have "map_of (en_key_to_offset demo_engine) 7 = Some (0, 2)" by (simp add: demo_engine_def)
  from Engine_Mget_single [OF demo_engine_ok this] show ?thesis by auto
qed

end
