(* ===== verification/Config.thy ===== *)
theory Config
  imports Files
begin

text \<open>
  Configuration of the two servers: \<open>config/toml_conf.h\<close>, \<open>config/toml_conf.cc\<close>,
  \<open>config/conf.cc\<close> and \<open>utils/net.cc\<close>. The toml11 library is the parameter
  \<open>toml_lib\<close>: a parser and the typed lookups, each of which returns a value or throws.
  The assignments of \<open>TomlConfig::Load\<close> are a list of steps on the configuration, so that
  what was assigned before an exception stays assigned, as in the code.
\<close>

subsection \<open>Data\<close>

record global_config =
  gc_name :: string
  gc_data :: "string list"
  gc_level :: string
  gc_signkey :: string
  gc_skip_auth :: bool

record master_config =
  mc_name :: string
  mc_address :: string
  mc_api_port :: int
  mc_etcd_port :: int
  mc_etcd_peer_port :: int
  mc_etcd_client_port :: int

record router_config =
  rc_port :: int
  rc_skip_auth :: bool
  rc_hearbeat_interval_s :: int

record ps_config =
  pc_rpc_port :: int
  pc_raft_election_timeout_ms :: int
  pc_raft_snap_interval_s :: int
  pc_hearbeat_interval_s :: int

record toml_config =
  tc_global :: global_config
  tc_masters :: "master_config list"
  tc_router :: router_config
  tc_ps :: ps_config
  tc_master_urls :: "string list"

datatype toml_exn = Syntax_error | Runtime_error | Type_error | Toml_exception

type_synonym 'a toml_result = "toml_exn + 'a"

record 'v toml_lib =
  toml_parse :: "string \<Rightarrow> 'v toml_result"
  find_value :: "'v \<Rightarrow> string \<Rightarrow> 'v toml_result"
  find_values :: "'v \<Rightarrow> string \<Rightarrow> 'v list toml_result"
  find_string :: "'v \<Rightarrow> string \<Rightarrow> string toml_result"
  find_strings :: "'v \<Rightarrow> string \<Rightarrow> string list toml_result"
  find_bool :: "'v \<Rightarrow> string \<Rightarrow> bool toml_result"
  find_int :: "'v \<Rightarrow> string \<Rightarrow> int toml_result"

subsection \<open>Loading\<close>

type_synonym 'c step = "'c \<Rightarrow> toml_exn option \<times> 'c"

definition assign :: "'a toml_result \<Rightarrow> ('a \<Rightarrow> 'c \<Rightarrow> 'c) \<Rightarrow> 'c step" where
  "assign r upd c = (case r of Inl e \<Rightarrow> (Some e, c) | Inr a \<Rightarrow> (None, upd a c))"

fun run_steps :: "'c step list \<Rightarrow> 'c step" where
  "run_steps [] c = (None, c)"
| "run_steps (s # ss) c =
     (let (e, c1) = s c in if e = None then run_steps ss c1 else (e, c1))"

definition global_steps :: "'v toml_lib \<Rightarrow> 'v \<Rightarrow> toml_config step list" where
  "global_steps lib v =
     [assign (find_string lib v ''name'') (\<lambda>x c. c\<lparr>tc_global := (tc_global c)\<lparr>gc_name := x\<rparr>\<rparr>),
      assign (find_strings lib v ''data'') (\<lambda>x c. c\<lparr>tc_global := (tc_global c)\<lparr>gc_data := x\<rparr>\<rparr>),
      assign (find_string lib v ''level'') (\<lambda>x c. c\<lparr>tc_global := (tc_global c)\<lparr>gc_level := x\<rparr>\<rparr>),
      assign (find_string lib v ''signkey'') (\<lambda>x c. c\<lparr>tc_global := (tc_global c)\<lparr>gc_signkey := x\<rparr>\<rparr>),
      assign (find_bool lib v ''skip_auth'') (\<lambda>x c. c\<lparr>tc_global := (tc_global c)\<lparr>gc_skip_auth := x\<rparr>\<rparr>)]"

definition empty_master :: master_config where
  "empty_master =
     \<lparr>mc_name = '''', mc_address = '''', mc_api_port = 0, mc_etcd_port = 0, mc_etcd_peer_port = 0,
      mc_etcd_client_port = 0\<rparr>"

text \<open>One round of the loop over the masters: the entry is pushed when all its fields are read.\<close>

definition master_step :: "'v toml_lib \<Rightarrow> 'v \<Rightarrow> toml_config step" where
  "master_step lib v c =
     (let (e, m) = run_steps
          [assign (find_string lib v ''name'') (\<lambda>x m. m\<lparr>mc_name := x\<rparr>),
           assign (find_string lib v ''address'') (\<lambda>x m. m\<lparr>mc_address := x\<rparr>),
           assign (find_int lib v ''api_port'') (\<lambda>x m. m\<lparr>mc_api_port := x\<rparr>),
           assign (find_int lib v ''etcd_port'') (\<lambda>x m. m\<lparr>mc_etcd_port := x\<rparr>),
           assign (find_int lib v ''etcd_peer_port'') (\<lambda>x m. m\<lparr>mc_etcd_peer_port := x\<rparr>),
           assign (find_int lib v ''etcd_client_port'') (\<lambda>x m. m\<lparr>mc_etcd_client_port := x\<rparr>)] empty_master
      in if e = None then (None, c\<lparr>tc_masters := tc_masters c @ [m]\<rparr>) else (e, c))"

definition router_steps :: "'v toml_lib \<Rightarrow> 'v \<Rightarrow> toml_config step list" where
  "router_steps lib v =
     [assign (find_int lib v ''port'') (\<lambda>x c. c\<lparr>tc_router := (tc_router c)\<lparr>rc_port := x\<rparr>\<rparr>),
      assign (find_bool lib v ''skip_auth'') (\<lambda>x c. c\<lparr>tc_router := (tc_router c)\<lparr>rc_skip_auth := x\<rparr>\<rparr>),
      assign (find_int lib v ''hearbeat_interval_s'')
        (\<lambda>x c. c\<lparr>tc_router := (tc_router c)\<lparr>rc_hearbeat_interval_s := x\<rparr>\<rparr>)]"

definition ps_steps :: "'v toml_lib \<Rightarrow> 'v \<Rightarrow> toml_config step list" where
  "ps_steps lib v =
     [assign (find_int lib v ''rpc_port'') (\<lambda>x c. c\<lparr>tc_ps := (tc_ps c)\<lparr>pc_rpc_port := x\<rparr>\<rparr>),
      assign (find_int lib v ''raft_election_timeout_ms'')
        (\<lambda>x c. c\<lparr>tc_ps := (tc_ps c)\<lparr>pc_raft_election_timeout_ms := x\<rparr>\<rparr>),
      assign (find_int lib v ''raft_snap_interval_s'')
        (\<lambda>x c. c\<lparr>tc_ps := (tc_ps c)\<lparr>pc_raft_snap_interval_s := x\<rparr>\<rparr>),
      assign (find_int lib v ''hearbeat_interval_s'')
        (\<lambda>x c. c\<lparr>tc_ps := (tc_ps c)\<lparr>pc_hearbeat_interval_s := x\<rparr>\<rparr>)]"

text \<open>A section looked up and the steps on it.\<close>

definition with_section :: "'s toml_result \<Rightarrow> ('s \<Rightarrow> 'c step list) \<Rightarrow> 'c step" where
  "with_section r steps c = (case r of Inl e \<Rightarrow> (Some e, c) | Inr s \<Rightarrow> run_steps (steps s) c)"

definition exn_msg :: "toml_exn \<Rightarrow> msg" where
  "exn_msg e =
     (case e of Syntax_error \<Rightarrow> ''syntax_error'' | Runtime_error \<Rightarrow> ''runtime_error''
      | Type_error \<Rightarrow> ''type_error'' | Toml_exception \<Rightarrow> ''missing_key'')"

definition master_url :: "master_config \<Rightarrow> string" where
  "master_url m = mc_address m @ '':'' @ to_string (mc_api_port m)"

definition TomlConfig_Load :: "'v toml_lib \<Rightarrow> string \<Rightarrow> toml_config \<Rightarrow> msg \<times> toml_config" where
  "TomlConfig_Load lib filepath c =
     (case toml_parse lib filepath of
        Inl e \<Rightarrow> (exn_msg e, c)
      | Inr v \<Rightarrow>
          let (e, c1) = run_steps
                [with_section (find_value lib v ''global'') (global_steps lib),
                 with_section (find_values lib v ''masters'') (map (master_step lib)),
                 with_section (find_value lib v ''router'') (router_steps lib),
                 with_section (find_value lib v ''ps'') (ps_steps lib)] c
          in (case e of
               Some x \<Rightarrow> (exn_msg x, c1)
             | None \<Rightarrow> ('''', c1\<lparr>tc_master_urls := tc_master_urls c1 @ map master_url (tc_masters c1)\<rparr>)))"

definition GetMasterIpPorts :: "toml_config \<Rightarrow> (string \<times> int) list" where
  "GetMasterIpPorts c = map (\<lambda>m. (mc_address m, mc_etcd_client_port m)) (tc_masters c)"

subsection \<open>The local address (\<open>utils/net.cc\<close>)\<close>

text \<open>The interfaces as \<open>getifaddrs\<close> lists them: name, and the address when it is IPv4.\<close>

type_synonym interface = "string \<times> string option"

fun first_address :: "interface list \<Rightarrow> string option" where
  "first_address [] = None"
| "first_address ((name, addr) # is) =
     (case addr of
        None \<Rightarrow> first_address is
      | Some a \<Rightarrow> if name = ''lo'' then first_address is else Some a)"

definition GetLocalIPAddress :: "interface list option \<Rightarrow> string \<Rightarrow> bool \<times> string" where
  "GetLocalIPAddress ifaddrs ip_addr =
     (case ifaddrs of
        None \<Rightarrow> (False, ip_addr)
      | Some is \<Rightarrow>
          let ip = (case first_address is of None \<Rightarrow> ip_addr | Some a \<Rightarrow> a) in (ip \<noteq> '''', ip))"

subsection \<open>Start-up configuration (\<open>config/conf.cc\<close>)\<close>

record conf =
  cf_toml :: toml_config
  cf_cur_IP :: string
  cf_data_dir :: string
  cf_router_store_dir :: string
  cf_ps_storage_dir :: string
  cf_raft_root_dir :: string
  cf_engine_data_dir :: string
  cf_log_dir :: string

text \<open>\<open>atoi\<close>: leading blanks, a sign, the digits; no digits read as 0, and a value out of
  range is undefined.\<close>

definition atoi :: "string \<Rightarrow> int ub" where
  "atoi s =
     (let t = dropWhile isspace s;
          ds = takeWhile isdigit (drop (sign_len t) t);
          n = (if has_minus t then - int (dec_val ds) else int (dec_val ds))
      in chk32 n)"

definition InitConfig ::
  "'v toml_lib \<Rightarrow> butil \<Rightarrow> interface list option \<Rightarrow> string \<Rightarrow> string \<Rightarrow> string \<Rightarrow> string \<Rightarrow> string
     \<Rightarrow> conf \<Rightarrow> file_system \<Rightarrow> (int \<times> conf \<times> file_system) ub" where
  "InitConfig lib bu ifaddrs ip ps_port router_port toml_file log_dir cf fs =
     (let (m, t) = TomlConfig_Load lib toml_file (cf_toml cf);
          cf1 = cf\<lparr>cf_toml := t, cf_log_dir := log_dir\<rparr>
      in if m \<noteq> '''' then Some (- 1, cf1, fs)
         else
           let (ok, cur) = (if ip \<noteq> '''' then (True, ip) else GetLocalIPAddress ifaddrs (cf_cur_IP cf1));
               cf2 = cf1\<lparr>cf_cur_IP := cur\<rparr>
           in if \<not> ok then Some (- 1, cf2, fs)
              else do {
                t1 \<leftarrow> (if ps_port \<noteq> '''' then
                         map_option (\<lambda>p. t\<lparr>tc_ps := (tc_ps t)\<lparr>pc_rpc_port := p\<rparr>\<rparr>) (atoi ps_port)
                       else Some t);
                t2 \<leftarrow> (if router_port \<noteq> '''' then
                         map_option (\<lambda>p. t1\<lparr>tc_router := (tc_router t1)\<lparr>rc_port := p\<rparr>\<rparr>) (atoi router_port)
                       else Some t1);
                dir \<leftarrow> at_ub (gc_data (tc_global t2)) 0;
                Some (0,
                  cf2\<lparr>cf_toml := t2, cf_data_dir := dir, cf_router_store_dir := dir @ ''router_storage'',
                      cf_ps_storage_dir := dir @ ''ps_storage'', cf_raft_root_dir := dir @ ''raft_data'',
                      cf_engine_data_dir := dir @ ''engine_data''\<rparr>,
                  snd (CreateDirectory bu dir fs))
              })"

subsection \<open>Facts\<close>

lemma run_steps_append:
  "run_steps (ss @ ss') c = (let (e, c1) = run_steps ss c in if e = None then run_steps ss' c1 else (e, c1))"
  by (induction ss arbitrary: c) (auto simp: Let_def split: prod.split)

text \<open>Steps that keep a part of the configuration.\<close>

lemma run_steps_keep:
  assumes "\<And>s c. s \<in> set ss \<Longrightarrow> g (snd (s c)) = g c"
  shows "g (snd (run_steps ss c)) = g c"
  using assms by (induction ss arbitrary: c) (auto simp: Let_def case_prod_unfold)

lemma with_section_keep:
  assumes "\<And>v s c. s \<in> set (steps v) \<Longrightarrow> g (snd (s c)) = g c"
  shows "g (snd (with_section r steps c)) = g c"
  using run_steps_keep [where g = g] assms by (cases r) (auto simp: with_section_def)

lemma assign_keep: "(\<And>x c. g (upd x c) = g c) \<Longrightarrow> g (snd (assign r upd c)) = g c"
  by (cases r) (simp_all add: assign_def)

definition master_part :: "toml_config \<Rightarrow> master_config list \<times> string list" where
  "master_part c = (tc_masters c, tc_master_urls c)"

lemma sections_keep:
  "s \<in> set (global_steps lib v) \<Longrightarrow> master_part (snd (s c)) = master_part c"
  "s \<in> set (router_steps lib v) \<Longrightarrow> master_part (snd (s c)) = master_part c"
  "s \<in> set (ps_steps lib v) \<Longrightarrow> master_part (snd (s c)) = master_part c"
  by (auto simp: global_steps_def router_steps_def ps_steps_def assign_def master_part_def split: sum.split)

lemma master_step_push:
  assumes "master_step lib v c = (None, c')"
  obtains m where "c' = c\<lparr>tc_masters := tc_masters c @ [m]\<rparr>"
  using assms by (auto simp: master_step_def Let_def split: prod.splits if_splits)

lemma master_steps_push:
  assumes "run_steps (map (master_step lib) vs) c = (None, c')"
  shows "\<exists>ms. length ms = length vs \<and> c' = c\<lparr>tc_masters := tc_masters c @ ms\<rparr>"
  using assms
proof (induction vs arbitrary: c)
  case Nil
  then show ?case by simp
next
  case (Cons v vs)
  then obtain c1 where c1: "master_step lib v c = (None, c1)" "run_steps (map (master_step lib) vs) c1 = (None, c')"
    by (auto simp: Let_def split: prod.splits if_splits)
  from master_step_push [OF c1(1)] obtain m where m: "c1 = c\<lparr>tc_masters := tc_masters c @ [m]\<rparr>" .
  from Cons.IH [OF c1(2)] m obtain ms where "length ms = length vs" "c' = c\<lparr>tc_masters := tc_masters c @ m # ms\<rparr>"
    by auto
  then show ?case by (intro exI [of _ "m # ms"]) simp
qed


lemma exn_msg_not_Nil [simp]: "exn_msg e \<noteq> ''''"
  by (cases e) (simp_all add: exn_msg_def)

lemma section_keep:
  assumes "with_section r steps c = (e, c')" and "\<And>v s c. s \<in> set (steps v) \<Longrightarrow> g (snd (s c)) = g c"
  shows "g c' = g c"
  using with_section_keep [of steps g r c] assms by simp

text \<open>Loading a configuration that parses gives one master per entry of the \<open>masters\<close> array
  of the file, in order, and one address \<open>address:api_port\<close> per master.\<close>

lemma TomlConfig_Load_masters:
  assumes "toml_parse lib filepath = Inr v" and "TomlConfig_Load lib filepath c = ('''', c')"
    and "tc_masters c = []" and "tc_master_urls c = []"
  shows "\<exists>vs. find_values lib v ''masters'' = Inr vs \<and> length (tc_masters c') = length vs \<and>
    tc_master_urls c' = map (\<lambda>m. mc_address m @ '':'' @ to_string (mc_api_port m)) (tc_masters c')"
proof -
  from assms(1,2) obtain c1 c2 c3 c4 where steps:
    "with_section (find_value lib v ''global'') (global_steps lib) c = (None, c1)"
    "with_section (find_values lib v ''masters'') (map (master_step lib)) c1 = (None, c2)"
    "with_section (find_value lib v ''router'') (router_steps lib) c2 = (None, c3)"
    "with_section (find_value lib v ''ps'') (ps_steps lib) c3 = (None, c4)"
    "c' = c4\<lparr>tc_master_urls := tc_master_urls c4 @ map master_url (tc_masters c4)\<rparr>"
    by (auto simp: TomlConfig_Load_def Let_def split: prod.splits if_splits option.splits)
  have keep: "master_part c1 = master_part c" "master_part c3 = master_part c2" "master_part c4 = master_part c3"
    by (rule section_keep [OF steps(1)] section_keep [OF steps(3)] section_keep [OF steps(4)],
        erule sections_keep)+
  have 1: "tc_masters c1 = []" "tc_master_urls c1 = []"
    using assms(3,4) keep(1) by (simp_all add: master_part_def)
  from steps(2) obtain vs where vs: "find_values lib v ''masters'' = Inr vs"
    "run_steps (map (master_step lib) vs) c1 = (None, c2)"
    by (auto simp: with_section_def split: sum.splits)
  from master_steps_push [OF vs(2)] 1 have 2: "length (tc_masters c2) = length vs" "tc_master_urls c2 = []" by auto
  have "tc_masters c4 = tc_masters c2" "tc_master_urls c4 = tc_master_urls c2"
    using keep(2,3) by (simp_all add: master_part_def)
  with 2 vs(1) steps(5) show ?thesis by (simp add: master_url_def)
qed

text \<open>A file with one master, as the values a parser returns.\<close>

datatype demo_toml = T_str string | T_int int | T_bool bool | T_list "demo_toml list" | T_table "(string \<times> demo_toml) list"

definition demo_find :: "demo_toml \<Rightarrow> string \<Rightarrow> demo_toml toml_result" where
  "demo_find v key =
     (case v of
        T_table kvs \<Rightarrow> (case map_of kvs key of None \<Rightarrow> Inl Toml_exception | Some x \<Rightarrow> Inr x)
      | _ \<Rightarrow> Inl Type_error)"

fun demo_strings :: "demo_toml list \<Rightarrow> string list toml_result" where
  "demo_strings [] = Inr []"
| "demo_strings (T_str s # vs) = (case demo_strings vs of Inl e \<Rightarrow> Inl e | Inr ss \<Rightarrow> Inr (s # ss))"
| "demo_strings (v # vs) = Inl Type_error"

definition demo_typed :: "(demo_toml \<Rightarrow> 'a option) \<Rightarrow> demo_toml \<Rightarrow> string \<Rightarrow> 'a toml_result" where
  "demo_typed get v key =
     (case demo_find v key of
        Inl e \<Rightarrow> Inl e
      | Inr x \<Rightarrow> (case get x of None \<Rightarrow> Inl Type_error | Some a \<Rightarrow> Inr a))"

definition demo_lib :: "demo_toml \<Rightarrow> demo_toml toml_lib" where
  "demo_lib file =
     \<lparr>toml_parse = (\<lambda>_. Inr file), find_value = demo_find,
      find_values = demo_typed (\<lambda>x. case x of T_list l \<Rightarrow> Some l | _ \<Rightarrow> None),
      find_string = demo_typed (\<lambda>x. case x of T_str s \<Rightarrow> Some s | _ \<Rightarrow> None),
      find_strings = demo_typed (\<lambda>x. case x of T_list l \<Rightarrow> (case demo_strings l of Inl _ \<Rightarrow> None | Inr ss \<Rightarrow> Some ss) | _ \<Rightarrow> None),
      find_bool = demo_typed (\<lambda>x. case x of T_bool b \<Rightarrow> Some b | _ \<Rightarrow> None),
      find_int = demo_typed (\<lambda>x. case x of T_int i \<Rightarrow> Some i | _ \<Rightarrow> None)\<rparr>"

definition demo_file :: demo_toml where
  "demo_file = T_table
     [(''global'', T_table [(''name'', T_str ''vearch''), (''data'', T_list [T_str ''datas/'']),
        (''level'', T_str ''info''), (''signkey'', T_str ''vearch''), (''skip_auth'', T_bool True)]),
      (''masters'', T_list [T_table [(''name'', T_str ''m1''), (''address'', T_str ''10.0.0.1''),
        (''api_port'', T_int 8817), (''etcd_port'', T_int 2378), (''etcd_peer_port'', T_int 2390),
        (''etcd_client_port'', T_int 2370)]]),
      (''router'', T_table [(''port'', T_int 9002), (''skip_auth'', T_bool True), (''hearbeat_interval_s'', T_int 5)]),
      (''ps'', T_table [(''rpc_port'', T_int 8081), (''raft_election_timeout_ms'', T_int 1000),
        (''raft_snap_interval_s'', T_int 30), (''hearbeat_interval_s'', T_int 3)])]"

definition empty_config :: toml_config where
  "empty_config =
     \<lparr>tc_global = \<lparr>gc_name = '''', gc_data = [], gc_level = '''', gc_signkey = '''', gc_skip_auth = False\<rparr>,
      tc_masters = [], tc_router = \<lparr>rc_port = 0, rc_skip_auth = False, rc_hearbeat_interval_s = 0\<rparr>,
      tc_ps = \<lparr>pc_rpc_port = 0, pc_raft_election_timeout_ms = 0, pc_raft_snap_interval_s = 0,
        pc_hearbeat_interval_s = 0\<rparr>, tc_master_urls = []\<rparr>"

lemma TomlConfig_Load_masters_witness:
  "length (tc_masters (snd (TomlConfig_Load (demo_lib demo_file) ''config.toml'' empty_config))) = 1"
proof -
  have parse: "toml_parse (demo_lib demo_file) ''config.toml'' = Inr demo_file" by (simp add: demo_lib_def)
  have "fst (TomlConfig_Load (demo_lib demo_file) ''config.toml'' empty_config) = ''''"
    by (simp add: TomlConfig_Load_def demo_lib_def demo_file_def demo_typed_def demo_find_def with_section_def
        global_steps_def router_steps_def ps_steps_def master_step_def assign_def)
  then obtain c' where load: "TomlConfig_Load (demo_lib demo_file) ''config.toml'' empty_config = ('''', c')"
    by (metis prod.collapse)
  have "tc_masters empty_config = []" "tc_master_urls empty_config = []" by (simp_all add: empty_config_def)
  from TomlConfig_Load_masters [OF parse load this] obtain vs where
    "find_values (demo_lib demo_file) demo_file ''masters'' = Inr vs" "length (tc_masters c') = length vs" by blast
  with load show ?thesis by (auto simp: demo_lib_def demo_typed_def demo_find_def demo_file_def)
qed

end
