(* ===== verification/Raft_Store.thy ===== *)
theory Raft_Store
  imports Dto Engine Config
begin

text \<open>
  The replicated store of a partition server: \<open>raft_store/raft_store.h\<close> and
  \<open>raft_store/raft_store.cc\<close>. \<open>Block\<close> is the state machine braft drives;
  \<open>RaftManager\<close> owns the one block of the process.

  The braft node, the protobuf serialisation, the byte order functions and the gamma engine are
  not part of the repository. They are the records \<open>braft\<close>, \<open>protobuf\<close>, \<open>net_order\<close> and
  \<open>gamma\<close> of functions over states the model does not look into. A \<open>butil::IOBuf\<close> is
  the string of its bytes. A write either answers at once or hands a task to braft; the
  committed tasks come back to \<open>on_apply\<close>, with the closure on the node that took the write and
  without it on the others.
\<close>

subsection \<open>Libraries\<close>

record protobuf =
  request_size :: "block_request \<Rightarrow> nat"
  serialize_request :: "block_request \<Rightarrow> string option"
  parse_request :: "string \<Rightarrow> block_request option"
  serialize_document :: "pb_document \<Rightarrow> string option"
  parse_document :: "string \<Rightarrow> pb_document option"

record net_order =
  HostToNet32 :: "int \<Rightarrow> int"
  NetToHost32 :: "int \<Rightarrow> int"

record 'g gamma =
  InitEngine :: "string \<Rightarrow> string \<Rightarrow> 'g \<Rightarrow> 'g"
  CreateTable :: "table_call list \<Rightarrow> 'g \<Rightarrow> (int \<times> string) \<times> 'g"
  gamma_Load :: "'g \<Rightarrow> int \<times> 'g"
  gamma_Close :: "'g \<Rightarrow> 'g"
  AddOrUpdateDoc :: "gamma_field list \<Rightarrow> 'g \<Rightarrow> int \<times> 'g"
  GetDocByID :: "string \<Rightarrow> 'g \<Rightarrow> int \<times> (string \<times> gamma_field) list"

record node_options =
  no_group :: string
  no_addr :: string
  no_initial_conf :: string
  no_election_timeout_ms :: int
  no_snapshot_interval_s :: int
  no_log_uri :: string
  no_raft_meta_uri :: string
  no_snapshot_uri :: string
  no_disable_cli :: bool

record 'n braft =
  str2endpoint :: "string \<Rightarrow> string option"
  parse_from :: "string \<Rightarrow> bool"
  node_init :: "node_options \<Rightarrow> int \<times> 'n"
  leader_id :: "'n \<Rightarrow> string"
  node_shutdown :: "'n \<Rightarrow> 'n"
  node_join :: "'n \<Rightarrow> 'n"
  node_snapshot :: "'n \<Rightarrow> 'n"

definition protobuf_spec :: "protobuf \<Rightarrow> bool" where
  "protobuf_spec pb \<longleftrightarrow>
     (\<forall>r b. serialize_request pb r = Some b \<longrightarrow> length b = request_size pb r \<and> parse_request pb b = Some r)"

definition net_order_spec :: "net_order \<Rightarrow> bool" where
  "net_order_spec no \<longleftrightarrow>
     (\<forall>i. is_uint32 i \<longrightarrow> is_uint32 (HostToNet32 no i) \<and> NetToHost32 no (HostToNet32 no i) = i)"

subsection \<open>The block\<close>

record 'n block =
  bl_node :: "'n option"
  bl_leader_term :: int
  bl_fd :: "int option"
  bl_root_path :: string
  bl_group :: string
  bl_conf :: string
  bl_port :: int
  bl_check_term :: bool
  bl_space :: pb_space

text \<open>A block before \<open>start\<close>. The constructor leaves the port and the term check unset; nothing
  reads them before \<open>start\<close> sets them.\<close>

definition new_block :: "'n block" where
  "new_block =
     \<lparr>bl_node = None, bl_leader_term = - 1, bl_fd = None, bl_root_path = '''', bl_group = '''',
      bl_conf = '''', bl_port = 0, bl_check_term = False, bl_space = empty_space\<rparr>"

definition release_fd :: "int option \<Rightarrow> file_system \<Rightarrow> file_system" where
  "release_fd fd fs = (case fd of None \<Rightarrow> fs | Some n \<Rightarrow> if n \<ge> 0 then sys_close n fs else fs)"

definition raft_options :: "toml_config \<Rightarrow> string \<Rightarrow> string \<Rightarrow> string \<Rightarrow> string \<Rightarrow> node_options" where
  "raft_options tc root_path grp addr conf =
     (let pre = ''local://'' @ root_path
      in \<lparr>no_group = grp, no_addr = addr, no_initial_conf = conf,
          no_election_timeout_ms = pc_raft_election_timeout_ms (tc_ps tc),
          no_snapshot_interval_s = pc_raft_snap_interval_s (tc_ps tc),
          no_log_uri = pre @ ''/log'', no_raft_meta_uri = pre @ ''/raft_meta'',
          no_snapshot_uri = pre @ ''/snapshot'', no_disable_cli = True\<rparr>)"

definition Block_start ::
  "butil \<Rightarrow> 'n braft \<Rightarrow> toml_config \<Rightarrow> string \<Rightarrow> string \<Rightarrow> string \<Rightarrow> string \<Rightarrow> int \<Rightarrow> pb_space
     \<Rightarrow> 'n block \<Rightarrow> file_system \<Rightarrow> int \<times> 'n block \<times> file_system" where
  "Block_start bu br tc root_path grp conf my_ip port space b fs =
     (let b1 = b\<lparr>bl_root_path := root_path, bl_group := grp, bl_conf := conf, bl_port := port,
                 bl_check_term := True, bl_space := space\<rparr>;
          (created, fs1) = CreateDirectory bu root_path fs
      in if \<not> created then (- 1, b1, fs1)
         else
           let (fd, fs2) = sys_open (root_path @ ''/data'') fs1
           in if fd < 0 then (- 1, b1, fs2)
              else
                let b2 = b1\<lparr>bl_fd := Some fd\<rparr>;
                    fs3 = release_fd (bl_fd b) fs2
                in case str2endpoint br (my_ip @ '':'' @ to_string port) of
                     None \<Rightarrow> (- 1, b2, fs3)
                   | Some addr \<Rightarrow>
                       if \<not> parse_from br conf then (- 1, b2, fs3)
                       else
                         let (rc, node) = node_init br (raft_options tc root_path grp addr conf)
                         in if rc \<noteq> 0 then (- 1, b2, fs3) else (0, b2\<lparr>bl_node := Some node\<rparr>, fs3))"

definition is_leader :: "'n block \<Rightarrow> bool" where
  "is_leader b \<longleftrightarrow> bl_leader_term b > 0"

definition redirect :: "'n braft \<Rightarrow> 'n block \<Rightarrow> block_response \<Rightarrow> block_response" where
  "redirect br b r =
     (let r1 = r\<lparr>resp_success := Some False\<rparr>
      in case bl_node b of
           None \<Rightarrow> r1
         | Some node \<Rightarrow>
             if leader_id br node \<noteq> '''' then r1\<lparr>resp_redirect := leader_id br node\<rparr> else r1)"

text \<open>What a write hands to braft: the log entry, the closure, and the term it is valid for.\<close>

record closure =
  cl_request :: block_request
  cl_response :: block_response
  cl_data :: string

record task =
  tk_data :: string
  tk_done :: closure
  tk_expected_term :: "int option"

datatype write_result = Answered block_response | Applied_to_log task

definition log_entry :: "net_order \<Rightarrow> protobuf \<Rightarrow> block_request \<Rightarrow> string \<Rightarrow> string option" where
  "log_entry no pb request data =
     map_option (\<lambda>body. store_u32 (HostToNet32 no (uint32_of (int (request_size pb request)))) @ body @ data)
       (serialize_request pb request)"

definition Block_write ::
  "net_order \<Rightarrow> protobuf \<Rightarrow> 'n braft \<Rightarrow> block_request \<Rightarrow> block_response \<Rightarrow> string \<Rightarrow> 'n block
     \<Rightarrow> write_result ub" where
  "Block_write no pb br request response data b =
     (if bl_leader_term b < 0 then Some (Answered (redirect br b response))
      else
        case log_entry no pb request data of
          None \<Rightarrow> Some (Answered (response\<lparr>resp_success := Some False\<rparr>))
        | Some log \<Rightarrow>
            if bl_node b = None then None
            else Some (Applied_to_log
              \<lparr>tk_data = log,
               tk_done = \<lparr>cl_request = request, cl_response = response, cl_data = data\<rparr>,
               tk_expected_term = (if bl_check_term b then Some (bl_leader_term b) else None)\<rparr>))"

text \<open>A read returns the response and the attachment.\<close>

definition Block_read ::
  "'g gamma \<Rightarrow> protobuf \<Rightarrow> 'n braft \<Rightarrow> block_request \<Rightarrow> block_response \<Rightarrow> string \<Rightarrow> 'n block \<Rightarrow> 'g
     \<Rightarrow> (block_response \<times> string) ub" where
  "Block_read ga pb br request response buf b g =
     (if \<not> is_leader b then Some (redirect br b response, buf)
      else
        let doc_key = br_key request;
            (code, gamma_doc) = GetDocByID ga doc_key g
        in if code \<noteq> 0 then
             Some (response\<lparr>resp_msg := ''gamma engine get failed, key:'' @ doc_key, resp_success := Some False\<rparr>, buf)
           else do {
             pb_doc \<leftarrow> GammaDocToPbDoc gamma_doc;
             Some (case serialize_document pb pb_doc of
                 None \<Rightarrow>
                   (response\<lparr>resp_msg := ''SerializeToString gamma_doc failed, key:'' @ doc_key,
                      resp_success := Some False\<rparr>, buf)
               | Some data_buf \<Rightarrow> (response\<lparr>resp_success := Some True\<rparr>, data_buf))
           })"

definition Block_shutdown :: "'n braft \<Rightarrow> 'n block \<Rightarrow> 'n block" where
  "Block_shutdown br b = b\<lparr>bl_node := map_option (node_shutdown br) (bl_node b)\<rparr>"

definition Block_join :: "'n braft \<Rightarrow> 'n block \<Rightarrow> 'n block" where
  "Block_join br b = b\<lparr>bl_node := map_option (node_join br) (bl_node b)\<rparr>"

definition on_leader_start :: "int \<Rightarrow> 'n block \<Rightarrow> 'n block" where
  "on_leader_start tm b = b\<lparr>bl_leader_term := tm\<rparr>"

definition on_leader_stop :: "'n block \<Rightarrow> 'n block" where
  "on_leader_stop b = b\<lparr>bl_leader_term := - 1\<rparr>"

subsection \<open>Committed entries\<close>

record entry =
  et_done :: "closure option"
  et_data :: string

text \<open>
  Cutting the request off the log: \<open>cutn\<close> moves as many bytes as there are, and a size that
  is cut short keeps the zeros it was initialised with. A request that does not parse fails a
  \<open>CHECK\<close>, which aborts the process.
\<close>

definition cut_entry :: "net_order \<Rightarrow> protobuf \<Rightarrow> string \<Rightarrow> (block_request \<times> string) ub" where
  "cut_entry no pb log = do {
     raw \<leftarrow> load_u32 (take 4 log @ replicate (4 - length log) (CHR 0x00));
     let meta_size = nat (NetToHost32 no raw);
     let rest = drop 4 log;
     request \<leftarrow> parse_request pb (take meta_size rest);
     Some (request, drop meta_size rest)
   }"

definition fail_response :: "msg \<Rightarrow> block_response \<Rightarrow> block_response" where
  "fail_response m r = r\<lparr>resp_success := Some False, resp_msg := m\<rparr>"

definition apply_entry ::
  "net_order \<Rightarrow> protobuf \<Rightarrow> 'g gamma \<Rightarrow> pb_space \<Rightarrow> entry \<Rightarrow> 'g
     \<Rightarrow> (bool \<times> block_response option \<times> 'g) ub" where
  "apply_entry no pb ga space e g = do {
     (data, response) \<leftarrow>
       (case et_done e of
          Some c \<Rightarrow> Some (cl_data c, Some (cl_response c))
        | None \<Rightarrow> map_option (\<lambda>(request, data). (data, None)) (cut_entry no pb (et_data e)));
     Some (
       case parse_document pb data of
         None \<Rightarrow>
           (False, map_option (fail_response ''Fail to parse UpsertRequest from request stream'') response, g)
       | Some pb_doc \<Rightarrow>
           let cmsg = CheckPbDoc pb_doc; m = ''''
           in if m = '''' then
                let gamma_doc = snd (PbDocToGammaDoc pb_doc space);
                    (code, g1) = AddOrUpdateDoc ga gamma_doc g
                in if code \<noteq> 0 then
                     (False, map_option (fail_response (''Fail to write doc to gamma, code: '' @ to_string code)) response, g1)
                   else (True, map_option (\<lambda>r. r\<lparr>resp_success := Some True\<rparr>) response, g1)
              else (False, map_option (fail_response m) response, g))
   }"

text \<open>
  The batch: the responses of the entries in order, whether the batch went through (a failing
  entry rolls back and ends it), and the engine.
\<close>

fun on_apply ::
  "net_order \<Rightarrow> protobuf \<Rightarrow> 'g gamma \<Rightarrow> pb_space \<Rightarrow> entry list \<Rightarrow> 'g
     \<Rightarrow> (bool \<times> block_response option list \<times> 'g) ub" where
  "on_apply no pb ga space [] g = Some (True, [], g)"
| "on_apply no pb ga space (e # es) g = do {
     (ok, r, g1) \<leftarrow> apply_entry no pb ga space e g;
     if ok then do {
       (ok', rs, g2) \<leftarrow> on_apply no pb ga space es g1;
       Some (ok', r # rs, g2)
     } else Some (False, [r], g1)
   }"

text \<open>The closure of a write, run when the task is applied (or failed).\<close>

definition BlockClosure_Run :: "'n braft \<Rightarrow> 'n block \<Rightarrow> bool \<Rightarrow> closure \<Rightarrow> block_response" where
  "BlockClosure_Run br b status_ok c =
     (if status_ok then cl_response c else redirect br b (cl_response c))"

subsection \<open>Snapshots\<close>

definition link_overwrite :: "string \<Rightarrow> string \<Rightarrow> file_system \<Rightarrow> int \<times> file_system" where
  "link_overwrite old_path new_path fs =
     (let (rc, fs1) = sys_unlink new_path fs
      in if rc < 0 \<and> node_at fs new_path \<noteq> None then (- 1, fs1) else sys_link old_path new_path fs1)"

text \<open>
  Saving: the engine writes its files under the path of the writer, which then takes their
  names; the last name it refuses is the error of the closure.
\<close>

definition save_snapshot ::
  "butil \<Rightarrow> (string \<Rightarrow> bool) \<Rightarrow> string \<Rightarrow> engine \<Rightarrow> file_system \<Rightarrow> msg option \<times> file_system" where
  "save_snapshot bu add_file snapshot_path en fs =
     (let (m, filenames, fs1) = Engine_Snapshot bu snapshot_path [] en fs
      in (foldl (\<lambda>st f. if add_file f then st else Some (''Fail to add file['' @ f @ ''] to writer'')) None filenames,
          fs1))"

definition on_snapshot_load ::
  "butil \<Rightarrow> string \<Rightarrow> 'n block \<Rightarrow> engine \<Rightarrow> file_system \<Rightarrow> (int \<times> engine \<times> file_system) ub" where
  "on_snapshot_load bu snapshot_path b en fs =
     (if is_leader b then None
      else do {
        (m, en1, fs1) \<leftarrow> Engine_CreatOrLoad bu snapshot_path en fs;
        Some (if m \<noteq> '''' then - 1 else 0, en1, fs1)
      })"

subsection \<open>The manager\<close>

definition DeleteBlock :: "butil \<Rightarrow> 'n block option \<Rightarrow> file_system \<Rightarrow> msg \<times> 'n block option \<times> file_system" where
  "DeleteBlock bu block fs =
     (case block of
        None \<Rightarrow> ('''', None, fs)
      | Some b \<Rightarrow>
          ('''', None, release_fd (bl_fd b) (snd (DeleteFile bu (bl_root_path b) True fs))))"

definition CreateBlock :: "butil \<Rightarrow> 'n block option \<Rightarrow> file_system \<Rightarrow> msg \<times> 'n block option \<times> file_system" where
  "CreateBlock bu block fs =
     (let (m, b, fs1) = DeleteBlock bu block fs in ('''', Some new_block, fs1))"

definition StartRaftServer ::
  "butil \<Rightarrow> 'n braft \<Rightarrow> toml_config \<Rightarrow> string \<Rightarrow> string \<Rightarrow> string \<Rightarrow> string \<Rightarrow> int \<Rightarrow> pb_space
     \<Rightarrow> 'n block option \<Rightarrow> file_system \<Rightarrow> msg \<times> 'n block option \<times> file_system" where
  "StartRaftServer bu br tc root_path grp conf my_ip port space block fs =
     (case block of
        None \<Rightarrow> (''block is nullptr'', None, fs)
      | Some b \<Rightarrow>
          let (rc, b1, fs1) = Block_start bu br tc root_path grp conf my_ip port space b fs
          in if rc \<noteq> 0 then (''Fail to start Block'', Some b1, fs1) else ('''', Some b1, fs1))"


subsection \<open>Log entries\<close>

lemma cut_log_entry:
  assumes "protobuf_spec pb" and "net_order_spec no" and "log_entry no pb request data = Some log"
    and "request_size pb request < 2 ^ 32"
  shows "cut_entry no pb log = Some (request, data)"
proof -
  let ?n = "int (request_size pb request)"
  from assms(3) obtain body where body: "serialize_request pb request = Some body"
    and log: "log = store_u32 (HostToNet32 no (uint32_of ?n)) @ body @ data"
    by (auto simp: log_entry_def)
  have n: "is_uint32 ?n" using assms(4) by (simp add: is_uint32_def)
  then have net: "is_uint32 (HostToNet32 no ?n)" "NetToHost32 no (HostToNet32 no ?n) = ?n" "uint32_of ?n = ?n"
    using assms(2) by (simp_all add: net_order_spec_def width_simps)
  from assms(1) body have pb: "length body = request_size pb request" "parse_request pb body = Some request"
    by (auto simp: protobuf_spec_def)
  have len: "length (store_u32 x) = 4" for x by (rule u32.enc_length)
  have "take 4 log @ replicate (4 - length log) (CHR 0x00) = store_u32 (HostToNet32 no ?n)"
    "drop 4 log = body @ data"
    using log net(3) len by simp_all
  with net u32.dec_enc_exact [OF net(1)] pb show ?thesis by (simp add: cut_entry_def)
qed

subsection \<open>What a replica applies\<close>

text \<open>
  The specification: a replica is the engine, and a log is a list of serialised documents; one
  after the other they are stored, until the first that cannot be parsed or stored.
\<close>

fun apply_data :: "protobuf \<Rightarrow> 'g gamma \<Rightarrow> pb_space \<Rightarrow> string list \<Rightarrow> 'g \<Rightarrow> bool \<times> 'g" where
  "apply_data pb ga space [] g = (True, g)"
| "apply_data pb ga space (d # ds) g =
     (case parse_document pb d of
        None \<Rightarrow> (False, g)
      | Some doc \<Rightarrow>
          let (code, g1) = AddOrUpdateDoc ga (snd (PbDocToGammaDoc doc space)) g
          in if code \<noteq> 0 then (False, g1) else apply_data pb ga space ds g1)"

text \<open>
  A committed entry: its bytes are a log entry some leader made; where the closure is present,
  its attachment is the data of that entry.
\<close>

definition committed :: "net_order \<Rightarrow> protobuf \<Rightarrow> entry \<Rightarrow> string \<Rightarrow> bool" where
  "committed no pb e data \<longleftrightarrow>
     (\<exists>request. log_entry no pb request data = Some (et_data e) \<and> request_size pb request < 2 ^ 32) \<and>
     (\<forall>c. et_done e = Some c \<longrightarrow> cl_data c = data)"

lemma apply_entry_data:
  assumes "protobuf_spec pb" and "net_order_spec no" and "committed no pb e data"
  shows "\<exists>r. apply_entry no pb ga space e g =
    (case parse_document pb data of
        None \<Rightarrow> Some (False, r, g)
      | Some doc \<Rightarrow>
          let (code, g1) = AddOrUpdateDoc ga (snd (PbDocToGammaDoc doc space)) g in Some (code = 0, r, g1)) \<and>
    (r = None \<longleftrightarrow> et_done e = None)"
proof -
  have "(case et_done e of Some c \<Rightarrow> Some (cl_data c, Some (cl_response c))
      | None \<Rightarrow> map_option (\<lambda>(request, data). (data, None)) (cut_entry no pb (et_data e))) =
      Some (data, map_option cl_response (et_done e))"
    using assms(3) cut_log_entry [OF assms(1,2)] by (auto simp: committed_def split: option.split)
  then show ?thesis
    by (cases "et_done e") (auto simp: apply_entry_def Let_def split: option.split prod.split)
qed

lemma on_apply_data:
  assumes "protobuf_spec pb" and "net_order_spec no" and "list_all2 (committed no pb) es ds"
  shows "\<exists>rs. on_apply no pb ga space es g =
    Some (fst (apply_data pb ga space ds g), rs, snd (apply_data pb ga space ds g))"
  using assms(3)
proof (induction es ds arbitrary: g rule: list_all2_induct)
  case Nil
  then show ?case by simp
next
  case (Cons e es d ds)
  obtain r where r: "apply_entry no pb ga space e g =
    (case parse_document pb d of
        None \<Rightarrow> Some (False, r, g)
      | Some doc \<Rightarrow>
          let (code, g1) = AddOrUpdateDoc ga (snd (PbDocToGammaDoc doc space)) g in Some (code = 0, r, g1))"
    using apply_entry_data [OF assms(1,2) Cons.hyps(1), of ga space g] by blast
  show ?case
  proof (cases "parse_document pb d")
    case None
    with r show ?thesis by simp
  next
    case (Some doc)
    obtain code g1 where g1: "AddOrUpdateDoc ga (snd (PbDocToGammaDoc doc space)) g = (code, g1)"
      by (cases "AddOrUpdateDoc ga (snd (PbDocToGammaDoc doc space)) g")
    obtain rs where "on_apply no pb ga space es g1 =
        Some (fst (apply_data pb ga space ds g1), rs, snd (apply_data pb ga space ds g1))"
      using Cons.IH by blast
    with r g1 Some show ?thesis by (cases "code = 0") simp_all
  qed
qed


text \<open>C1: two replicas that apply the same committed entries from the same engine, the one that took
  the writes reading their closures and the other parsing the log, agree on whether the batch
  went through and on the engine they end with; neither runs into undefined behaviour, and both
  follow the specification of applying the documents in order up to the first that fails.\<close>

theorem replicas_agree:
  assumes "protobuf_spec pb" and "net_order_spec no"
    and "list_all2 (committed no pb) es ds" and "list_all2 (committed no pb) es' ds"
  shows "\<exists>ok rs rs' g'. on_apply no pb ga space es g = Some (ok, rs, g') \<and>
    on_apply no pb ga space es' g = Some (ok, rs', g') \<and> apply_data pb ga space ds g = (ok, g')"
  using on_apply_data [OF assms(1-3), of ga space g] on_apply_data [OF assms(1,2,4), of ga space g]
  by (metis prod.collapse)

lemma apply_entry_response:
  assumes "apply_entry no pb ga space e g = Some (ok, r, g')"
  shows "(r = None \<longleftrightarrow> et_done e = None) \<and> (\<forall>x. r = Some x \<longrightarrow> success x = ok)"
  using assms
  by (auto simp: apply_entry_def Let_def fail_response_def success_def bind_eq_Some_conv case_prod_unfold
      split: option.splits if_splits)

text \<open>C26: a batch answers its writes truthfully: the entries processed are a prefix of the batch, the
  whole of it when it went through; a processed entry has a response exactly when it has a
  closure, and the response says success for every entry of the prefix, except for the last
  one when the batch was rolled back.\<close>

theorem on_apply_responses:
  assumes "on_apply no pb ga space es g = Some (ok, rs, g')"
  shows "length rs \<le> length es \<and> (ok \<longrightarrow> length rs = length es) \<and> (\<not> ok \<longrightarrow> rs \<noteq> []) \<and>
    (\<forall>i < length rs. (rs ! i = None \<longleftrightarrow> et_done (es ! i) = None) \<and>
       (\<forall>r. rs ! i = Some r \<longrightarrow> success r = (ok \<or> Suc i < length rs)))"
  using assms
proof (induction es arbitrary: g rs)
  case Nil
  then show ?case by simp
next
  case (Cons e es)
  from Cons.prems obtain ok1 r g1 where e: "apply_entry no pb ga space e g = Some (ok1, r, g1)"
    by (auto simp: bind_eq_Some_conv)
  note resp = apply_entry_response [OF e]
  show ?case
  proof (cases ok1)
    case True
    with e Cons.prems obtain rs' where rs': "on_apply no pb ga space es g1 = Some (ok, rs', g')" "rs = r # rs'"
      by (auto simp: bind_eq_Some_conv)
    with Cons.IH [OF rs'(1)] resp True show ?thesis
      by (auto simp: less_Suc_eq_0_disj)
  next
    case False
    with e Cons.prems resp show ?thesis by auto
  qed
qed

subsection \<open>Leadership\<close>

text \<open>
  The life of a block in its process: it is started, and braft tells it when it becomes the leader
  (only a started node does, and terms are positive) and when it stops being it.
\<close>

inductive block_reachable :: "butil \<Rightarrow> 'n braft \<Rightarrow> 'n block \<Rightarrow> bool" for bu br where
  created: "block_reachable bu br new_block"
| started: "block_reachable bu br (fst (snd (Block_start bu br tc root_path grp conf my_ip port space b fs)))"
    if "block_reachable bu br b"
| elected: "block_reachable bu br (on_leader_start tm b)"
    if "block_reachable bu br b" and "bl_node b \<noteq> None" and "0 < tm"
| stepped_down: "block_reachable bu br (on_leader_stop b)" if "block_reachable bu br b"
| stopped: "block_reachable bu br (Block_shutdown br b)" if "block_reachable bu br b"
| joined: "block_reachable bu br (Block_join br b)" if "block_reachable bu br b"

definition leader_ok :: "'n block \<Rightarrow> bool" where
  "leader_ok b \<longleftrightarrow> (bl_leader_term b = - 1 \<or> (0 < bl_leader_term b \<and> bl_node b \<noteq> None))"

lemma Block_start_keeps:
  "bl_leader_term (fst (snd (Block_start bu br tc root_path grp conf my_ip port space b fs))) = bl_leader_term b"
  "bl_node b \<noteq> None \<Longrightarrow>
     bl_node (fst (snd (Block_start bu br tc root_path grp conf my_ip port space b fs))) \<noteq> None"
  by (simp_all add: Block_start_def Let_def split: prod.split option.split)

lemma block_reachable_leader_ok: "block_reachable bu br b \<Longrightarrow> leader_ok b"
proof (induction rule: block_reachable.induct)
  case (started b)
  then show ?case unfolding leader_ok_def by (metis Block_start_keeps)
qed (auto simp: leader_ok_def new_block_def on_leader_start_def on_leader_stop_def Block_shutdown_def Block_join_def)

text \<open>Over the life of a block, a write never dereferences a missing node; it reaches the log
  exactly when the block is the leader and the request serialises, carrying the term of the
  leadership and a log entry from which the request and the data can be cut again; otherwise the
  client is told that the write failed, with the leader to turn to when the block is not the
  leader and braft knows one.\<close>

lemma Block_write_outcome:
  assumes "block_reachable bu br b" and "protobuf_spec pb" and "net_order_spec no"
    and "request_size pb request < 2 ^ 32"
  shows "case Block_write no pb br request response data b of
      None \<Rightarrow> False
    | Some (Applied_to_log t) \<Rightarrow>
        is_leader b \<and> cut_entry no pb (tk_data t) = Some (request, data) \<and>
        tk_expected_term t = (if bl_check_term b then Some (bl_leader_term b) else None) \<and>
        tk_done t = \<lparr>cl_request = request, cl_response = response, cl_data = data\<rparr>
    | Some (Answered r) \<Rightarrow>
        \<not> success r \<and>
        (if is_leader b then serialize_request pb request = None
         else \<forall>node. bl_node b = Some node \<and> leader_id br node \<noteq> '''' \<longrightarrow> resp_redirect r = leader_id br node)"
proof -
  have lead: "leader_ok b" using assms(1) by (rule block_reachable_leader_ok)
  show ?thesis
  proof (cases "bl_leader_term b < 0")
    case True
    then show ?thesis
      by (simp add: Block_write_def redirect_def is_leader_def success_def Let_def split: option.split)
  next
    case False
    with lead have "is_leader b" "bl_node b \<noteq> None" by (auto simp: leader_ok_def is_leader_def)
    with False cut_log_entry [OF assms(2,3) _ assms(4)] show ?thesis
      by (cases "log_entry no pb request data")
        (auto simp: Block_write_def success_def log_entry_def)
  qed
qed

subsection \<open>Documents that do not convert\<close>

text \<open>An entry whose document cannot be converted for the engine, because the id type of the space is
  not \<open>long\<close>, is not refused: the engine is handed a document without any field, and when it
  takes it the write is reported as successful.\<close>

lemma apply_entry_unconverted:
  assumes "str_or (sp_id_type space) \<noteq> LONG_SDTYPE"
    and "et_done e = Some c" and "parse_document pb (cl_data c) = Some doc"
    and "AddOrUpdateDoc ga [] g = (0, g')"
  shows "apply_entry no pb ga space e g = Some (True, Some ((cl_response c)\<lparr>resp_success := Some True\<rparr>), g')"
  using assms by (simp add: apply_entry_def PbDocToGammaDoc_def Let_def)


subsection \<open>Concrete libraries\<close>

definition demo_request :: block_request where
  "demo_request =
     \<lparr>br_db_name = ''db'', br_space_name = ''s'', br_impl_type = UPSERT, br_key_type = KT_STRING, br_key = ''k''\<rparr>"

definition demo_pb :: protobuf where
  "demo_pb =
     \<lparr>request_size = (\<lambda>_. 1),
      serialize_request = (\<lambda>r. if r = demo_request then Some ''R'' else None),
      parse_request = (\<lambda>b. if b = ''R'' then Some demo_request else None),
      serialize_document = (\<lambda>d. if d = demo_document then Some ''D'' else None),
      parse_document = (\<lambda>b. if b = ''D'' then Some demo_document else None)\<rparr>"

definition demo_no :: net_order where
  "demo_no = \<lparr>HostToNet32 = id, NetToHost32 = id\<rparr>"

definition demo_gamma :: "gamma_field list list gamma" where
  "demo_gamma =
     \<lparr>InitEngine = (\<lambda>_ _ g. g), CreateTable = (\<lambda>_ g. ((0, ''''), g)), gamma_Load = (\<lambda>g. (0, g)),
      gamma_Close = (\<lambda>g. []), AddOrUpdateDoc = (\<lambda>d g. (0, g @ [d])),
      GetDocByID = (\<lambda>k g. (if g = [] then 1 else 0, []))\<rparr>"

definition demo_braft :: "unit braft" where
  "demo_braft =
     \<lparr>str2endpoint = Some, parse_from = (\<lambda>_. True), node_init = (\<lambda>_. (0, ())), leader_id = (\<lambda>_. ''10.0.0.2:8081''),
      node_shutdown = id, node_join = id, node_snapshot = id\<rparr>"

lemma demo_specs: "protobuf_spec demo_pb" "net_order_spec demo_no"
  by (simp_all add: protobuf_spec_def demo_pb_def net_order_spec_def demo_no_def)

definition demo_closure :: closure where
  "demo_closure = \<lparr>cl_request = demo_request, cl_response = empty_response, cl_data = ''D''\<rparr>"

definition demo_entry :: "closure option \<Rightarrow> entry" where
  "demo_entry c = \<lparr>et_done = c, et_data = store_u32 1 @ ''RD''\<rparr>"

lemma demo_committed: "committed demo_no demo_pb (demo_entry (Some demo_closure)) ''D''"
  "committed demo_no demo_pb (demo_entry None) ''D''"
proof -
  have "log_entry demo_no demo_pb demo_request ''D'' = Some (store_u32 1 @ ''RD'')"
    by (simp add: log_entry_def demo_pb_def demo_no_def uint32_of_def)
  then show "committed demo_no demo_pb (demo_entry (Some demo_closure)) ''D''"
    "committed demo_no demo_pb (demo_entry None) ''D''"
    by (auto simp: committed_def demo_entry_def demo_closure_def demo_pb_def intro!: exI [of _ demo_request])
qed

theorem replicas_agree_witness:
  "\<exists>ok rs rs' g'.
     on_apply demo_no demo_pb demo_gamma empty_space [demo_entry (Some demo_closure)] [] = Some (ok, rs, g') \<and>
     on_apply demo_no demo_pb demo_gamma empty_space [demo_entry None] [] = Some (ok, rs', g') \<and>
     apply_data demo_pb demo_gamma empty_space [''D''] [] = (ok, g')"
  by (rule replicas_agree [OF demo_specs]) (simp_all add: demo_committed)

theorem on_apply_responses_witness:
  "\<exists>rs g'. on_apply demo_no demo_pb demo_gamma empty_space [demo_entry (Some demo_closure)] [] = Some (True, rs, g') \<and>
     length rs = 1"
proof -
  have "\<exists>rs g'. on_apply demo_no demo_pb demo_gamma empty_space [demo_entry (Some demo_closure)] [] = Some (True, rs, g')"
    by (simp add: apply_entry_def demo_entry_def demo_closure_def demo_pb_def demo_gamma_def Let_def)
  then obtain rs g' where
    run: "on_apply demo_no demo_pb demo_gamma empty_space [demo_entry (Some demo_closure)] [] = Some (True, rs, g')"
    by blast
  with on_apply_responses [OF run] show ?thesis by auto
qed

lemma Block_write_outcome_witness:
  "case Block_write demo_no demo_pb demo_braft demo_request empty_response ''D'' new_block of
     Some (Answered r) \<Rightarrow> \<not> success r | _ \<Rightarrow> False"
proof -
  have "block_reachable demo_butil demo_braft new_block" by (rule block_reachable.created)
  moreover have "request_size demo_pb demo_request < 2 ^ 32" by (simp add: demo_pb_def)
  ultimately show ?thesis
    using Block_write_outcome [OF _ demo_specs, of demo_butil demo_braft new_block demo_request "''D''" empty_response]
    by (auto simp: is_leader_def new_block_def split: option.splits write_result.splits)
qed

lemma apply_entry_unconverted_witness:
  "apply_entry demo_no demo_pb demo_gamma (empty_space\<lparr>sp_id_type := Some ''string''\<rparr>) (demo_entry (Some demo_closure)) [] =
     Some (True, Some (empty_response\<lparr>resp_success := Some True\<rparr>), [[]])"
  using apply_entry_unconverted [of "empty_space\<lparr>sp_id_type := Some ''string''\<rparr>" "demo_entry (Some demo_closure)" demo_closure
      demo_pb demo_document demo_gamma "[]" "[[]]" demo_no]
  by (simp add: sdtype_defs demo_entry_def demo_closure_def demo_pb_def demo_gamma_def)

end
