(* ===== verification/Rpc_Clients.thy ===== *)
theory Rpc_Clients
  imports Dto
begin

text \<open>
  The clients of the servers: \<open>common/brpc_options.cc\<close> (channels), \<open>clients/ps_rpc_client.cc\<close>
  (reads from a partition server), \<open>raft_store/raft_client.cc\<close> (writes to the leader of a raft
  group) and \<open>utils/brpc_http.h\<close> (calls to the masters).

  brpc and the route table of braft are not part of the repository. They are the record
  \<open>network\<close> of functions over a world \<open>'w\<close> the model does not look into: what a server
  answers is a function of the address, the request and the world. A call returns the error
  text of a failed call or the response. While a thread sleeps the world may change
  (\<open>sleep\<close>; the short pause after refreshing a leader is part of \<open>refresh_leader\<close>). The random
  generator behind \<open>GenRandomInt\<close> is part of that world too, and so are the JSON converters
  arguments of the operations that use them: a parser takes the message it fills, which it
  may leave partly filled when it fails.
\<close>

record 'w network =
  channel_init :: "string \<Rightarrow> 'w \<Rightarrow> bool \<times> 'w"
  rpc_get :: "string \<Rightarrow> get_request \<Rightarrow> 'w \<Rightarrow> (msg + get_response) \<times> 'w"
  rpc_write :: "string \<Rightarrow> block_request \<Rightarrow> string \<Rightarrow> 'w \<Rightarrow> (msg + block_response) \<times> 'w"
  rpc_search :: "string \<Rightarrow> 'w \<Rightarrow> (msg + search_response) \<times> 'w"
  rpc_mock_get :: "string \<Rightarrow> mock_get_request \<Rightarrow> 'w \<Rightarrow> (msg + mock_get_response) \<times> 'w"
  http_init :: "string \<Rightarrow> string \<Rightarrow> 'w \<Rightarrow> bool \<times> 'w"
  http_call :: "string \<Rightarrow> string \<Rightarrow> string \<Rightarrow> 'w \<Rightarrow> (msg + string) \<times> 'w"
  rand :: "int \<Rightarrow> int \<Rightarrow> 'w \<Rightarrow> int \<times> 'w"
  sleep :: "int \<Rightarrow> 'w \<Rightarrow> 'w"
  select_leader :: "string \<Rightarrow> 'w \<Rightarrow> string option"
  refresh_leader :: "string \<Rightarrow> 'w \<Rightarrow> bool \<times> 'w"
  update_leader :: "string \<Rightarrow> string \<Rightarrow> 'w \<Rightarrow> 'w"
  update_configuration :: "string \<Rightarrow> string \<Rightarrow> 'w \<Rightarrow> int \<times> 'w"
  IsAskedToQuit :: "'w \<Rightarrow> bool"

subsection \<open>Two buffers\<close>

text \<open>
  Connections are kept in two slots: readers use the active one while the other is rebuilt, and
  the switch is one assignment. What a reader relies on is that an update leaves the slot that
  was active alone.
\<close>

locale two_buffer =
  fixes active :: "'s \<Rightarrow> int"
    and slot :: "'s \<Rightarrow> int \<Rightarrow> 'a ub"
    and valid :: "'s \<Rightarrow> bool"
    and update :: "'x \<Rightarrow> 's \<Rightarrow> 's \<Rightarrow> bool"
  assumes active_range: "valid s \<Longrightarrow> active s \<in> {0, 1}"
    and slot_some: "valid s \<Longrightarrow> slot s (active s) \<noteq> None"
    and update_valid: "valid s \<Longrightarrow> update x s s' \<Longrightarrow> valid s'"
    and update_keeps: "valid s \<Longrightarrow> update x s s' \<Longrightarrow> slot s' (active s) = slot s (active s)"
    and update_active: "valid s \<Longrightarrow> update x s s' \<Longrightarrow> active s' \<in> {active s, (active s + 1) mod 2}"
begin

lemma reader_keeps_slot:
  assumes "valid s" and "update x s s'" and "slot s (active s) = Some a"
  shows "slot s' (active s) = Some a"
  using assms update_keeps by metis

lemma unpublished_update:
  assumes "valid s" and "update x s s'" and "active s' = active s"
  shows "slot s' (active s') = slot s (active s)"
  using assms update_keeps by metis

lemma always_a_slot:
  assumes "valid s" and "update x s s'"
  shows "slot s' (active s') \<noteq> None"
  using slot_some [OF update_valid [OF assms]] .

end

subsection \<open>Retries over a ring of servers\<close>

text \<open>
  Several clients try the servers of a list one after the other, wrapping around. What they
  share: an attempt at a server ends the loop or passes on to the next one, with some other
  state; and an attempt at a good server ends it well. Then as many attempts as there are
  servers are enough, wherever the loop starts.
\<close>

locale round_robin =
  fixes ring :: nat
    and loop :: "nat \<Rightarrow> nat \<Rightarrow> 's \<Rightarrow> 'r ub"
    and good :: "nat \<Rightarrow> bool"
    and served :: "'r \<Rightarrow> bool"
  assumes pass_on: "i < ring \<Longrightarrow>
      (\<exists>r. loop (Suc n) i s = Some r \<and> served r) \<or> (\<exists>s'. loop (Suc n) i s = loop n (Suc i mod ring) s')"
    and good_serves: "i < ring \<Longrightarrow> good i \<Longrightarrow> \<exists>r. loop (Suc n) i s = Some r \<and> served r"
begin

lemma reaches_after:
  assumes "i < ring" and "good ((i + k) mod ring)" and "k < n"
  shows "\<exists>r. loop n i s = Some r \<and> served r"
  using assms
proof (induction k arbitrary: i n s)
  case 0
  then obtain n' where n': "n = Suc n'" by (cases n) auto
  from 0 have "good i" by simp
  with good_serves [OF \<open>i < ring\<close>] show ?case unfolding n' by blast
next
  case (Suc k)
  then obtain n' where n': "n = Suc n'" "k < n'" by (cases n) auto
  have next_in: "Suc i mod ring < ring" using Suc.prems(1) by simp
  have "(Suc i mod ring + k) mod ring = (i + Suc k) mod ring" by (simp add: mod_simps)
  with Suc.IH [OF next_in _ n'(2)] Suc.prems(2) have "\<exists>r. loop n' (Suc i mod ring) s' = Some r \<and> served r" for s'
    by simp
  with pass_on [OF Suc.prems(1), of n' s] show ?case unfolding n' by metis
qed

lemma reaches_good:
  assumes "i < ring" and "j < ring" and "good j" and "ring \<le> n"
  shows "\<exists>r. loop n i s = Some r \<and> served r"
proof (rule reaches_after [OF assms(1)])
  show "good ((i + (j + ring - i) mod ring) mod ring)" using assms(1-3) by (simp add: mod_simps)
  have "(j + ring - i) mod ring < ring" using assms(1) by simp
  then show "(j + ring - i) mod ring < n" using assms(4) by simp
qed

end

text \<open>Loops that step to the next index before they use it start at the index before.\<close>

definition pred_idx :: "nat \<Rightarrow> nat \<Rightarrow> int" where
  "pred_idx ring i = (if i = 0 then int ring - 1 else int i - 1)"

lemma pred_idx_next: "i < ring \<Longrightarrow> pred_idx ring (Suc i mod ring) = int i"
  by (cases "Suc i = ring") (auto simp: pred_idx_def)

subsection \<open>Channels (\<open>common/brpc_options.cc\<close>)\<close>

text \<open>A stub is the address its channel was opened for.\<close>

record brpc_options =
  bo_stub :: "string option"
  bo_addr_port :: string

definition empty_brpc_options :: brpc_options where
  "empty_brpc_options = \<lparr>bo_stub = None, bo_addr_port = ''''\<rparr>"

definition BrpcOptions_Init :: "'w network \<Rightarrow> string \<Rightarrow> brpc_options \<Rightarrow> 'w \<Rightarrow> bool \<times> brpc_options \<times> 'w" where
  "BrpcOptions_Init net addr_port bo w =
     (let bo1 = bo\<lparr>bo_addr_port := addr_port\<rparr>;
          (ok, w1) = channel_init net addr_port w
      in if \<not> ok then (False, bo1, w1) else (True, bo1\<lparr>bo_stub := Some addr_port\<rparr>, w1))"

record raft_opt =
  ro_group :: string
  ro_conf :: string
  ro_leader :: string
  ro_stub :: "string option"
  ro_ok :: bool

definition empty_raft_opt :: raft_opt where
  "empty_raft_opt = \<lparr>ro_group = '''', ro_conf = '''', ro_leader = '''', ro_stub = None, ro_ok = False\<rparr>"

definition RaftOptions_Build :: "'w network \<Rightarrow> raft_opt \<Rightarrow> 'w \<Rightarrow> bool \<times> raft_opt \<times> 'w" where
  "RaftOptions_Build net ro w =
     (let (ok, w1) = channel_init net (ro_leader ro) w
      in if \<not> ok then (False, ro, w1) else (True, ro\<lparr>ro_stub := Some (ro_leader ro)\<rparr>, w1))"

subsection \<open>Reads from a partition server (\<open>clients/ps_rpc_client.cc\<close>)\<close>

definition QueryPsRpcImp :: "(msg + 'r) \<times> 'w \<Rightarrow> 'r \<Rightarrow> string \<Rightarrow> msg \<times> 'r \<times> 'w" where
  "QueryPsRpcImp call resp op_type =
     (case call of
        (Inl err, w) \<Rightarrow> (''Query Ps '' @ op_type @ '' rpc failed. error:'' @ err, resp, w)
      | (Inr r, w) \<Rightarrow> ('''', r, w))"

definition PsRpcClient_Init :: "'w network \<Rightarrow> string \<Rightarrow> brpc_options \<Rightarrow> 'w \<Rightarrow> msg \<times> brpc_options \<times> 'w" where
  "PsRpcClient_Init net addr_port bo w =
     (let (ok, bo1, w1) = BrpcOptions_Init net addr_port bo w
      in (if \<not> ok then ''Fail to initialize channel, addr_and_port:'' @ addr_port else '''', bo1, w1))"

definition PsRpcClient_Get :: "'w network \<Rightarrow> string list \<Rightarrow> get_response \<Rightarrow> brpc_options \<Rightarrow> 'w
    \<Rightarrow> msg \<times> get_response \<times> 'w" where
  "PsRpcClient_Get net keys resp bo w =
     (case bo_stub bo of
        None \<Rightarrow> (''addr_port:'' @ bo_addr_port bo @ '' stub is nullptr, not run Get()'', resp, w)
      | Some addr \<Rightarrow>
          QueryPsRpcImp (rpc_get net addr \<lparr>gq_db_name = '''', gq_space_name = '''', gq_ids = keys\<rparr> w) resp ''Get'')"

text \<open>\<open>Search\<close> uses its stub without a test, and drops what it gets.\<close>

definition PsRpcClient_Search :: "'w network \<Rightarrow> search_response \<Rightarrow> brpc_options \<Rightarrow> 'w \<Rightarrow> 'w ub" where
  "PsRpcClient_Search net resp bo w = do {
     addr \<leftarrow> bo_stub bo;
     let (m, r, w1) = QueryPsRpcImp (rpc_search net addr w) resp ''Search'';
     Some w1
   }"

definition PsRpcClient_MockGet :: "'w network \<Rightarrow> string list \<Rightarrow> mock_get_response \<Rightarrow> brpc_options \<Rightarrow> 'w
    \<Rightarrow> msg \<times> mock_get_response \<times> 'w" where
  "PsRpcClient_MockGet net keys resp bo w =
     (case bo_stub bo of
        None \<Rightarrow> (''addr_port:'' @ bo_addr_port bo @ '' stub is nullptr, not run MockGet()'', resp, w)
      | Some addr \<Rightarrow>
          QueryPsRpcImp (rpc_mock_get net addr \<lparr>mg_keys = keys, mg_key_type = Some 1\<rparr> w) resp ''MockGet'')"

subsection \<open>Calls to the masters (\<open>utils/brpc_http.h\<close>)\<close>

definition random_int :: "'w network \<Rightarrow> int \<Rightarrow> int \<Rightarrow> 'w \<Rightarrow> (int \<times> 'w) ub" where
  "random_int net lo hi w = do {
     i \<leftarrow> GenRandomInt (\<lambda>l h. fst (rand net l h w)) lo hi;
     Some (i, snd (rand net lo hi w))
   }"

type_synonym 'm to_json = "'m \<Rightarrow> bool \<times> string"
type_synonym 'm from_json = "string \<Rightarrow> 'm \<Rightarrow> bool \<times> 'm"

text \<open>The attempts of \<open>HttpPost\<close> with \<open>n\<close> left, the next one at index \<open>addr_idx\<close>.\<close>

fun http_loop :: "'w network \<Rightarrow> 'q to_json \<Rightarrow> 'r from_json \<Rightarrow> string list \<Rightarrow> string \<Rightarrow> 'q \<Rightarrow> nat \<Rightarrow> int \<Rightarrow> 'r \<Rightarrow> 'w
    \<Rightarrow> (int \<times> 'r \<times> 'w) ub" where
  "http_loop net to_json from_json ip_port_list path req 0 addr_idx resp w = Some (- 1, resp, w)"
| "http_loop net to_json from_json ip_port_list path req (Suc n) addr_idx resp w = do {
     ip_port \<leftarrow> at_ub ip_port_list addr_idx;
     let next_idx = (addr_idx + 1) mod int (length ip_port_list);
     let (ok, w1) = http_init net ip_port '''' w;
     if \<not> ok then http_loop net to_json from_json ip_port_list path req n next_idx resp w1
     else
       case http_call net ip_port path (snd (to_json req)) w1 of
         (Inl err, w2) \<Rightarrow> http_loop net to_json from_json ip_port_list path req n next_idx resp w2
       | (Inr resp_str, w2) \<Rightarrow>
           let (parsed, resp1) = from_json resp_str resp
           in if parsed then Some (0, resp1, w2)
              else http_loop net to_json from_json ip_port_list path req n next_idx resp1 w2
   }"

definition HttpPost :: "'w network \<Rightarrow> 'q to_json \<Rightarrow> 'r from_json \<Rightarrow> string list \<Rightarrow> string \<Rightarrow> 'q \<Rightarrow> 'r \<Rightarrow> int \<Rightarrow> 'w
    \<Rightarrow> (int \<times> 'r \<times> 'w) ub" where
  "HttpPost net to_json from_json ip_port_list path req resp max_retry w = do {
     (addr_idx, w1) \<leftarrow> random_int net 0 (int (length ip_port_list) - 1) w;
     http_loop net to_json from_json ip_port_list path req (nat (max_retry mod 2 ^ 64)) addr_idx resp w1
   }"

subsection \<open>Writes to the leader (\<open>raft_store/raft_client.cc\<close>)\<close>

record raft_client =
  rf_options :: "raft_opt list"
  rf_idx :: int

definition new_raft_client :: raft_client where
  "new_raft_client = \<lparr>rf_options = [], rf_idx = 0\<rparr>"

fun GetLeader :: "'w network \<Rightarrow> string \<Rightarrow> string \<Rightarrow> string \<Rightarrow> nat \<Rightarrow> 'w \<Rightarrow> msg \<times> string \<times> 'w" where
  "GetLeader net leader grp conf 0 w =
     (''Fail to select leader of group:['' @ grp @ ''] conf:['' @ conf @ '']'', leader, w)"
| "GetLeader net leader grp conf (Suc retries) w =
     (case select_leader net grp w of
        Some l \<Rightarrow> ('''', l, w)
      | None \<Rightarrow> GetLeader net leader grp conf retries (snd (refresh_leader net grp w)))"

definition CreateRaftConnection ::
  "'w network \<Rightarrow> string \<Rightarrow> string \<Rightarrow> int \<Rightarrow> raft_client \<Rightarrow> 'w \<Rightarrow> (msg \<times> raft_client \<times> 'w) ub" where
  "CreateRaftConnection net grp conf new_idx rf w = do {
     ro \<leftarrow> at_ub (rf_options rf) new_idx;
     let ro1 = ro\<lparr>ro_ok := False, ro_group := grp, ro_conf := conf\<rparr>;
     let put = (\<lambda>r. rf\<lparr>rf_options := (rf_options rf)[nat new_idx := r]\<rparr>);
     if \<not> IsAskedToQuit net w then
       (let (m, leader, w1) = GetLeader net (ro_leader ro1) grp conf 3 w;
            ro2 = ro1\<lparr>ro_leader := leader\<rparr>
        in if m \<noteq> '''' then Some (m, put ro2, w1)
           else
             let (ok, ro3, w2) = RaftOptions_Build net ro2 w1
             in if \<not> ok then Some (''Fail to connet brpc, leader:'' @ ro_leader ro3, put ro3, w2)
                else Some ('''', (put (ro3\<lparr>ro_ok := True\<rparr>))\<lparr>rf_idx := new_idx\<rparr>, w2))
     else Some (''Brpc IsAskedToQuit, not update raft connection.'', put ro1, w)
   }"

definition other_idx :: "raft_client \<Rightarrow> int" where
  "other_idx rf = (rf_idx rf + 1) mod 2"

definition send_failed_msg :: "raft_opt \<Rightarrow> msg \<Rightarrow> msg" where
  "send_failed_msg ro err = ''Fail to send request to '' @ ro_leader ro @ '' : '' @ err"

definition redirected_msg :: "raft_opt \<Rightarrow> block_response \<Rightarrow> msg" where
  "redirected_msg ro r =
     ''Fail to send request to '' @ ro_leader ro @ '', redirecting to '' @
     (if resp_redirect r \<noteq> '''' then resp_redirect r else ''nowhere'')"

text \<open>One write with \<open>n\<close> attempts left; \<open>m\<close> is the message of the last failure.\<close>

fun write_loop :: "'w network \<Rightarrow> block_request \<Rightarrow> string \<Rightarrow> nat \<Rightarrow> msg \<Rightarrow> block_response \<Rightarrow> raft_client \<Rightarrow> 'w
    \<Rightarrow> (msg \<times> block_response \<times> raft_client \<times> 'w) ub" where
  "write_loop net req data 0 m resp rf w = Some (m, resp, rf, w)"
| "write_loop net req data (Suc n) m resp rf w = do {
     ro \<leftarrow> at_ub (rf_options rf) (rf_idx rf);
     if \<not> ro_ok ro then do {
       (_, rf1, w1) \<leftarrow> CreateRaftConnection net (ro_group ro) (ro_conf ro) (other_idx rf) rf w;
       write_loop net req data n m empty_response rf1 w1
     }
     else do {
       addr \<leftarrow> ro_stub ro;
       case rpc_write net addr req data w of
         (Inl err, w1) \<Rightarrow> do {
           let w2 = update_leader net (ro_group ro) '''' w1;
           (_, rf1, w3) \<leftarrow> CreateRaftConnection net (ro_group ro) (ro_conf ro) (other_idx rf) rf w2;
           write_loop net req data n (send_failed_msg ro err) empty_response rf1 w3
         }
       | (Inr r, w1) \<Rightarrow>
           if \<not> success r then do {
             let w2 = update_leader net (ro_group ro) (resp_redirect r) w1;
             (_, rf1, w3) \<leftarrow> CreateRaftConnection net (ro_group ro) (ro_conf ro) (other_idx rf) rf w2;
             write_loop net req data n (redirected_msg ro r) r rf1 w3
           }
           else Some ('''', r, rf, w1)
     }
   }"

definition RaftClient_Write :: "'w network \<Rightarrow> block_request \<Rightarrow> string \<Rightarrow> block_response \<Rightarrow> raft_client \<Rightarrow> 'w
    \<Rightarrow> (msg \<times> block_response \<times> raft_client \<times> 'w) ub" where
  "RaftClient_Write net req data resp rf w = write_loop net req data 3 '''' resp rf w"

definition RaftClient_Init :: "'w network \<Rightarrow> string \<Rightarrow> string \<Rightarrow> raft_client \<Rightarrow> 'w \<Rightarrow> (msg \<times> raft_client \<times> 'w) ub" where
  "RaftClient_Init net grp conf rf w =
     (let rf1 = rf\<lparr>rf_options := take 2 (rf_options rf) @ replicate (2 - length (rf_options rf)) empty_raft_opt\<rparr>;
          (rc, w1) = update_configuration net grp conf w
      in if rc \<noteq> 0 then Some (''group:'' @ grp @ ''update_configuratione error'', rf1, w1)
         else do {
           (m, rf2, w2) \<leftarrow> CreateRaftConnection net grp conf 0 rf1 w1;
           if m \<noteq> '''' then Some (''Fail to get leader'', rf2, w2)
           else do {
             (m, rf3, w3) \<leftarrow> CreateRaftConnection net grp conf 1 rf2 w2;
             Some (if m \<noteq> '''' then ''Fail to get leader'' else '''', rf3, w3)
           }
         })"

subsection \<open>The connection of a raft client\<close>

definition raft_ok :: "raft_client \<Rightarrow> bool" where
  "raft_ok rf \<longleftrightarrow>
     length (rf_options rf) = 2 \<and> rf_idx rf \<in> {0, 1} \<and>
     (\<forall>ro \<in> set (rf_options rf). ro_ok ro \<longrightarrow> ro_stub ro = Some (ro_leader ro))"

definition raft_slot :: "raft_client \<Rightarrow> int \<Rightarrow> raft_opt ub" where
  "raft_slot rf i = at_ub (rf_options rf) i"

lemma GetLeader_msg: "GetLeader net l grp conf n w = (m, l', w') \<Longrightarrow> m = '''' \<Longrightarrow> select_leader net grp w' = Some l'"
  by (induction net l grp conf n w rule: GetLeader.induct) (auto split: option.splits)

text \<open>What rebuilding slot \<open>i\<close> does to the client.\<close>

definition rebuilt :: "string \<Rightarrow> string \<Rightarrow> int \<Rightarrow> raft_client \<Rightarrow> msg \<Rightarrow> raft_client \<Rightarrow> bool" where
  "rebuilt grp conf i rf m rf' \<longleftrightarrow>
     (\<exists>ro. rf' = \<lparr>rf_options = (rf_options rf)[nat i := ro], rf_idx = (if m = '''' then i else rf_idx rf)\<rparr> \<and>
        ro_group ro = grp \<and> ro_conf ro = conf \<and> ro_ok ro = (m = '''') \<and> (ro_ok ro \<longrightarrow> ro_stub ro = Some (ro_leader ro)))"

lemma CreateRaftConnection_rebuilt:
  assumes "0 \<le> i" and "i < int (length (rf_options rf))"
  obtains m rf' w' where "CreateRaftConnection net grp conf i rf w = Some (m, rf', w')" and "rebuilt grp conf i rf m rf'"
proof -
  let ?ro = "(rf_options rf ! nat i)\<lparr>ro_ok := False, ro_group := grp, ro_conf := conf\<rparr>"
  obtain m l w1 where g: "GetLeader net (ro_leader ?ro) grp conf 3 w = (m, l, w1)" by (metis prod_cases3)
  obtain ok w2 where c: "channel_init net l w1 = (ok, w2)" by fastforce
  have at: "at_ub (rf_options rf) i = Some (rf_options rf ! nat i)" using assms by (simp add: at_ub_def)
  show ?thesis
  proof (cases "IsAskedToQuit net w")
    case True
    with at have "CreateRaftConnection net grp conf i rf w = Some (''Brpc IsAskedToQuit, not update raft connection.'',
        rf\<lparr>rf_options := (rf_options rf)[nat i := ?ro]\<rparr>, w)"
      by (simp add: CreateRaftConnection_def Let_def)
    then show ?thesis by (rule that) (auto simp: rebuilt_def intro!: exI [of _ ?ro])
  next
    case quit: False
    show ?thesis
    proof (cases "m = '''' \<and> ok")
      case True
      let ?ro' = "?ro\<lparr>ro_leader := l, ro_stub := Some l, ro_ok := True\<rparr>"
      have "CreateRaftConnection net grp conf i rf w =
          Some ('''', rf\<lparr>rf_options := (rf_options rf)[nat i := ?ro'], rf_idx := i\<rparr>, w2)"
        using True quit at g c by (simp add: CreateRaftConnection_def Let_def RaftOptions_Build_def)
      then show ?thesis by (rule that) (auto simp: rebuilt_def intro!: exI [of _ ?ro'])
    next
      case False
      let ?ro' = "?ro\<lparr>ro_leader := l\<rparr>"
      have "\<exists>m' w'. m' \<noteq> '''' \<and> CreateRaftConnection net grp conf i rf w =
          Some (m', rf\<lparr>rf_options := (rf_options rf)[nat i := ?ro']\<rparr>, w')"
        using False quit at g c by (auto simp: CreateRaftConnection_def Let_def RaftOptions_Build_def)
      then obtain m' w' where "m' \<noteq> ''''" "CreateRaftConnection net grp conf i rf w =
          Some (m', rf\<lparr>rf_options := (rf_options rf)[nat i := ?ro']\<rparr>, w')" by blast
      from this(2) show ?thesis by (rule that) (use \<open>m' \<noteq> ''''\<close> in \<open>auto simp: rebuilt_def intro!: exI [of _ ?ro']\<close>)
    qed
  qed
qed

lemma rebuilt_raft_ok:
  assumes "raft_ok rf" and "rebuilt grp conf i rf m rf'" and "i \<in> {0, 1}"
  shows "raft_ok rf'"
  using assms by (auto simp: raft_ok_def rebuilt_def dest!: set_update_subset_insert [THEN subsetD])

lemma other_idx_range: "raft_ok rf \<Longrightarrow> other_idx rf \<in> {0, 1} \<and> other_idx rf \<noteq> rf_idx rf"
  by (auto simp: raft_ok_def other_idx_def)

lemma reconnect:
  assumes "raft_ok rf"
  obtains m rf' w' where "CreateRaftConnection net grp conf (other_idx rf) rf w = Some (m, rf', w')"
    and "rebuilt grp conf (other_idx rf) rf m rf'" and "raft_ok rf'"
proof -
  have "0 \<le> other_idx rf" "other_idx rf < int (length (rf_options rf))"
    using other_idx_range [OF assms] assms by (auto simp: raft_ok_def)
  then obtain m rf' w' where r: "CreateRaftConnection net grp conf (other_idx rf) rf w = Some (m, rf', w')"
    "rebuilt grp conf (other_idx rf) rf m rf'"
    by (rule CreateRaftConnection_rebuilt)
  with rebuilt_raft_ok [OF assms r(2)] other_idx_range [OF assms] that show ?thesis by blast
qed

definition raft_update :: "'w network \<times> string \<times> string \<times> 'w \<Rightarrow> raft_client \<Rightarrow> raft_client \<Rightarrow> bool" where
  "raft_update x rf rf' \<longleftrightarrow>
     (case x of (net, grp, conf, w) \<Rightarrow>
        \<exists>m w'. CreateRaftConnection net grp conf (other_idx rf) rf w = Some (m, rf', w'))"

interpretation raft_buffers: two_buffer rf_idx raft_slot raft_ok raft_update
proof
  fix rf rf' :: raft_client and x :: "'w network \<times> string \<times> string \<times> 'w"
  assume ok: "raft_ok rf"
  then show "rf_idx rf \<in> {0, 1}" by (simp add: raft_ok_def)
  from ok show "raft_slot rf (rf_idx rf) \<noteq> None" by (auto simp: raft_ok_def raft_slot_def at_ub_def)
  assume upd: "raft_update x rf rf'"
  obtain net grp conf w where x: "x = (net, grp, conf, w)" by (cases x)
  with upd obtain m w' where
    "CreateRaftConnection net grp conf (other_idx rf) rf w = Some (m, rf', w')"
    by (auto simp: raft_update_def)
  with reconnect [OF ok, of net grp conf w] have r: "rebuilt grp conf (other_idx rf) rf m rf'" "raft_ok rf'"
    by auto
  then show "raft_ok rf'" by simp
  have "nat (other_idx rf) \<noteq> nat (rf_idx rf)" using other_idx_range [OF ok] ok by (auto simp: raft_ok_def)
  with r show "raft_slot rf' (rf_idx rf) = raft_slot rf (rf_idx rf)"
    by (auto simp: rebuilt_def raft_slot_def at_ub_def)
  from r show "rf_idx rf' \<in> {rf_idx rf, (rf_idx rf + 1) mod 2}"
    by (auto simp: rebuilt_def other_idx_def)
qed


subsection \<open>Writes\<close>

lemma write_loop_outcome:
  assumes "raft_ok rf" and "\<not> success resp" and "m = '''' \<Longrightarrow> resp = empty_response"
  shows "\<exists>m' resp' rf' w'. write_loop net req data n m resp rf w = Some (m', resp', rf', w') \<and> raft_ok rf' \<and>
    (success resp' \<longrightarrow> m' = '''' \<and> (\<exists>addr w1. rpc_write net addr req data w1 = (Inr resp', w'))) \<and>
    (m' = '''' \<longrightarrow> success resp' \<or> resp' = empty_response)"
  using assms
proof (induction n arbitrary: m resp rf w)
  case 0
  then show ?case by auto
next
  case (Suc n)
  from Suc.prems(1) obtain ro where ro: "at_ub (rf_options rf) (rf_idx rf) = Some ro" "ro \<in> set (rf_options rf)"
    by (auto simp: raft_ok_def at_ub_def)
  have empty: "\<not> success empty_response" by (simp add: success_def empty_response_def)
  have again: ?case
    if "write_loop net req data (Suc n) m resp rf w = do {
          (_, rf1, w1) \<leftarrow> CreateRaftConnection net (ro_group ro) (ro_conf ro) (other_idx rf) rf w0;
          write_loop net req data n m1 resp1 rf1 w1 }"
      and "\<not> success resp1" and "m1 = '''' \<Longrightarrow> resp1 = empty_response" for w0 m1 resp1
  proof -
    obtain m2 rf1 w1 where "CreateRaftConnection net (ro_group ro) (ro_conf ro) (other_idx rf) rf w0 = Some (m2, rf1, w1)"
      "raft_ok rf1"
      using reconnect [OF Suc.prems(1)] by metis
    with Suc.IH [OF this(2) that(2,3)] that(1) show ?thesis by simp
  qed
  show ?case
  proof (cases "ro_ok ro")
    case False
    then show ?thesis using ro Suc.prems empty by (intro again [of w m empty_response]) simp_all
  next
    case ok: True
    with ro Suc.prems(1) have stub: "ro_stub ro = Some (ro_leader ro)" by (simp add: raft_ok_def)
    obtain res w1 where call: "rpc_write net (ro_leader ro) req data w = (res, w1)" by fastforce
    show ?thesis
    proof (cases res)
      case (Inl err)
      with ro ok stub call empty show ?thesis
        by (intro again [of "update_leader net (ro_group ro) '''' w1" "send_failed_msg ro err" empty_response])
          (simp_all add: send_failed_msg_def)
    next
      case (Inr r)
      show ?thesis
      proof (cases "success r")
        case True
        with ro ok stub call Inr Suc.prems(1) show ?thesis by auto
      next
        case False
        have "redirected_msg ro r \<noteq> ''''" by (simp add: redirected_msg_def)
        with False ro ok stub call Inr show ?thesis
          by (intro again [of "update_leader net (ro_group ro) (resp_redirect r) w1" "redirected_msg ro r" r]) simp_all
      qed
    qed
  qed
qed

lemma write_loop_clears: "write_loop net req data (Suc n) m resp rf w = write_loop net req data (Suc n) m resp' rf w"
  by simp

lemma RaftClient_Write_result:
  assumes "raft_ok rf"
  shows "\<exists>m' resp' rf' w'. RaftClient_Write net req data resp rf w = Some (m', resp', rf', w') \<and> raft_ok rf' \<and>
    (success resp' \<longrightarrow> m' = '''' \<and> (\<exists>addr w1. rpc_write net addr req data w1 = (Inr resp', w'))) \<and>
    (m' = '''' \<longrightarrow> success resp' \<or> resp' = empty_response)"
proof -
  have "\<not> success empty_response" by (simp add: success_def empty_response_def)
  from write_loop_outcome [OF assms this, of "''''" net req data 3 w] show ?thesis
    unfolding RaftClient_Write_def numeral_3_eq_3 write_loop_clears [of net req data _ _ resp rf w empty_response] by simp
qed


lemma reconnect_to_leader:
  assumes "raft_ok rf" and "\<not> IsAskedToQuit net w" and "select_leader net grp w = Some l" and "channel_init net l w = (True, w')"
  obtains rf' ro' where "CreateRaftConnection net grp conf (other_idx rf) rf w = Some ('''', rf', w')"
    and "raft_ok rf'" and "raft_slot rf' (rf_idx rf') = Some ro'" and "ro_ok ro'" and "ro_leader ro' = l"
    and "ro_stub ro' = Some l" and "ro_group ro' = grp" and "ro_conf ro' = conf"
proof -
  let ?i = "other_idx rf"
  let ?ro = "(rf_options rf ! nat ?i)\<lparr>ro_group := grp, ro_conf := conf, ro_leader := l, ro_stub := Some l, ro_ok := True\<rparr>"
  let ?rf = "rf\<lparr>rf_options := (rf_options rf)[nat ?i := ?ro], rf_idx := ?i\<rparr>"
  have i: "0 \<le> ?i" "?i < int (length (rf_options rf))"
    using other_idx_range [OF assms(1)] assms(1) by (auto simp: raft_ok_def)
  have run: "CreateRaftConnection net grp conf ?i rf w = Some ('''', ?rf, w')"
    using assms(2-4) i by (simp add: CreateRaftConnection_def at_ub_def Let_def numeral_3_eq_3 RaftOptions_Build_def)
  have "raft_ok ?rf" using reconnect [OF assms(1), of net grp conf w] run by force
  moreover have "raft_slot ?rf (rf_idx ?rf) = Some ?ro"
    using i by (simp add: raft_slot_def at_ub_def nat_less_iff)
  ultimately show ?thesis using that [OF run, of ?ro] by simp
qed

text \<open>A write that reaches a server which is not the leader any more follows its redirection: when the
  route table and the network let it reach the server it was sent to, and that one answers with
  success, the write succeeds within its three attempts, and the client stays connected to the
  new leader for the writes that follow.\<close>

lemma RaftClient_Write_redirect:
  assumes "raft_ok rf" and "raft_slot rf (rf_idx rf) = Some ro" and "ro_ok ro"
    and "rpc_write net (ro_leader ro) req data w = (Inr r1, w1)" and "\<not> success r1"
    and "w2 = update_leader net (ro_group ro) (resp_redirect r1) w1"
    and "\<not> IsAskedToQuit net w2" and "select_leader net (ro_group ro) w2 = Some (resp_redirect r1)"
    and "channel_init net (resp_redirect r1) w2 = (True, w3)"
    and "rpc_write net (resp_redirect r1) req data w3 = (Inr r2, w4)" and "success r2"
  shows "\<exists>rf' ro'. RaftClient_Write net req data resp rf w = Some ('''', r2, rf', w4) \<and> raft_ok rf' \<and>
    raft_slot rf' (rf_idx rf') = Some ro' \<and> ro_ok ro' \<and> ro_leader ro' = resp_redirect r1 \<and>
    ro_group ro' = ro_group ro \<and> ro_conf ro' = ro_conf ro"
proof -
  have at: "at_ub (rf_options rf) (rf_idx rf) = Some ro" using assms(2) by (simp add: raft_slot_def)
  then have "ro \<in> set (rf_options rf)" by (auto simp: at_ub_def split: if_splits)
  with assms(1,3) have stub: "ro_stub ro = Some (ro_leader ro)" by (simp add: raft_ok_def)
  obtain rf' ro' where rf': "CreateRaftConnection net (ro_group ro) (ro_conf ro) (other_idx rf) rf w2 = Some ('''', rf', w3)"
    "raft_ok rf'" "raft_slot rf' (rf_idx rf') = Some ro'" "ro_ok ro'" "ro_leader ro' = resp_redirect r1"
    "ro_stub ro' = Some (resp_redirect r1)" "ro_group ro' = ro_group ro" "ro_conf ro' = ro_conf ro"
    using reconnect_to_leader [OF assms(1,7,8,9)] by metis
  have "RaftClient_Write net req data resp rf w =
      write_loop net req data (Suc (Suc 0)) (redirected_msg ro r1) r1 rf' w3"
    using at assms(3-6) stub rf'(1) by (simp add: RaftClient_Write_def numeral_3_eq_3 del: write_loop.simps(2) add: write_loop.simps(2) [of net req data "Suc (Suc 0)"])
  also have "\<dots> = Some ('''', r2, rf', w4)"
    using rf'(3,4,6) assms(10,11) by (simp add: raft_slot_def)
  finally show ?thesis using rf' by blast
qed

lemma RaftClient_Init_result:
  "\<exists>m rf' w'. RaftClient_Init net grp conf new_raft_client w = Some (m, rf', w') \<and> raft_ok rf' \<and>
    (m = '''' \<longrightarrow> (\<exists>ro. raft_slot rf' (rf_idx rf') = Some ro \<and> ro_ok ro \<and> ro_stub ro = Some (ro_leader ro) \<and>
       ro_group ro = grp \<and> ro_conf ro = conf))"
proof -
  let ?rf = "\<lparr>rf_options = [empty_raft_opt, empty_raft_opt], rf_idx = 0\<rparr>"
  obtain rc w1 where u: "update_configuration net grp conf w = (rc, w1)" by fastforce
  have ok: "raft_ok ?rf" by (simp add: raft_ok_def empty_raft_opt_def)
  have start: "new_raft_client\<lparr>rf_options := take 2 (rf_options new_raft_client) @
      replicate (2 - length (rf_options new_raft_client)) empty_raft_opt\<rparr> = ?rf"
    by (simp add: new_raft_client_def numeral_2_eq_2)
  obtain m1 rf1 w2 where c1: "CreateRaftConnection net grp conf 0 ?rf w1 = Some (m1, rf1, w2)" "rebuilt grp conf 0 ?rf m1 rf1"
    using CreateRaftConnection_rebuilt [of 0 ?rf net grp conf w1] by auto
  then have ok1: "raft_ok rf1" using rebuilt_raft_ok [OF ok] by simp
  then obtain m2 rf2 w3 where c2: "CreateRaftConnection net grp conf 1 rf1 w2 = Some (m2, rf2, w3)" "rebuilt grp conf 1 rf1 m2 rf2"
    using CreateRaftConnection_rebuilt [of 1 rf1 net grp conf w2] by (auto simp: raft_ok_def)
  then have ok2: "raft_ok rf2" using rebuilt_raft_ok [OF ok1] by simp
  have "m2 = '''' \<Longrightarrow> \<exists>ro. raft_slot rf2 (rf_idx rf2) = Some ro \<and> ro_ok ro \<and> ro_stub ro = Some (ro_leader ro) \<and>
       ro_group ro = grp \<and> ro_conf ro = conf"
    using c2(2) ok1 by (auto simp: rebuilt_def raft_slot_def at_ub_def raft_ok_def)
  with u ok ok1 ok2 c1(1) c2(1) start show ?thesis
    unfolding RaftClient_Init_def Let_def by (cases "rc = 0"; cases "m1 = ''''") auto
qed

text \<open>Initialising a client gives two slots whatever the outcome; when it succeeds, the active slot is
  connected to the leader of the group the route table gave.\<close>

lemma RaftClient_Init_ok:
  "\<exists>m rf' w'. RaftClient_Init net grp conf new_raft_client w = Some (m, rf', w') \<and> raft_ok rf' \<and>
    (m = '''' \<longrightarrow> (\<exists>ro. raft_slot rf' (rf_idx rf') = Some ro \<and> ro_ok ro \<and> ro_stub ro = Some (ro_leader ro) \<and>
       ro_group ro = grp \<and> ro_conf ro = conf))"
  by (rule RaftClient_Init_result)

subsection \<open>Calls to the masters reach a good one\<close>

definition rand_spec :: "'w network \<Rightarrow> bool" where
  "rand_spec net \<longleftrightarrow> (\<forall>lo hi w. lo \<le> hi \<longrightarrow> lo \<le> fst (rand net lo hi w) \<and> fst (rand net lo hi w) \<le> hi)"

lemma random_int_range:
  assumes "rand_spec net" and "lo \<le> hi"
  obtains i w' where "random_int net lo hi w = Some (i, w')" and "lo \<le> i" and "i \<le> hi"
proof -
  from assms have "lo \<le> fst (rand net lo hi w)" "fst (rand net lo hi w) \<le> hi" by (simp_all add: rand_spec_def)
  with that [of "fst (rand net lo hi w)" "snd (rand net lo hi w)"] assms(2) show thesis
    by (simp add: random_int_def GenRandomInt_def)
qed

text \<open>A server that answers: its channel opens, and the call returns a text the parser takes.\<close>

definition answers :: "'w network \<Rightarrow> 'q to_json \<Rightarrow> 'r from_json \<Rightarrow> string \<Rightarrow> 'q \<Rightarrow> string \<Rightarrow> bool" where
  "answers net to_json from_json path req addr \<longleftrightarrow>
     (\<forall>w. fst (http_init net addr '''' w)) \<and>
     (\<forall>w. \<exists>text. fst (http_call net addr path (snd (to_json req)) w) = Inr text \<and>
        (\<forall>resp. fst (from_json text resp)))"

interpretation http_ring: round_robin "length ips"
    "\<lambda>n i (resp, w). http_loop net to_json from_json ips path req n (int i) resp w"
    "\<lambda>i. answers net to_json from_json path req (ips ! i)" "\<lambda>(code, _). code = 0"
  for net :: "'w network" and to_json :: "'q to_json" and from_json :: "'r from_json" and ips path req
proof
  fix i n and s :: "'r \<times> 'w"
  obtain resp w where s: "s = (resp, w)" by (cases s)
  assume i: "i < length ips"
  then have at: "at_ub ips (int i) = Some (ips ! i)" by (simp add: at_ub_def)
  have nxt: "(int i + 1) mod int (length ips) = int (Suc i mod length ips)" by (simp add: zmod_int add.commute)
  obtain ok w1 where init: "http_init net (ips ! i) '''' w = (ok, w1)" by fastforce
  obtain res w2 where call: "http_call net (ips ! i) path (snd (to_json req)) w1 = (res, w2)" by fastforce
  show "(\<exists>r. (case s of (resp, w) \<Rightarrow> http_loop net to_json from_json ips path req (Suc n) (int i) resp w) = Some r \<and>
          (case r of (code, _) \<Rightarrow> code = 0)) \<or>
        (\<exists>s'. (case s of (resp, w) \<Rightarrow> http_loop net to_json from_json ips path req (Suc n) (int i) resp w) =
          (case s' of (resp, w) \<Rightarrow> http_loop net to_json from_json ips path req n (int (Suc i mod length ips)) resp w))"
    using at init call unfolding s by (cases ok; cases res) (auto simp: Let_def nxt split: prod.splits if_splits)
  assume "answers net to_json from_json path req (ips ! i)"
  then have "ok" "\<exists>text. res = Inr text \<and> (\<forall>resp. fst (from_json text resp))"
    using init call by (auto simp: answers_def) (metis fst_conv)+
  then show "\<exists>r. (case s of (resp, w) \<Rightarrow> http_loop net to_json from_json ips path req (Suc n) (int i) resp w) = Some r \<and>
          (case r of (code, _) \<Rightarrow> code = 0)"
    using at init call unfolding s by (auto simp: Let_def split: prod.splits) (metis fst_conv)+
qed

text \<open>A call to the masters that may try as often as there are masters succeeds whenever one of them
  answers, whatever the others do and wherever the random start is.\<close>

lemma HttpPost_reaches_master:
  assumes "rand_spec net" and "addr \<in> set ips" and "answers net to_json from_json path req addr"
    and "int (length ips) \<le> max_retry" and "max_retry < 2 ^ 31"
  shows "\<exists>resp' w'. HttpPost net to_json from_json ips path req resp max_retry w = Some (0, resp', w')"
proof -
  obtain j where j: "j < length ips" "ips ! j = addr" using assms(2) by (auto simp: in_set_conv_nth)
  then have "0 \<le> int (length ips) - 1" by linarith
  then obtain i w1 where i: "random_int net 0 (int (length ips) - 1) w = Some (i, w1)" "0 \<le> i" "i \<le> int (length ips) - 1"
    using random_int_range [OF assms(1)] by metis
  have retry: "nat (max_retry mod 18446744073709551616) = nat max_retry" using assms(4,5) by simp
  have in_ring: "nat i < length ips" using i(2,3) j(1) by linarith
  have enough: "length ips \<le> nat max_retry" using assms(4) by linarith
  from http_ring.reaches_good [OF in_ring j(1), of net to_json from_json path req "nat max_retry" "(resp, w1)"] j(2) assms(3)
  obtain r where "http_loop net to_json from_json ips path req (nat max_retry) i resp w1 = Some r" "fst r = 0"
    using i(2) enough by (auto split: prod.splits)
  then show ?thesis using i(1) by (cases r) (simp add: HttpPost_def retry)
qed


subsection \<open>A concrete network\<close>

text \<open>
  Two servers, \<open>A\<close> and \<open>B\<close>; \<open>B\<close> leads. The world is the entry of the route table, and
  refreshing it finds \<open>A\<close> first. \<open>B\<close> answers the calls to the masters.
\<close>

definition demo_net :: "string network" where
  "demo_net =
     \<lparr>channel_init = (\<lambda>_ w. (True, w)),
      rpc_get = (\<lambda>addr _ w. (if addr = ''B'' then Inr empty_get_response else Inl ''down'', w)),
      rpc_write = (\<lambda>addr _ _ w.
        (Inr (if addr = ''B'' then empty_response\<lparr>resp_success := Some True\<rparr>
              else empty_response\<lparr>resp_success := Some False, resp_redirect := ''B''\<rparr>), w)),
      rpc_search = (\<lambda>_ w. (Inl ''down'', w)),
      rpc_mock_get = (\<lambda>_ _ w. (Inl ''down'', w)),
      http_init = (\<lambda>_ _ w. (True, w)),
      http_call = (\<lambda>addr _ body w. (if addr = ''B'' then Inr body else Inl ''down'', w)),
      rand = (\<lambda>lo hi w. (lo, w)), sleep = (\<lambda>_ w. w),
      select_leader = (\<lambda>_ w. if w = '''' then None else Some w),
      refresh_leader = (\<lambda>_ w. (True, ''A'')),
      update_leader = (\<lambda>_ l w. l),
      update_configuration = (\<lambda>_ _ w. (0, w)),
      IsAskedToQuit = (\<lambda>_. False)\<rparr>"

definition demo_opt :: "string \<Rightarrow> raft_opt" where
  "demo_opt l = \<lparr>ro_group = ''g'', ro_conf = ''c'', ro_leader = l, ro_stub = Some l, ro_ok = True\<rparr>"

definition demo_client :: raft_client where
  "demo_client = \<lparr>rf_options = [demo_opt ''A'', demo_opt ''A''], rf_idx = 1\<rparr>"

definition demo_write_request :: block_request where
  "demo_write_request = \<lparr>br_db_name = ''db'', br_space_name = ''sp'', br_impl_type = UPSERT, br_key_type = KT_STRING, br_key = ''k''\<rparr>"

lemma demo_net_simps [simp]:
  "channel_init demo_net a w = (True, w)" "select_leader demo_net g w = (if w = '''' then None else Some w)"
  "refresh_leader demo_net g w = (True, ''A'')" "update_leader demo_net g l w = l"
  "update_configuration demo_net g c w = (0, w)" "IsAskedToQuit demo_net w = False"
  "rpc_write demo_net a req data w = (Inr (if a = ''B'' then empty_response\<lparr>resp_success := Some True\<rparr>
              else empty_response\<lparr>resp_success := Some False, resp_redirect := ''B''\<rparr>), w)"
  "rand demo_net lo hi w = (lo, w)" "sleep demo_net t w = w" "http_init demo_net a lb w = (True, w)"
  "http_call demo_net a path body w = (if a = ''B'' then Inr body else Inl ''down'', w)"
  "rpc_get demo_net a q w = (if a = ''B'' then Inr empty_get_response else Inl ''down'', w)"
  by (simp_all add: demo_net_def)

lemma demo_net_rand: "rand_spec demo_net"
  by (simp add: rand_spec_def)

lemma demo_client_ok: "raft_ok demo_client"
  by (simp add: raft_ok_def demo_client_def demo_opt_def)


lemma RaftClient_Write_redirect_witness:
  "\<exists>rf'. RaftClient_Write demo_net demo_write_request ''doc'' empty_response demo_client ''A'' =
     Some ('''', empty_response\<lparr>resp_success := Some True\<rparr>, rf', ''B'') \<and> raft_ok rf'"
proof -
  have "raft_slot demo_client (rf_idx demo_client) = Some (demo_opt ''A'')"
    by (simp add: raft_slot_def at_ub_def demo_client_def)
  from RaftClient_Write_redirect [OF demo_client_ok this, of demo_net demo_write_request "''doc''" "''A''"
      "empty_response\<lparr>resp_success := Some False, resp_redirect := ''B''\<rparr>" "''A''" "''B''" "''B''"
      "empty_response\<lparr>resp_success := Some True\<rparr>" "''B''" empty_response]
  show ?thesis by (auto simp: demo_opt_def success_def)
qed

lemma RaftClient_Init_ok_witness:
  "\<exists>rf' ro. RaftClient_Init demo_net ''g'' ''c'' new_raft_client '''' = Some ('''', rf', ''A'') \<and>
     raft_slot rf' (rf_idx rf') = Some ro \<and> ro_ok ro \<and> ro_group ro = ''g''"
proof -
  have "\<exists>rf'. RaftClient_Init demo_net ''g'' ''c'' new_raft_client '''' = Some ('''', rf', ''A'')"
    by (simp add: RaftClient_Init_def new_raft_client_def empty_raft_opt_def CreateRaftConnection_def at_ub_def
        RaftOptions_Build_def numeral_2_eq_2 numeral_3_eq_3 Let_def)
  then show ?thesis using RaftClient_Init_ok [of demo_net "''g''" "''c''" "''''"] by auto
qed

lemma HttpPost_reaches_master_witness:
  "\<exists>resp' w'. HttpPost demo_net (\<lambda>q. (True, q)) (\<lambda>text r. (True, text)) [''A'', ''B''] ''/api'' ''q'' '''' 2 ''''
     = Some (0, resp', w')"
  by (rule HttpPost_reaches_master [OF demo_net_rand, of "''B''"]) (simp_all add: answers_def)

end
