(* ===== verification/Partition_Connection.thy ===== *)
theory Partition_Connection
  imports Raft_Store Rpc_Clients
begin

text \<open>
  The connection of the router to one partition, \<open>service/router/partition_connection.h\<close> and
  \<open>service/router/partition_connection.cc\<close>: the clients of its replicas, in two buffers, for
  the reads, and a raft client for the writes. \<open>_replicas_num\<close> is an \<open>int8_t\<close>, and resizing a
  vector to a negative number throws.
\<close>

subsection \<open>State\<close>

record docs_group =
  dg_partition_id :: int
  dg_pb_doc_infos :: "(string \<times> pb_document) list"

record partition_opt =
  po_pb_partition :: pb_partition
  po_ps_list :: "brpc_options list"
  po_replicas_num :: int

record partition_connection =
  cn_partition_opt :: "partition_opt option list"
  cn_idx :: int
  cn_raft_client :: raft_client
  cn_db_name :: string
  cn_space_name :: string

definition new_partition_connection :: "string \<Rightarrow> string \<Rightarrow> partition_connection" where
  "new_partition_connection db_name space_name =
     \<lparr>cn_partition_opt = [], cn_idx = 0, cn_raft_client = new_raft_client, cn_db_name = db_name,
      cn_space_name = space_name\<rparr>"

subsection \<open>Clients of the replicas\<close>

definition new_PartitionOpt :: "pb_partition \<Rightarrow> partition_opt ub" where
  "new_PartitionOpt pb_partition =
     (let n = int8_of (int (length (pt_replicas pb_partition)))
      in if n < 0 then None
         else Some \<lparr>po_pb_partition = pb_partition, po_ps_list = replicate (nat n) empty_brpc_options,
                    po_replicas_num = n\<rparr>)"

definition replica_addr :: "pb_replica \<Rightarrow> string" where
  "replica_addr rep = rp_ps_ip rep @ '':'' @ to_string (rp_ps_port rep)"

fun init_replicas :: "'w network \<Rightarrow> pb_replica list \<Rightarrow> nat \<Rightarrow> brpc_options list \<Rightarrow> msg \<Rightarrow> 'w
    \<Rightarrow> (msg \<times> brpc_options list \<times> 'w) ub" where
  "init_replicas net [] i ps_list m w = Some (m, ps_list, w)"
| "init_replicas net (rep # reps) i ps_list m w = do {
     cli \<leftarrow> at_ub ps_list (int i);
     let (one_msg, cli1, w1) = PsRpcClient_Init net (replica_addr rep) cli w;
     init_replicas net reps (Suc i) (ps_list[i := cli1])
       (if one_msg \<noteq> '''' then m @ ''replica_id:'' @ to_string (int i) @ '', '' @ one_msg @ ''; '' else m) w1
   }"

definition PartitionOpt_Init :: "'w network \<Rightarrow> partition_opt \<Rightarrow> 'w \<Rightarrow> (msg \<times> partition_opt \<times> 'w) ub" where
  "PartitionOpt_Init net po w = do {
     (m, ps_list, w1) \<leftarrow> init_replicas net (pt_replicas (po_pb_partition po)) 0 (po_ps_list po) '''' w;
     Some (m, po\<lparr>po_ps_list := ps_list\<rparr>, w1)
   }"

subsection \<open>The connection\<close>

definition GetReplicaIdx :: "'w network \<Rightarrow> int \<Rightarrow> 'w \<Rightarrow> (int \<times> 'w) ub" where
  "GetReplicaIdx net replicas_num w = do {
     let max_v = (if replicas_num < 1 then 1 else replicas_num);
     (r, w1) \<leftarrow> random_int net 1 max_v w;
     Some (uint32_of (r - 1), w1)
   }"

definition no_replicas_msg :: "pb_partition \<Rightarrow> msg" where
  "no_replicas_msg pb_partition = ''partition group_name:'' @ pt_group_name pb_partition @ ''replicas num is 0''"

definition build_opt :: "'w network \<Rightarrow> pb_partition \<Rightarrow> 'w \<Rightarrow> (msg \<times> partition_opt \<times> 'w) ub" where
  "build_opt net pb_partition w = do {
     po \<leftarrow> new_PartitionOpt pb_partition;
     PartitionOpt_Init net po w
   }"

definition PartitionConnetion_Init :: "'w network \<Rightarrow> pb_partition \<Rightarrow> partition_connection \<Rightarrow> 'w
    \<Rightarrow> (msg \<times> partition_connection \<times> 'w) ub" where
  "PartitionConnetion_Init net pb_partition cn w =
     (let cn1 = cn\<lparr>cn_partition_opt := take 2 (cn_partition_opt cn) @ replicate (2 - length (cn_partition_opt cn)) None\<rparr>
      in if pt_replicas pb_partition = [] then Some (no_replicas_msg pb_partition, cn1, w)
         else do {
           (_, po0, w1) \<leftarrow> build_opt net pb_partition w;
           (_, po1, w2) \<leftarrow> build_opt net pb_partition w1;
           (m, rf, w3) \<leftarrow> RaftClient_Init net (pt_group_name pb_partition) (GetRaftConf pb_partition) (cn_raft_client cn) w2;
           Some (m, cn1\<lparr>cn_partition_opt := [Some po0, Some po1], cn_idx := 0, cn_raft_client := rf\<rparr>, w3)
         })"

definition upsert_request_of :: "partition_connection \<Rightarrow> string \<Rightarrow> block_request" where
  "upsert_request_of cn key =
     \<lparr>br_db_name = cn_db_name cn, br_space_name = cn_space_name cn, br_impl_type = UPSERT, br_key_type = KT_STRING, br_key = key\<rparr>"

fun upsert_docs :: "protobuf \<Rightarrow> 'w network \<Rightarrow> (string \<times> pb_document) list \<Rightarrow> (string, msg) std_map \<Rightarrow> partition_connection \<Rightarrow> 'w
    \<Rightarrow> ((string, msg) std_map \<times> partition_connection \<times> 'w) ub" where
  "upsert_docs pb net [] err_docs cn w = Some (err_docs, cn, w)"
| "upsert_docs pb net ((key, doc) # infos) err_docs cn w =
     (case serialize_document pb doc of
        None \<Rightarrow> upsert_docs pb net infos (std_map_set key ''SerializeToString Document failed'' err_docs) cn w
      | Some binary \<Rightarrow> do {
          (one_msg, resp, rf, w1) \<leftarrow>
            RaftClient_Write net (upsert_request_of cn key) binary empty_response (cn_raft_client cn) w;
          let cn1 = cn\<lparr>cn_raft_client := rf\<rparr>;
          if one_msg \<noteq> '''' \<or> \<not> success resp
          then upsert_docs pb net infos (std_map_set key (one_msg @ '', ret_msg:'' @ resp_msg resp) err_docs) cn1 w1
          else upsert_docs pb net infos err_docs cn1 w1
        })"

definition PartitionConnetion_UpsertDocs :: "protobuf \<Rightarrow> 'w network \<Rightarrow> docs_group \<Rightarrow> partition_connection \<Rightarrow> 'w
    \<Rightarrow> ((string, msg) std_map \<times> partition_connection \<times> 'w) ub" where
  "PartitionConnetion_UpsertDocs pb net docs_grp cn w = upsert_docs pb net (dg_pb_doc_infos docs_grp) [] cn w"

text \<open>Deleting does nothing yet: the loop over the keys has an empty body.\<close>

definition PartitionConnetion_DeleteDocs :: "string list \<Rightarrow> (string, msg) std_map" where
  "PartitionConnetion_DeleteDocs doc_keys = []"

subsection \<open>Reads\<close>

definition add_err_msg :: "string list \<Rightarrow> msg \<Rightarrow> (string, msg) std_map \<Rightarrow> (string, msg) std_map" where
  "add_err_msg doc_keys m err_docs = foldl (\<lambda>e key. std_map_set key m e) err_docs doc_keys"

definition key_to_idx :: "string list \<Rightarrow> (string, nat) std_map" where
  "key_to_idx ids = foldl (\<lambda>mp (i, k). std_map_set k i mp) [] (enumerate 0 ids)"

text \<open>The answer of a replica, sorted into the documents found and the keys that failed.\<close>

fun sort_keys :: "get_response \<Rightarrow> (string, nat) std_map \<Rightarrow> (string, nat) std_map \<Rightarrow> string list
    \<Rightarrow> (string, msg) std_map \<Rightarrow> (string, pb_document) std_map \<Rightarrow> (string, msg) std_map \<times> (string, pb_document) std_map" where
  "sort_keys ps_resp succ_key_to_idx failed_key_to_idx [] err_docs docs_mp = (err_docs, docs_mp)"
| "sort_keys ps_resp succ_key_to_idx failed_key_to_idx (key # keys) err_docs docs_mp =
     (case map_of succ_key_to_idx key of
        Some i \<Rightarrow>
          sort_keys ps_resp succ_key_to_idx failed_key_to_idx keys err_docs (std_map_set key (gp_documents ps_resp ! i) docs_mp)
      | None \<Rightarrow>
          sort_keys ps_resp succ_key_to_idx failed_key_to_idx keys
            (std_map_set key
               (case map_of failed_key_to_idx key of
                  Some i \<Rightarrow> ds_msg (gp_failed_docs ps_resp ! i)
                | None \<Rightarrow> ''Key not found in response'') err_docs) docs_mp)"

definition sort_answer :: "get_response \<Rightarrow> string list \<Rightarrow> (string, pb_document) std_map
    \<Rightarrow> (string, msg) std_map \<times> (string, pb_document) std_map" where
  "sort_answer ps_resp doc_keys docs_mp =
     sort_keys ps_resp (key_to_idx (map (\<lambda>d. str_or (doc_id d)) (gp_documents ps_resp)))
       (key_to_idx (map ds_id (gp_failed_docs ps_resp))) doc_keys [] docs_mp"

text \<open>The attempts: the message of the last failure, or the answer of the first replica that gave one.\<close>

fun get_loop :: "'w network \<Rightarrow> string list \<Rightarrow> partition_opt \<Rightarrow> nat \<Rightarrow> int \<Rightarrow> msg \<Rightarrow> 'w \<Rightarrow> ((msg + get_response) \<times> 'w) ub" where
  "get_loop net doc_keys po 0 replica_idx one_msg w = Some (Inl one_msg, w)"
| "get_loop net doc_keys po (Suc n) replica_idx one_msg w = do {
     (idx, w1) \<leftarrow>
       (if replica_idx = - 1 then GetReplicaIdx net (po_replicas_num po) w
        else if po_replicas_num po = 0 then None
        else Some ((replica_idx + 1) mod po_replicas_num po, w));
     ps_cli \<leftarrow> at_ub (po_ps_list po) idx;
     let (m, ps_resp, w2) = PsRpcClient_Get net doc_keys empty_get_response ps_cli w1;
     if m = '''' then Some (Inr ps_resp, w2)
     else get_loop net doc_keys po n idx m w2
   }"

definition PartitionConnetion_GetDocs :: "'w network \<Rightarrow> string list \<Rightarrow> (string, pb_document) std_map \<Rightarrow> partition_connection \<Rightarrow> 'w
    \<Rightarrow> ((string, msg) std_map \<times> (string, pb_document) std_map \<times> 'w) ub" where
  "PartitionConnetion_GetDocs net doc_keys docs_mp cn w = do {
     opt \<leftarrow> at_ub (cn_partition_opt cn) (cn_idx cn);
     case opt of
       None \<Rightarrow> Some (add_err_msg doc_keys ''***** two buffer partion_opt is null *****'' [], docs_mp, w)
     | Some po \<Rightarrow> do {
         (res, w1) \<leftarrow> get_loop net doc_keys po 3 (- 1) '''' w;
         Some (case res of
             Inl one_msg \<Rightarrow> (add_err_msg doc_keys (''GetDocs from Ps error, msg:'' @ one_msg) [], docs_mp, w1)
           | Inr ps_resp \<Rightarrow>
               (let (err_docs, docs_mp1) = sort_answer ps_resp doc_keys docs_mp in (err_docs, docs_mp1, w1)))
       }
   }"

definition UpdatePsConn :: "'w network \<Rightarrow> pb_partition \<Rightarrow> partition_connection \<Rightarrow> 'w \<Rightarrow> (msg \<times> partition_connection \<times> 'w) ub" where
  "UpdatePsConn net pb_partition cn w =
     (if pt_replicas pb_partition = [] then Some (no_replicas_msg pb_partition, cn, w)
      else do {
        let new_ps_idx = (cn_idx cn + 1) mod 2;
        (m, po, w1) \<leftarrow> build_opt net pb_partition w;
        if m = '''' then do {
          opts \<leftarrow> update_ub (cn_partition_opt cn) new_ps_idx (Some po);
          Some (m, cn\<lparr>cn_partition_opt := opts, cn_idx := new_ps_idx\<rparr>, w1)
        } else Some (m, cn, w1)
      })"

subsection \<open>Sorting an answer\<close>

lemma key_to_idx_snoc: "key_to_idx (ids @ [k]) = std_map_set k (length ids) (key_to_idx ids)"
  by (simp add: key_to_idx_def enumerate_append_eq)

lemma key_to_idx_Some: "map_of (key_to_idx ids) k = Some i \<Longrightarrow> i < length ids \<and> ids ! i = k"
proof (induction ids rule: rev_induct)
  case Nil
  then show ?case by (simp add: key_to_idx_def)
next
  case (snoc x ids)
  then show ?case by (auto simp: key_to_idx_snoc nth_append split: if_splits)
qed

lemma key_to_idx_None: "map_of (key_to_idx ids) k = None \<longleftrightarrow> k \<notin> set ids"
  by (induction ids rule: rev_induct) (auto simp: key_to_idx_snoc, simp add: key_to_idx_def)

lemma sort_keys_doms:
  "sort_keys r succ failed keys e d = (e', d') \<Longrightarrow>
     dom (map_of e') = dom (map_of e) \<union> {k \<in> set keys. map_of succ k = None} \<and>
     dom (map_of d') = dom (map_of d) \<union> {k \<in> set keys. map_of succ k \<noteq> None}"
  by (induction r succ failed keys e d rule: sort_keys.induct) (auto split: option.splits)

lemma sort_keys_docs:
  "sort_keys r succ failed keys e d = (e', d') \<Longrightarrow> map_of d' k = Some doc \<Longrightarrow>
     map_of d k = Some doc \<or> (\<exists>i. map_of succ k = Some i \<and> doc = gp_documents r ! i)"
  by (induction r succ failed keys e d rule: sort_keys.induct) (auto split: option.splits if_splits)

lemma sort_answer_complete:
  assumes "sort_answer r keys [] = (e, d)"
  shows "dom (map_of e) \<union> dom (map_of d) = set keys" and "dom (map_of e) \<inter> dom (map_of d) = {}"
    and "\<And>k doc. map_of d k = Some doc \<Longrightarrow> doc \<in> set (gp_documents r) \<and> str_or (doc_id doc) = k"
proof -
  note s = assms [unfolded sort_answer_def]
  from sort_keys_doms [OF s] show "dom (map_of e) \<union> dom (map_of d) = set keys" "dom (map_of e) \<inter> dom (map_of d) = {}"
    by auto
  show "doc \<in> set (gp_documents r) \<and> str_or (doc_id doc) = k" if "map_of d k = Some doc" for k doc
  proof -
    from sort_keys_docs [OF s that] obtain i where i: "map_of (key_to_idx (map (\<lambda>d. str_or (doc_id d)) (gp_documents r))) k = Some i"
      "doc = gp_documents r ! i" by auto
    from key_to_idx_Some [OF i(1)] i(2) show ?thesis by auto
  qed
qed

lemma map_of_add_err_msg:
  "map_of (add_err_msg keys m e) = (\<lambda>k. if k \<in> set keys then Some m else map_of e k)"
  by (induction keys arbitrary: e) (auto simp: add_err_msg_def fun_eq_iff)

subsection \<open>Connections\<close>

definition opt_ok :: "partition_opt \<Rightarrow> bool" where
  "opt_ok po \<longleftrightarrow> po_ps_list po \<noteq> [] \<and> po_replicas_num po = int (length (po_ps_list po)) \<and>
     length (po_ps_list po) = length (pt_replicas (po_pb_partition po)) \<and> length (po_ps_list po) \<le> 127"

definition conn_ok :: "partition_connection \<Rightarrow> bool" where
  "conn_ok cn \<longleftrightarrow>
     length (cn_partition_opt cn) = 2 \<and> cn_idx cn \<in> {0, 1} \<and>
     (\<forall>opt \<in> set (cn_partition_opt cn). \<exists>po. opt = Some po \<and> opt_ok po) \<and> raft_ok (cn_raft_client cn)"

definition conn_slot :: "partition_connection \<Rightarrow> int \<Rightarrow> partition_opt option ub" where
  "conn_slot cn i = at_ub (cn_partition_opt cn) i"

lemma int8_of_nonneg: "n \<le> 127 \<Longrightarrow> int8_of (int n) = int n"
  by (simp add: int8_of_def signed_take_bit_int_eq_self_iff)

lemma int8_of_range: "int8_of i \<le> 127"
  using signed_take_bit_int_less_exp [of 7 i] by (simp add: int8_of_def)

lemma init_replicas_length:
  "i + length reps \<le> length ps \<Longrightarrow>
     \<exists>m' ps' w'. init_replicas net reps i ps m w = Some (m', ps', w') \<and> length ps' = length ps"
proof (induction net reps i ps m w rule: init_replicas.induct)
  case (1 net i ps_list m w)
  then show ?case by simp
next
  case (2 net rep reps i ps_list m w)
  then show ?case by (fastforce simp: at_ub_def split: prod.splits)
qed

lemma init_replicas_short:
  "length ps < i + length reps \<Longrightarrow> reps \<noteq> [] \<Longrightarrow> i \<le> length ps \<Longrightarrow> init_replicas net reps i ps m w = None"
proof (induction net reps i ps m w rule: init_replicas.induct)
  case (1 net i ps_list m w)
  then show ?case by simp
next
  case (2 net rep reps i ps_list m w)
  show ?case
  proof (cases "i < length ps_list")
    case True
    with 2 have "reps \<noteq> []" by auto
    with 2 True show ?thesis by (simp add: at_ub_def split: prod.splits)
  next
    case False
    then show ?thesis by (simp add: at_ub_def)
  qed
qed

lemma build_opt_ok:
  assumes "pt_replicas p \<noteq> []" and "length (pt_replicas p) \<le> 127"
  obtains m po w' where "build_opt net p w = Some (m, po, w')" and "opt_ok po" and "po_pb_partition po = p"
proof -
  let ?n = "length (pt_replicas p)"
  obtain m ps w' where "init_replicas net (pt_replicas p) 0 (replicate ?n empty_brpc_options) '''' w = Some (m, ps, w')" "length ps = ?n"
    using init_replicas_length [of 0 "pt_replicas p" "replicate ?n empty_brpc_options" net "''''" w] by auto
  moreover from this(2) assms(1) have "ps \<noteq> []" by auto
  ultimately show thesis using assms int8_of_nonneg [OF assms(2)] that
    by (auto simp: build_opt_def new_PartitionOpt_def PartitionOpt_Init_def opt_ok_def Let_def)
qed

lemma build_opt_too_many:
  assumes "127 < length (pt_replicas p)"
  shows "build_opt net p w = None"
proof (cases "int8_of (int (length (pt_replicas p))) < 0")
  case True
  then show ?thesis by (simp add: build_opt_def new_PartitionOpt_def)
next
  case False
  let ?n = "int8_of (int (length (pt_replicas p)))"
  have "length (replicate (nat ?n) empty_brpc_options) < 0 + length (pt_replicas p)"
    using assms int8_of_range [of "int (length (pt_replicas p))"] by simp
  moreover from assms have "pt_replicas p \<noteq> []" by auto
  ultimately show ?thesis using False
    by (simp add: build_opt_def new_PartitionOpt_def PartitionOpt_Init_def Let_def init_replicas_short)
qed


lemma PartitionConnetion_Init_conn:
  assumes "pt_replicas p \<noteq> []" and "length (pt_replicas p) \<le> 127"
  obtains m cn w' where "PartitionConnetion_Init net p (new_partition_connection db sp) w = Some (m, cn, w')"
    and "conn_ok cn" and "cn_db_name cn = db" and "cn_space_name cn = sp"
proof -
  obtain m0 po0 w1 where o0: "build_opt net p w = Some (m0, po0, w1)" "opt_ok po0" using build_opt_ok [OF assms] by metis
  obtain m1 po1 w2 where o1: "build_opt net p w1 = Some (m1, po1, w2)" "opt_ok po1" using build_opt_ok [OF assms] by metis
  obtain m rf w3 where r: "RaftClient_Init net (pt_group_name p) (GetRaftConf p) new_raft_client w2 = Some (m, rf, w3)" "raft_ok rf"
    using RaftClient_Init_result by metis
  from assms o0 o1 r that show thesis
    by (simp add: PartitionConnetion_Init_def new_partition_connection_def conn_ok_def Let_def)
qed

text \<open>Initialising the connection to a partition is defined exactly for at most 127 replicas, the
  range of the counter; it then gives a usable connection unless the partition has no replica at
  all, whatever the network does.\<close>

lemma PartitionConnetion_Init_defined:
  "(PartitionConnetion_Init net p (new_partition_connection db sp) w \<noteq> None \<longleftrightarrow> length (pt_replicas p) \<le> 127) \<and>
   (\<forall>m cn w'. PartitionConnetion_Init net p (new_partition_connection db sp) w = Some (m, cn, w') \<longrightarrow>
      conn_ok cn = (pt_replicas p \<noteq> []))"
proof (cases "pt_replicas p = []")
  case True
  then show ?thesis
    by (simp add: PartitionConnetion_Init_def new_partition_connection_def conn_ok_def Let_def numeral_2_eq_2)
next
  case nonempty: False
  show ?thesis
  proof (cases "length (pt_replicas p) \<le> 127")
    case False
    with nonempty build_opt_too_many [of p net] show ?thesis
      by (simp add: PartitionConnetion_Init_def Let_def)
  next
    case True
    obtain m cn w' where "PartitionConnetion_Init net p (new_partition_connection db sp) w = Some (m, cn, w')" "conn_ok cn"
      using PartitionConnetion_Init_conn [OF nonempty True] by metis
    with nonempty True show ?thesis by simp
  qed
qed

definition conn_update :: "'w network \<times> pb_partition \<times> 'w \<Rightarrow> partition_connection \<Rightarrow> partition_connection \<Rightarrow> bool" where
  "conn_update x cn cn' \<longleftrightarrow> (case x of (net, p, w) \<Rightarrow> \<exists>m w'. UpdatePsConn net p cn w = Some (m, cn', w'))"

lemma UpdatePsConn_cases:
  assumes "UpdatePsConn net p cn w = Some (m, cn', w')" and "conn_ok cn"
  obtains (same) "cn' = cn" and "m \<noteq> ''''"
  | (published) po where "opt_ok po" and "po_pb_partition po = p" and "m = ''''"
      and "cn' = cn\<lparr>cn_partition_opt := (cn_partition_opt cn)[nat ((cn_idx cn + 1) mod 2) := Some po], cn_idx := (cn_idx cn + 1) mod 2\<rparr>"
proof (cases "pt_replicas p = []")
  case True
  with assms(1) show ?thesis by (intro same) (auto simp: UpdatePsConn_def no_replicas_msg_def)
next
  case nonempty: False
  with assms(1) have "build_opt net p w \<noteq> None" by (cases "build_opt net p w") (auto simp: UpdatePsConn_def Let_def)
  then have "length (pt_replicas p) \<le> 127" using build_opt_too_many [of p net w] by linarith
  then obtain m1 po w1 where po: "build_opt net p w = Some (m1, po, w1)" "opt_ok po" "po_pb_partition po = p"
    using build_opt_ok [OF nonempty] by metis
  have upd: "update_ub (cn_partition_opt cn) ((cn_idx cn + 1) mod 2) (Some po) =
      Some ((cn_partition_opt cn)[nat ((cn_idx cn + 1) mod 2) := Some po])"
    using assms(2) by (auto simp: conn_ok_def update_ub_def)
  show ?thesis
  proof (cases "m1 = ''''")
    case True
    with assms(1) nonempty po upd show ?thesis by (intro published [of po]) (auto simp: UpdatePsConn_def Let_def)
  next
    case False
    with assms(1) nonempty po show ?thesis by (intro same) (auto simp: UpdatePsConn_def Let_def)
  qed
qed

interpretation conn_buffers: two_buffer cn_idx conn_slot conn_ok conn_update
proof
  fix cn cn' :: partition_connection and x :: "'w network \<times> pb_partition \<times> 'w"
  assume ok: "conn_ok cn"
  then show "cn_idx cn \<in> {0, 1}" by (simp add: conn_ok_def)
  from ok show "conn_slot cn (cn_idx cn) \<noteq> None" by (auto simp: conn_ok_def conn_slot_def at_ub_def)
  assume "conn_update x cn cn'"
  then obtain net :: "'w network" and p w m w' where u: "UpdatePsConn net p cn w = Some (m, cn', w')"
    by (cases x) (auto simp: conn_update_def)
  from u ok show "conn_ok cn'"
    by (cases rule: UpdatePsConn_cases) (use ok in \<open>auto simp: conn_ok_def dest!: set_update_subset_insert [THEN subsetD]\<close>)
  from u ok show "conn_slot cn' (cn_idx cn) = conn_slot cn (cn_idx cn)"
    by (cases rule: UpdatePsConn_cases) (use ok in \<open>auto simp: conn_ok_def conn_slot_def at_ub_def\<close>)
  from u ok show "cn_idx cn' \<in> {cn_idx cn, (cn_idx cn + 1) mod 2}"
    by (cases rule: UpdatePsConn_cases) auto
qed

text \<open>An update of the replicas publishes the new clients only when every one of them could be opened;
  otherwise readers keep the old ones. In both cases the clients a reader already holds stay.\<close>

lemma UpdatePsConn_safe:
  assumes "conn_ok cn" and "conn_slot cn (cn_idx cn) = Some old" and "UpdatePsConn net p cn w = Some (m, cn', w')"
  shows "conn_ok cn' \<and> conn_slot cn' (cn_idx cn) = Some old \<and>
    (if m = '''' then \<exists>po. conn_slot cn' (cn_idx cn') = Some (Some po) \<and> po_pb_partition po = p else cn' = cn)"
proof -
  have upd: "conn_update (net, p, w) cn cn'" using assms(3) by (auto simp: conn_update_def)
  have "if m = '''' then \<exists>po. conn_slot cn' (cn_idx cn') = Some (Some po) \<and> po_pb_partition po = p else cn' = cn"
    using assms(3,1)
  proof (cases rule: UpdatePsConn_cases)
    case same
    then show ?thesis by simp
  next
    case (published po)
    with assms(1) show ?thesis by (auto simp: conn_slot_def conn_ok_def at_ub_def)
  qed
  with conn_buffers.update_valid [OF assms(1) upd] conn_buffers.reader_keeps_slot [OF assms(1) upd assms(2)]
  show ?thesis by blast
qed


subsection \<open>Reads\<close>

lemma GetReplicaIdx_range:
  assumes "rand_spec net" and "opt_ok po"
  obtains i w' where "GetReplicaIdx net (po_replicas_num po) w = Some (int i, w')" and "i < length (po_ps_list po)"
proof -
  have n: "1 \<le> po_replicas_num po" "po_replicas_num po \<le> 127"
    using assms(2) by (auto simp: opt_ok_def Suc_le_eq)
  obtain r w' where r: "random_int net 1 (po_replicas_num po) w = Some (r, w')" "1 \<le> r" "r \<le> po_replicas_num po"
    using random_int_range [OF assms(1) n(1)] by metis
  have "uint32_of (r - 1) = int (nat (r - 1))" using r(2,3) n(2) by (simp add: uint32_of_id is_uint32_def)
  with r n(1) have "GetReplicaIdx net (po_replicas_num po) w = Some (int (nat (r - 1)), w')" by (simp add: GetReplicaIdx_def Let_def)
  moreover have "nat (r - 1) < length (po_ps_list po)" using r(2,3) assms(2) by (simp add: opt_ok_def nat_less_iff)
  ultimately show thesis using that by blast
qed

definition replica_answers :: "'w network \<Rightarrow> brpc_options \<Rightarrow> bool" where
  "replica_answers net cli \<longleftrightarrow> (\<exists>addr. bo_stub cli = Some addr \<and> (\<forall>q w. \<exists>r. fst (rpc_get net addr q w) = Inr r))"

lemma PsRpcClient_Get_msg:
  "fst (PsRpcClient_Get net keys r cli w) = '''' \<longleftrightarrow>
     (\<exists>addr. bo_stub cli = Some addr \<and>
        (\<exists>a. fst (rpc_get net addr \<lparr>gq_db_name = '''', gq_space_name = '''', gq_ids = keys\<rparr> w) = Inr a))"
  by (auto simp: PsRpcClient_Get_def QueryPsRpcImp_def split: option.splits prod.splits sum.splits)

lemma get_loop_at:
  assumes "opt_ok po" and "i < length (po_ps_list po)"
    and "PsRpcClient_Get net keys empty_get_response (po_ps_list po ! i) w = (m1, r, w1)"
  shows "get_loop net keys po (Suc n) (pred_idx (length (po_ps_list po)) i) m w =
    (if m1 = '''' then Some (Inr r, w1) else get_loop net keys po n (int i) m1 w1)"
  using assms by (auto simp: opt_ok_def pred_idx_def at_ub_def)

text \<open>The ring of the clients of a partition.\<close>

definition opt_of :: "pb_partition \<Rightarrow> brpc_options list \<Rightarrow> partition_opt" where
  "opt_of p clients = \<lparr>po_pb_partition = p, po_ps_list = clients, po_replicas_num = int (length clients)\<rparr>"

lemma opt_ok_opt_of: "opt_ok po \<Longrightarrow> po = opt_of (po_pb_partition po) (po_ps_list po)"
  by (simp add: opt_ok_def opt_of_def)

lemma get_loop_ring:
  assumes "i < length clients"
    and "PsRpcClient_Get net keys empty_get_response (clients ! i) w = (m1, r, w1)"
  shows "get_loop net keys (opt_of p clients) (Suc n) (pred_idx (length clients) i) m w =
    (if m1 = '''' then Some (Inr r, w1) else get_loop net keys (opt_of p clients) n (int i) m1 w1)"
  using assms by (auto simp: opt_of_def pred_idx_def at_ub_def)

interpretation replica_ring: round_robin "length clients"
    "\<lambda>n i (m, w). get_loop net keys (opt_of p clients) n (pred_idx (length clients) i) m w"
    "\<lambda>i. replica_answers net (clients ! i)" "\<lambda>(res, _). \<exists>r. res = Inr r"
  for net :: "'w network" and keys and p and clients
proof
  fix i n and s :: "msg \<times> 'w"
  obtain m w where s: "s = (m, w)" by (cases s)
  assume i: "i < length clients"
  obtain m1 r w1 where g: "PsRpcClient_Get net keys empty_get_response (clients ! i) w = (m1, r, w1)" by (metis prod_cases3)
  note step = get_loop_ring [OF i g, of p n m] and nxt = pred_idx_next [OF i]
  show "(\<exists>r. (case s of (m, w) \<Rightarrow> get_loop net keys (opt_of p clients) (Suc n) (pred_idx (length clients) i) m w) = Some r \<and>
          (case r of (res, _) \<Rightarrow> \<exists>r. res = Inr r)) \<or>
        (\<exists>s'. (case s of (m, w) \<Rightarrow> get_loop net keys (opt_of p clients) (Suc n) (pred_idx (length clients) i) m w) =
          (case s' of (m, w) \<Rightarrow> get_loop net keys (opt_of p clients) n (pred_idx (length clients) (Suc i mod length clients)) m w))"
    using step unfolding s nxt by (cases "m1 = ''''") (simp_all del: get_loop.simps, blast)
  assume "replica_answers net (clients ! i)"
  with g have "m1 = ''''" using PsRpcClient_Get_msg [of net keys empty_get_response "clients ! i" w]
    by (auto simp: replica_answers_def)
  with step show "\<exists>r. (case s of (m, w) \<Rightarrow> get_loop net keys (opt_of p clients) (Suc n) (pred_idx (length clients) i) m w) = Some r \<and>
          (case r of (res, _) \<Rightarrow> \<exists>r. res = Inr r)"
    unfolding s by (simp del: get_loop.simps)
qed

lemma get_loop_first:
  assumes "rand_spec net" and "opt_ok po"
  obtains i w1 where "i < length (po_ps_list po)"
    and "get_loop net keys po (Suc n) (- 1) m w = get_loop net keys po (Suc n) (pred_idx (length (po_ps_list po)) i) m w1"
proof -
  obtain i w1 where i: "GetReplicaIdx net (po_replicas_num po) w = Some (int i, w1)" "i < length (po_ps_list po)"
    by (rule GetReplicaIdx_range [OF assms])
  then have "get_loop net keys po (Suc n) (- 1) m w = get_loop net keys po (Suc n) (pred_idx (length (po_ps_list po)) i) m w1"
    using get_loop_at [OF assms(2) i(2), of net keys w1]
    by (cases "PsRpcClient_Get net keys empty_get_response (po_ps_list po ! i) w1") (simp add: at_ub_def)
  with i(2) that show thesis by blast
qed

lemma get_loop_defined:
  assumes "opt_ok po" and "i < length (po_ps_list po)"
  shows "\<exists>res w'. get_loop net keys po n (pred_idx (length (po_ps_list po)) i) m w = Some (res, w')"
  using assms(2)
proof (induction n arbitrary: i m w)
  case 0
  then show ?case by simp
next
  case (Suc n)
  obtain m1 r w1 where g: "PsRpcClient_Get net keys empty_get_response (po_ps_list po ! i) w = (m1, r, w1)" by (metis prod_cases3)
  have "Suc i mod length (po_ps_list po) < length (po_ps_list po)" using Suc.prems by (intro mod_less_divisor) auto
  from Suc.IH [OF this, of m1 w1] get_loop_at [OF assms(1) Suc.prems g, of n m] pred_idx_next [OF Suc.prems]
  show ?case by (simp del: get_loop.simps)
qed

lemma GetDocs_run:
  assumes "rand_spec net" and "conn_ok cn"
  obtains po res w' where "conn_slot cn (cn_idx cn) = Some (Some po)" and "opt_ok po"
    and "get_loop net keys po 3 (- 1) '''' w = Some (res, w')"
    and "PartitionConnetion_GetDocs net keys ds cn w =
      Some (case res of
        Inl m \<Rightarrow> (add_err_msg keys (''GetDocs from Ps error, msg:'' @ m) [], ds, w')
      | Inr r \<Rightarrow> (fst (sort_answer r keys ds), snd (sort_answer r keys ds), w'))"
proof -
  obtain opt where "conn_slot cn (cn_idx cn) = Some opt" "opt \<in> set (cn_partition_opt cn)"
    using assms(2) by (auto simp: conn_ok_def conn_slot_def at_ub_def)
  then obtain po where po: "conn_slot cn (cn_idx cn) = Some (Some po)" "opt_ok po"
    using assms(2) by (auto simp: conn_ok_def)
  obtain i w1 where "i < length (po_ps_list po)"
    "get_loop net keys po (Suc 2) (- 1) '''' w = get_loop net keys po (Suc 2) (pred_idx (length (po_ps_list po)) i) '''' w1"
    by (rule get_loop_first [OF assms(1) po(2)])
  with get_loop_defined [OF po(2), of i net keys "Suc 2" "''''" w1]
  obtain res w' where g: "get_loop net keys po 3 (- 1) '''' w = Some (res, w')" by auto
  with po that show thesis
    by (simp add: PartitionConnetion_GetDocs_def conn_slot_def split_beta split: sum.splits del: get_loop.simps)
qed




subsection \<open>Writes\<close>

definition acknowledged :: "protobuf \<Rightarrow> 'w network \<Rightarrow> block_request \<Rightarrow> pb_document \<Rightarrow> bool" where
  "acknowledged pb net req doc \<longleftrightarrow>
     (\<exists>binary addr w w' resp. serialize_document pb doc = Some binary \<and>
        rpc_write net addr req binary w = (Inr resp, w') \<and> success resp)"

lemma upsert_request_of_client [simp]: "upsert_request_of (cn\<lparr>cn_raft_client := rf\<rparr>) = upsert_request_of cn"
  by (simp add: upsert_request_of_def fun_eq_iff)

definition upserted :: "protobuf \<Rightarrow> 'w network \<Rightarrow> (string \<Rightarrow> block_request) \<Rightarrow> (string \<times> pb_document) list
    \<Rightarrow> (string, msg) std_map \<Rightarrow> (string, msg) std_map \<Rightarrow> bool" where
  "upserted pb net req infos errs errs' \<longleftrightarrow>
     dom (map_of errs) \<subseteq> dom (map_of errs') \<and> dom (map_of errs') \<subseteq> dom (map_of errs) \<union> fst ` set infos \<and>
     (\<forall>(k, doc) \<in> set infos. k \<notin> dom (map_of errs') \<longrightarrow> acknowledged pb net (req k) doc)"

lemma upserted_error:
  "upserted pb net req infos (std_map_set key m errs) errs' \<Longrightarrow> upserted pb net req ((key, doc) # infos) errs errs'"
  unfolding upserted_def by auto

lemma upserted_ok:
  "upserted pb net req infos errs errs' \<Longrightarrow> acknowledged pb net (req key) doc \<Longrightarrow> upserted pb net req ((key, doc) # infos) errs errs'"
  unfolding upserted_def by auto

lemma upsert_docs_outcome:
  "raft_ok (cn_raft_client cn) \<Longrightarrow>
     \<exists>errs' rf' w'. upsert_docs pb net infos errs cn w = Some (errs', cn\<lparr>cn_raft_client := rf'\<rparr>, w') \<and> raft_ok rf' \<and>
       upserted pb net (upsert_request_of cn) infos errs errs'"
proof (induction infos arbitrary: errs cn w)
  case Nil
  then show ?case by (intro exI [of _ errs] exI [of _ "cn_raft_client cn"] exI [of _ w]) (simp add: upserted_def)
next
  case (Cons info infos)
  obtain key doc where info: "info = (key, doc)" by fastforce
  have go_on: ?case if "upsert_docs pb net (info # infos) errs cn w = upsert_docs pb net infos errs1 (cn\<lparr>cn_raft_client := rf\<rparr>) w1"
    and "raft_ok rf" and "\<And>errs'. upserted pb net (upsert_request_of cn) infos errs1 errs' \<Longrightarrow>
      upserted pb net (upsert_request_of cn) (info # infos) errs errs'" for errs1 rf w1
  proof -
    from that(2) obtain errs' rf' w' where "upsert_docs pb net infos errs1 (cn\<lparr>cn_raft_client := rf\<rparr>) w1 =
        Some (errs', cn\<lparr>cn_raft_client := rf'\<rparr>, w')" "raft_ok rf'" "upserted pb net (upsert_request_of cn) infos errs1 errs'"
      using Cons.IH [of "cn\<lparr>cn_raft_client := rf\<rparr>" errs1 w1] by auto
    with that(1,3) show ?thesis by metis
  qed
  show ?case
  proof (cases "serialize_document pb doc")
    case None
    with info Cons.prems show ?thesis
      by (intro go_on [of _ "cn_raft_client cn" w]) (auto intro: upserted_error)
  next
    case (Some binary)
    obtain m resp rf w1 where wr: "RaftClient_Write net (upsert_request_of cn key) binary empty_response (cn_raft_client cn) w = Some (m, resp, rf, w1)"
      "raft_ok rf" "success resp \<Longrightarrow> \<exists>addr w0. rpc_write net addr (upsert_request_of cn key) binary w0 = (Inr resp, w1)"
      using RaftClient_Write_result [OF Cons.prems, of net "upsert_request_of cn key" binary empty_response w] by blast
    show ?thesis
    proof (cases "m = '''' \<and> success resp")
      case True
      with wr(3) Some have "acknowledged pb net (upsert_request_of cn key) doc" by (auto simp: acknowledged_def)
      with wr True Some info show ?thesis by (intro go_on [of errs rf w1]) (auto intro: upserted_ok)
    next
      case False
      with wr Some info show ?thesis by (intro go_on [of _ rf w1]) (auto intro: upserted_error)
    qed
  qed
qed

text \<open>Writing a group of documents always returns, and a document whose key is not among the errors
  was acknowledged: some server answered the write of that document with success.\<close>

lemma PartitionConnetion_UpsertDocs_acknowledged:
  assumes "conn_ok cn"
  shows "\<exists>errs cn' w'. PartitionConnetion_UpsertDocs pb net grp cn w = Some (errs, cn', w') \<and> conn_ok cn' \<and>
    dom (map_of errs) \<subseteq> fst ` set (dg_pb_doc_infos grp) \<and>
    (\<forall>(k, doc) \<in> set (dg_pb_doc_infos grp). k \<notin> dom (map_of errs) \<longrightarrow> acknowledged pb net (upsert_request_of cn k) doc)"
proof -
  have "raft_ok (cn_raft_client cn)" using assms by (simp add: conn_ok_def)
  from upsert_docs_outcome [OF this, of pb net "dg_pb_doc_infos grp" "[]" w] assms show ?thesis
    by (auto simp: PartitionConnetion_UpsertDocs_def conn_ok_def upserted_def)
qed

text \<open>The connection to a partition without replicas answers reads with an error for every key, but a
  write of any document that serialises is undefined: its raft client was never initialised.\<close>

lemma no_replicas_connection:
  assumes "pt_replicas p = []" and "PartitionConnetion_Init net p (new_partition_connection db sp) w = Some (m, cn, w1)"
  shows "PartitionConnetion_GetDocs net keys [] cn w1 = Some (add_err_msg keys ''***** two buffer partion_opt is null *****'' [], [], w1) \<and>
    (serialize_document pb doc = Some binary \<longrightarrow>
       PartitionConnetion_UpsertDocs pb net \<lparr>dg_partition_id = i, dg_pb_doc_infos = (k, doc) # infos\<rparr> cn w1 = None)"
  using assms
  by (auto simp: PartitionConnetion_Init_def new_partition_connection_def new_raft_client_def PartitionConnetion_GetDocs_def
      at_ub_def PartitionConnetion_UpsertDocs_def RaftClient_Write_def numeral_3_eq_3 numeral_2_eq_2 Let_def)

subsection \<open>A concrete partition\<close>

definition demo_replica :: "string \<Rightarrow> pb_replica" where
  "demo_replica ip = \<lparr>rp_ps_id = 1, rp_ps_ip = ip, rp_ps_port = 1, rp_is_leader = None, rp_node_status = None, rp_msg = None\<rparr>"

definition demo_partition :: pb_partition where
  "demo_partition = empty_partition\<lparr>pt_group_name := ''g'', pt_replicas := [demo_replica ''A'', demo_replica ''B'']\<rparr>"

definition demo_cli :: "string \<Rightarrow> brpc_options" where
  "demo_cli addr = \<lparr>bo_stub = Some addr, bo_addr_port = addr\<rparr>"

definition demo_conn :: partition_connection where
  "demo_conn = \<lparr>cn_partition_opt = replicate 2 (Some (opt_of demo_partition [demo_cli ''A'', demo_cli ''B''])), cn_idx = 0,
     cn_raft_client = demo_client, cn_db_name = ''db'', cn_space_name = ''sp''\<rparr>"

lemma demo_conn_ok: "conn_ok demo_conn"
  by (simp add: conn_ok_def demo_conn_def opt_ok_def opt_of_def demo_partition_def demo_client_ok numeral_2_eq_2)

lemma demo_conn_slot: "conn_slot demo_conn (cn_idx demo_conn) = Some (Some (opt_of demo_partition [demo_cli ''A'', demo_cli ''B'']))"
  by (simp add: conn_slot_def demo_conn_def at_ub_def)

lemma PartitionConnetion_Init_defined_witness:
  "\<exists>m cn w'. PartitionConnetion_Init demo_net demo_partition (new_partition_connection ''db'' ''sp'') ''A'' = Some (m, cn, w') \<and> conn_ok cn"
  using PartitionConnetion_Init_defined [of demo_net demo_partition "''db''" "''sp''" "''A''"]
  by (auto simp: demo_partition_def)

lemma UpdatePsConn_safe_witness:
  "\<exists>cn' w' po. UpdatePsConn demo_net demo_partition demo_conn ''A'' = Some ('''', cn', w') \<and>
     conn_slot cn' (cn_idx cn') = Some (Some po) \<and> po_pb_partition po = demo_partition"
proof -
  have "int8_of 2 = 2" using int8_of_nonneg [of 2] by simp
  then have "\<exists>cn' w'. UpdatePsConn demo_net demo_partition demo_conn ''A'' = Some ('''', cn', w')"
    by (simp add: UpdatePsConn_def build_opt_def new_PartitionOpt_def PartitionOpt_Init_def demo_partition_def Let_def
        PsRpcClient_Init_def BrpcOptions_Init_def at_ub_def update_ub_def demo_conn_def)
  then obtain cn' w' where u: "UpdatePsConn demo_net demo_partition demo_conn ''A'' = Some ('''', cn', w')" by blast
  from UpdatePsConn_safe [OF demo_conn_ok demo_conn_slot u] u show ?thesis by auto
qed



lemma PartitionConnetion_UpsertDocs_acknowledged_witness:
  "\<exists>errs cn' w'. PartitionConnetion_UpsertDocs demo_pb demo_net \<lparr>dg_partition_id = 0, dg_pb_doc_infos = [(''1'', empty_document)]\<rparr> demo_conn ''A''
     = Some (errs, cn', w') \<and> conn_ok cn'"
  using PartitionConnetion_UpsertDocs_acknowledged [OF demo_conn_ok, of demo_pb demo_net
      "\<lparr>dg_partition_id = 0, dg_pb_doc_infos = [(''1'', empty_document)]\<rparr>" "''A''"] by blast

lemma no_replicas_connection_witness:
  "\<exists>cn. PartitionConnetion_Init demo_net empty_partition (new_partition_connection ''db'' ''sp'') ''A''
      = Some (no_replicas_msg empty_partition, cn, ''A'') \<and>
     PartitionConnetion_GetDocs demo_net [''1''] [] cn ''A'' = Some (add_err_msg [''1''] ''***** two buffer partion_opt is null *****'' [], [], ''A'')"
proof -
  have "\<exists>cn. PartitionConnetion_Init demo_net empty_partition (new_partition_connection ''db'' ''sp'') ''A''
      = Some (no_replicas_msg empty_partition, cn, ''A'')"
    by (simp add: PartitionConnetion_Init_def empty_partition_def)
  then obtain cn where i: "PartitionConnetion_Init demo_net empty_partition (new_partition_connection ''db'' ''sp'') ''A''
      = Some (no_replicas_msg empty_partition, cn, ''A'')" ..
  have "pt_replicas empty_partition = []" by (simp add: empty_partition_def)
  from no_replicas_connection [OF this i] i show ?thesis by blast
qed

end
