(* ===== verification/Space_Connection.thy ===== *)
theory Space_Connection
  imports Partition_Connection
begin

text \<open>
  The connection of the router to a space, \<open>service/router/space_connection.h\<close> and
  \<open>service/router/space_connection.cc\<close>: one connection per partition, and the operations on
  documents that were already grouped by partition. The results of the partitions are merged into
  one map of errors and one of documents.
\<close>

record space_connection =
  sc_pb_space :: pb_space
  sc_space_key :: string
  sc_partition_list :: "partition_connection option list"
  sc_db_name :: string
  sc_space_name :: string
  sc_id_type :: DType

definition new_space_connection :: space_connection where
  "new_space_connection =
     \<lparr>sc_pb_space = empty_space, sc_space_key = '''', sc_partition_list = [], sc_db_name = '''', sc_space_name = '''',
      sc_id_type = DT_UNDEFINE\<rparr>"

definition PartitionNum :: "space_connection \<Rightarrow> int" where
  "PartitionNum sc = int32_of (sp_partition_num (sc_pb_space sc))"

definition ReplicaNum :: "space_connection \<Rightarrow> int" where
  "ReplicaNum sc = int32_of (sp_replica_num (sc_pb_space sc))"

subsection \<open>Initialisation\<close>

fun init_partitions :: "'w network \<Rightarrow> string \<Rightarrow> string \<Rightarrow> pb_partition list \<Rightarrow> 'w \<Rightarrow> (partition_connection list \<times> 'w) ub" where
  "init_partitions net db_name space_name [] w = Some ([], w)"
| "init_partitions net db_name space_name (p # ps) w = do {
     (_, cn, w1) \<leftarrow> PartitionConnetion_Init net p (new_partition_connection db_name space_name) w;
     (cns, w2) \<leftarrow> init_partitions net db_name space_name ps w1;
     Some (cn # cns, w2)
   }"

definition id_type_msg :: "string \<Rightarrow> msg" where
  "id_type_msg fie_type = ''_id type:'' @ fie_type @ '' is not allowed, it only is string or long type.''"

text \<open>The loop over the fields: the error that ends it, and the type of the id field.\<close>

fun find_id_type :: "pb_field list \<Rightarrow> DType \<Rightarrow> msg \<times> DType" where
  "find_id_type [] id_type = ('''', id_type)"
| "find_id_type (fie # fs) id_type =
     (if fd_name fie = ID_FIELD then
        (let t = SDTypeToDType (fd_type fie)
         in if \<not> IsIdDType t then (id_type_msg (fd_type fie), DT_UNDEFINE) else find_id_type fs t)
      else find_id_type fs id_type)"

definition SpaceConnection_Init :: "'w network \<Rightarrow> pb_space \<Rightarrow> space_connection \<Rightarrow> 'w \<Rightarrow> (msg \<times> space_connection \<times> 'w) ub" where
  "SpaceConnection_Init net space sc w = do {
     let sc1 = sc\<lparr>sc_pb_space := space, sc_db_name := sp_db_name space, sc_space_name := sp_space_name space,
                  sc_space_key := GenSpaceKey (sp_db_name space) (sp_space_name space)\<rparr>;
     (cns, w1) \<leftarrow> init_partitions net (sp_db_name space) (sp_space_name space) (sp_partitions space) w;
     let (m, t) = find_id_type (sp_fields space) (sc_id_type sc);
     let sc2 = sc1\<lparr>sc_partition_list := map Some cns, sc_id_type := t\<rparr>;
     Some (if m \<noteq> '''' then m else if t = DT_UNDEFINE then ''not has _id field.'' else '''', sc2, w1)
   }"

subsection \<open>Operations on groups of documents\<close>

definition partition_at :: "space_connection \<Rightarrow> int \<Rightarrow> partition_connection ub" where
  "partition_at sc idx = do {
     p \<leftarrow> at_ub (sc_partition_list sc) idx;
     p
   }"

fun SpaceConnection_UpsertDocs :: "protobuf \<Rightarrow> 'w network \<Rightarrow> (int, docs_group) std_map \<Rightarrow> (string, msg) std_map \<Rightarrow> space_connection \<Rightarrow> 'w
    \<Rightarrow> ((string, msg) std_map \<times> space_connection \<times> 'w) ub" where
  "SpaceConnection_UpsertDocs pb net [] err_mp sc w = Some (err_mp, sc, w)"
| "SpaceConnection_UpsertDocs pb net ((idx, docs_grp) # grps) err_mp sc w = do {
     cn \<leftarrow> partition_at sc idx;
     (one_grp_res, cn1, w1) \<leftarrow> PartitionConnetion_UpsertDocs pb net docs_grp cn w;
     SpaceConnection_UpsertDocs pb net grps (std_map_put_all one_grp_res err_mp)
       (sc\<lparr>sc_partition_list := (sc_partition_list sc)[nat idx := Some cn1]\<rparr>) w1
   }"

fun SpaceConnection_DeleteDocs :: "(int, string list) std_map \<Rightarrow> (string, msg) std_map \<Rightarrow> space_connection
    \<Rightarrow> (string, msg) std_map ub" where
  "SpaceConnection_DeleteDocs [] err_mp sc = Some err_mp"
| "SpaceConnection_DeleteDocs ((idx, keys) # grps) err_mp sc = do {
     cn \<leftarrow> partition_at sc idx;
     SpaceConnection_DeleteDocs grps (std_map_put_all (PartitionConnetion_DeleteDocs keys) err_mp) sc
   }"

fun SpaceConnection_GetDocs :: "'w network \<Rightarrow> (int, string list) std_map \<Rightarrow> (string, msg) std_map \<Rightarrow> (string, pb_document) std_map
    \<Rightarrow> space_connection \<Rightarrow> 'w \<Rightarrow> ((string, msg) std_map \<times> (string, pb_document) std_map \<times> 'w) ub" where
  "SpaceConnection_GetDocs net [] err_mp docs_res sc w = Some (err_mp, docs_res, w)"
| "SpaceConnection_GetDocs net ((idx, keys) # grps) err_mp docs_res sc w = do {
     cn \<leftarrow> partition_at sc idx;
     (one_grp_err, one_grp_res, w1) \<leftarrow> PartitionConnetion_GetDocs net keys [] cn w;
     SpaceConnection_GetDocs net grps (std_map_put_all one_grp_err err_mp) (std_map_put_all one_grp_res docs_res) sc w1
   }"

subsection \<open>Spaces that can be served\<close>

definition partition_wf :: "pb_partition \<Rightarrow> bool" where
  "partition_wf p \<longleftrightarrow> pt_replicas p \<noteq> [] \<and> length (pt_replicas p) \<le> 127"

definition space_ok :: "space_connection \<Rightarrow> bool" where
  "space_ok sc \<longleftrightarrow>
     (\<forall>p \<in> set (sc_partition_list sc). \<exists>cn. p = Some cn \<and> conn_ok cn \<and> cn_db_name cn = sc_db_name sc \<and> cn_space_name cn = sc_space_name sc)"

definition in_range :: "space_connection \<Rightarrow> int \<Rightarrow> bool" where
  "in_range sc idx \<longleftrightarrow> 0 \<le> idx \<and> idx < int (length (sc_partition_list sc))"

lemma init_partitions_ok:
  "list_all partition_wf ps \<Longrightarrow> \<exists>cns w'. init_partitions net db sp ps w = Some (cns, w') \<and> length cns = length ps \<and>
     (\<forall>cn \<in> set cns. conn_ok cn \<and> cn_db_name cn = db \<and> cn_space_name cn = sp)"
proof (induction ps arbitrary: w)
  case Nil
  then show ?case by simp
next
  case (Cons p ps)
  then have "pt_replicas p \<noteq> []" "length (pt_replicas p) \<le> 127" by (simp_all add: partition_wf_def)
  then obtain m cn w1 where cn: "PartitionConnetion_Init net p (new_partition_connection db sp) w = Some (m, cn, w1)"
    "conn_ok cn" "cn_db_name cn = db" "cn_space_name cn = sp"
    by (rule PartitionConnetion_Init_conn)
  obtain cns w2 where "init_partitions net db sp ps w1 = Some (cns, w2)" "length cns = length ps"
    "\<forall>cn \<in> set cns. conn_ok cn \<and> cn_db_name cn = db \<and> cn_space_name cn = sp"
    using Cons.IH [of w1] Cons.prems by auto
  with cn show ?case by auto
qed

lemma SpaceConnection_Init_ok:
  assumes "list_all partition_wf (sp_partitions space)"
  obtains m sc w' where "SpaceConnection_Init net space new_space_connection w = Some (m, sc, w')" and "space_ok sc"
    and "sc_pb_space sc = space" and "sc_space_key sc = GenSpaceKey (sp_db_name space) (sp_space_name space)"
    and "length (sc_partition_list sc) = length (sp_partitions space)"
    and "sc_db_name sc = sp_db_name space" and "sc_space_name sc = sp_space_name space"
proof -
  obtain cns w' where c: "init_partitions net (sp_db_name space) (sp_space_name space) (sp_partitions space) w = Some (cns, w')"
    "length cns = length (sp_partitions space)"
    "\<forall>cn \<in> set cns. conn_ok cn \<and> cn_db_name cn = sp_db_name space \<and> cn_space_name cn = sp_space_name space"
    using init_partitions_ok [OF assms] by metis
  obtain m t where "find_id_type (sp_fields space) (sc_id_type new_space_connection) = (m, t)" by fastforce
  with c that show thesis by (auto simp: SpaceConnection_Init_def Let_def space_ok_def)
qed

lemma SpaceConnection_Init_fields:
  assumes "SpaceConnection_Init net space sc w = Some (m, sc', w')"
  shows "sc_pb_space sc' = space" and "sc_space_key sc' = GenSpaceKey (sp_db_name space) (sp_space_name space)"
  using assms by (cases "find_id_type (sp_fields space) (sc_id_type sc)"; auto simp: SpaceConnection_Init_def Let_def bind_eq_Some_conv)+

definition id_fields :: "pb_space \<Rightarrow> pb_field list" where
  "id_fields space = filter (\<lambda>f. fd_name f = ID_FIELD) (sp_fields space)"

lemma find_id_type_spec:
  "find_id_type fs t =
     (case find (\<lambda>f. fd_name f = ID_FIELD \<and> \<not> IsIdDType (SDTypeToDType (fd_type f))) fs of
        Some f \<Rightarrow> (id_type_msg (fd_type f), DT_UNDEFINE)
      | None \<Rightarrow> ('''', if filter (\<lambda>f. fd_name f = ID_FIELD) fs = [] then t
                      else SDTypeToDType (fd_type (last (filter (\<lambda>f. fd_name f = ID_FIELD) fs)))))"
  by (induction fs t rule: find_id_type.induct) (auto simp: Let_def split: option.splits)

text \<open>Initialising the connection to a space reports success exactly when the space has an id field and
  every id field is a string or a long; the type it keeps is then one of these two.\<close>

lemma SpaceConnection_Init_id_type:
  assumes "SpaceConnection_Init net space new_space_connection w = Some (m, sc, w')"
  shows "(m = '''' \<longleftrightarrow> id_fields space \<noteq> [] \<and> (\<forall>f \<in> set (id_fields space). fd_type f \<in> {LONG_SDTYPE, STRING_SDTYPE})) \<and>
    (m = '''' \<longrightarrow> IsIdDType (sc_id_type sc)) \<and> (m \<noteq> '''' \<longrightarrow> sc_id_type sc = DT_UNDEFINE)"
proof -
  obtain m1 t where f: "find_id_type (sp_fields space) DT_UNDEFINE = (m1, t)" by fastforce
  have run: "sc_id_type sc = t" "m = (if m1 \<noteq> '''' then m1 else if t = DT_UNDEFINE then ''not has _id field.'' else '''')"
    using assms f by (auto simp: SpaceConnection_Init_def new_space_connection_def Let_def bind_eq_Some_conv split: if_splits)
  have bad: "(\<exists>x. find (\<lambda>f. fd_name f = ID_FIELD \<and> \<not> IsIdDType (SDTypeToDType (fd_type f))) (sp_fields space) = Some x) \<longleftrightarrow>
      \<not> (\<forall>f \<in> set (id_fields space). fd_type f \<in> {LONG_SDTYPE, STRING_SDTYPE})"
    using find_None_iff [of "\<lambda>f. fd_name f = ID_FIELD \<and> \<not> IsIdDType (SDTypeToDType (fd_type f))" "sp_fields space"]
    by (auto simp: id_fields_def IsIdDType_iff)
  show ?thesis
  proof (cases "find (\<lambda>f. fd_name f = ID_FIELD \<and> \<not> IsIdDType (SDTypeToDType (fd_type f))) (sp_fields space)")
    case (Some x)
    with f have "m1 = id_type_msg (fd_type x)" "t = DT_UNDEFINE" by (simp_all add: find_id_type_spec)
    with bad Some run show ?thesis by (auto simp: id_type_msg_def)
  next
    case None
    with bad have good: "\<forall>f \<in> set (id_fields space). fd_type f \<in> {LONG_SDTYPE, STRING_SDTYPE}" by auto
    show ?thesis
    proof (cases "id_fields space = []")
      case True
      with None f run show ?thesis by (simp add: find_id_type_spec id_fields_def)
    next
      case False
      then have l: "last (id_fields space) \<in> set (id_fields space)" by simp
      with good have "IsIdDType (SDTypeToDType (fd_type (last (id_fields space))))" by (auto simp: IsIdDType_iff)
      moreover from False None f have "m1 = ''''" "t = SDTypeToDType (fd_type (last (id_fields space)))"
        by (simp_all add: find_id_type_spec id_fields_def)
      ultimately have "IsIdDType t" "m1 = ''''" by simp_all
      moreover from this have "t \<noteq> DT_UNDEFINE" by (auto simp: IsIdDType_def)
      ultimately show ?thesis using run False good by simp
    qed
  qed
qed


subsection \<open>Reads\<close>

lemma partition_at_ok:
  assumes "space_ok sc" and "in_range sc idx"
  obtains cn where "partition_at sc idx = Some cn" and "conn_ok cn" and "cn_db_name cn = sc_db_name sc" and "cn_space_name cn = sc_space_name sc"
proof -
  have idx: "0 \<le> idx" "idx < int (length (sc_partition_list sc))" using assms(2) by (simp_all add: in_range_def)
  then have "sc_partition_list sc ! nat idx \<in> set (sc_partition_list sc)" by (simp add: nat_less_iff)
  then obtain cn where cn: "sc_partition_list sc ! nat idx = Some cn" "conn_ok cn" "cn_db_name cn = sc_db_name sc" "cn_space_name cn = sc_space_name sc"
    using assms(1) by (auto simp: space_ok_def)
  then have "partition_at sc idx = Some cn" using idx by (simp add: partition_at_def at_ub_def)
  with cn that show thesis by blast
qed

text \<open>What reading a partition gives, as the merge needs it.\<close>

definition answered :: "string set \<Rightarrow> (string, msg) std_map \<Rightarrow> (string, pb_document) std_map \<Rightarrow> bool" where
  "answered ks errs found \<longleftrightarrow>
     dom (map_of errs) \<union> dom (map_of found) = ks \<and> dom (map_of errs) \<inter> dom (map_of found) = {} \<and>
     (\<forall>(k, doc) \<in> set found. str_or (doc_id doc) = k)"

lemma set_std_map_set: "set (std_map_set k v m) \<subseteq> insert (k, v) (set m)"
  by (induction m) auto

lemma sort_keys_set:
  "sort_keys r succ failed keys e d = (e', d') \<Longrightarrow> (k, doc) \<in> set d' \<Longrightarrow>
     (k, doc) \<in> set d \<or> (\<exists>i. map_of succ k = Some i \<and> doc = gp_documents r ! i)"
proof (induction r succ failed keys e d rule: sort_keys.induct)
  case (1 r succ failed e d)
  then show ?case by simp
next
  case (2 r succ failed key keys e d)
  show ?case
  proof (cases "map_of succ key")
    case None
    with 2 show ?thesis by simp
  next
    case (Some i)
    with "2.prems" have "sort_keys r succ failed keys e (std_map_set key (gp_documents r ! i) d) = (e', d')" by simp
    from "2.IH"(2) [OF Some this "2.prems"(2)] set_std_map_set [of key "gp_documents r ! i" d] Some show ?thesis by auto
  qed
qed

lemma sort_answer_answered: "sort_answer r keys [] = (e, d) \<Longrightarrow> answered (set keys) e d"
proof -
  assume s: "sort_answer r keys [] = (e, d)"
  have "str_or (doc_id doc) = k" if "(k, doc) \<in> set d" for k doc
  proof -
    from sort_keys_set [OF s [unfolded sort_answer_def] that]
    obtain i where i: "map_of (key_to_idx (map (\<lambda>d. str_or (doc_id d)) (gp_documents r))) k = Some i" "doc = gp_documents r ! i" by auto
    from key_to_idx_Some [OF i(1)] i(2) show ?thesis by auto
  qed
  with sort_answer_complete(1,2) [OF s] show ?thesis unfolding answered_def by blast
qed

lemma PartitionConnetion_GetDocs_answered:
  assumes "rand_spec net" and "conn_ok cn"
  obtains errs found w' where "PartitionConnetion_GetDocs net keys [] cn w = Some (errs, found, w')" and "answered (set keys) errs found"
proof -
  obtain po :: partition_opt and res w' where run: "PartitionConnetion_GetDocs net keys [] cn w =
      Some (case res of
        Inl m \<Rightarrow> (add_err_msg keys (''GetDocs from Ps error, msg:'' @ m) [], [], w')
      | Inr r \<Rightarrow> (fst (sort_answer r keys []), snd (sort_answer r keys []), w'))"
    by (rule GetDocs_run [OF assms])
  show thesis
  proof (cases res)
    case (Inl m)
    with run that show thesis by (simp add: answered_def map_of_add_err_msg dom_def)
  next
    case (Inr r)
    obtain e d where "sort_answer r keys [] = (e, d)" by fastforce
    with run Inr that sort_answer_answered show thesis by auto
  qed
qed

fun disjoint_groups :: "(int, string list) std_map \<Rightarrow> bool" where
  "disjoint_groups [] = True"
| "disjoint_groups ((i, keys) # grps) = ((\<forall>(j, keys') \<in> set grps. set keys \<inter> set keys' = {}) \<and> disjoint_groups grps)"

lemma union_split:
  "A \<union> B = C \<Longrightarrow> A' \<union> B' = C' \<Longrightarrow> A' \<union> A \<union> (B' \<union> B) = C \<union> C'"
  "A \<union> B = C \<Longrightarrow> A' \<union> B' = C' \<Longrightarrow> A \<inter> B = {} \<Longrightarrow> A' \<inter> B' = {} \<Longrightarrow> C \<inter> C' = {} \<Longrightarrow> (A' \<union> A) \<inter> (B' \<union> B) = {}"
  by auto

lemma answered_merge:
  assumes "answered ks e f" and "answered ks' e' f'" and "ks \<inter> ks' = {}"
  shows "answered (ks \<union> ks') (std_map_put_all e' e) (std_map_put_all f' f)"
proof -
  have sub: "(k, doc) \<in> set f' \<union> set f" if "(k, doc) \<in> set (std_map_put_all f' f)" for k doc
    using that
  proof (induction f' arbitrary: f)
    case (Cons p f')
    obtain k' v' where "p = (k', v')" by fastforce
    with Cons.IH [of "std_map_set k' v' f"] Cons.prems set_std_map_set [of k' v' f] show ?case by auto
  qed simp
  have "str_or (doc_id doc) = k" if "(k, doc) \<in> set (std_map_put_all f' f)" for k doc
    using sub [OF that] assms(1,2) by (auto simp: answered_def)
  moreover have "dom (map_of (std_map_put_all e' e)) \<union> dom (map_of (std_map_put_all f' f)) = ks \<union> ks'"
    "dom (map_of (std_map_put_all e' e)) \<inter> dom (map_of (std_map_put_all f' f)) = {}"
    using union_split [of "dom (map_of e)" "dom (map_of f)" ks "dom (map_of e')" "dom (map_of f')" ks'] assms
    unfolding answered_def dom_map_of_put_all by simp_all
  ultimately show ?thesis by (simp add: answered_def split_beta)
qed

lemma SpaceConnection_GetDocs_answered:
  assumes "rand_spec net" and "space_ok sc"
  shows "\<forall>(i, keys) \<in> set grps. in_range sc i \<Longrightarrow> disjoint_groups grps \<Longrightarrow> answered ks errs found \<Longrightarrow>
    \<forall>(i, keys) \<in> set grps. set keys \<inter> ks = {} \<Longrightarrow>
    \<exists>errs' found' w'. SpaceConnection_GetDocs net grps errs found sc w = Some (errs', found', w') \<and>
      answered (ks \<union> (\<Union>(i, keys) \<in> set grps. set keys)) errs' found'"
proof (induction grps arbitrary: ks errs found w)
  case Nil
  then show ?case by simp
next
  case (Cons g grps)
  obtain idx keys where g: "g = (idx, keys)" by fastforce
  with Cons.prems(1) have "in_range sc idx" by simp
  then obtain cn where cn: "partition_at sc idx = Some cn" "conn_ok cn" by (rule partition_at_ok [OF assms(2)])
  obtain e f w1 where part: "PartitionConnetion_GetDocs net keys [] cn w = Some (e, f, w1)" "answered (set keys) e f"
    by (rule PartitionConnetion_GetDocs_answered [OF assms(1) cn(2)])
  have "ks \<inter> set keys = {}" using Cons.prems(4) g by auto
  with answered_merge [OF Cons.prems(3) part(2)]
  have here: "answered (ks \<union> set keys) (std_map_put_all e errs) (std_map_put_all f found)" by simp
  have "set keys' \<inter> (ks \<union> set keys) = {}" if "(i, keys') \<in> set grps" for i keys'
  proof -
    have "set keys' \<inter> ks = {}" using Cons.prems(4) that by auto
    moreover have "set keys \<inter> set keys' = {}" using Cons.prems(2) that unfolding g disjoint_groups.simps by auto
    ultimately show ?thesis by blast
  qed
  then have apart: "\<forall>(i, keys') \<in> set grps. set keys' \<inter> (ks \<union> set keys) = {}" by auto
  have "\<forall>(i, keys) \<in> set grps. in_range sc i" "disjoint_groups grps" using Cons.prems(1,2) g by simp_all
  from Cons.IH [OF this here apart, of w1] obtain errs' found' w' where
    "SpaceConnection_GetDocs net grps (std_map_put_all e errs) (std_map_put_all f found) sc w1 = Some (errs', found', w')"
    "answered ((ks \<union> set keys) \<union> (\<Union>(i, keys) \<in> set grps. set keys)) errs' found'" by blast
  moreover have "(ks \<union> set keys) \<union> (\<Union>(i, keys) \<in> set grps. set keys) = ks \<union> (\<Union>(i, keys) \<in> set (g # grps). set keys)"
    by (simp add: g Un_assoc)
  ultimately show ?case using cn(1) part(1) g by simp
qed

subsection \<open>Writes\<close>

definition space_request :: "space_connection \<Rightarrow> string \<Rightarrow> block_request" where
  "space_request sc key =
     \<lparr>br_db_name = sc_db_name sc, br_space_name = sc_space_name sc, br_impl_type = UPSERT, br_key_type = KT_STRING, br_key = key\<rparr>"

definition group_infos :: "(int, docs_group) std_map \<Rightarrow> (string \<times> pb_document) set" where
  "group_infos grps = (\<Union>(i, grp) \<in> set grps. set (dg_pb_doc_infos grp))"

lemma PartitionConnetion_UpsertDocs_upserted:
  assumes "conn_ok cn"
  obtains errs cn' w' where "PartitionConnetion_UpsertDocs pb net grp cn w = Some (errs, cn', w')" and "conn_ok cn'"
    and "cn_db_name cn' = cn_db_name cn" and "cn_space_name cn' = cn_space_name cn"
    and "upserted pb net (upsert_request_of cn) (dg_pb_doc_infos grp) [] errs"
proof -
  have "raft_ok (cn_raft_client cn)" using assms by (simp add: conn_ok_def)
  from upsert_docs_outcome [OF this, of pb net "dg_pb_doc_infos grp" "[]" w] assms that show thesis
    by (auto simp: PartitionConnetion_UpsertDocs_def conn_ok_def)
qed

lemma SpaceConnection_UpsertDocs_result:
  assumes "space_ok sc" and "\<forall>(i, grp) \<in> set grps. in_range sc i"
  shows "\<exists>errs' sc' w'. SpaceConnection_UpsertDocs pb net grps errs sc w = Some (errs', sc', w') \<and> space_ok sc' \<and>
    dom (map_of errs) \<subseteq> dom (map_of errs') \<and>
    (\<forall>(k, doc) \<in> group_infos grps. k \<notin> dom (map_of errs') \<longrightarrow> acknowledged pb net (space_request sc k) doc)"
  using assms
proof (induction grps arbitrary: errs sc w)
  case Nil
  then show ?case by (simp add: group_infos_def)
next
  case (Cons g grps)
  obtain idx grp where g: "g = (idx, grp)" by fastforce
  with Cons.prems have "in_range sc idx" by simp
  then obtain cn where cn: "partition_at sc idx = Some cn" "conn_ok cn" "cn_db_name cn = sc_db_name sc" "cn_space_name cn = sc_space_name sc"
    by (rule partition_at_ok [OF Cons.prems(1)])
  obtain e cn' w1 where part: "PartitionConnetion_UpsertDocs pb net grp cn w = Some (e, cn', w1)" "conn_ok cn'"
    "cn_db_name cn' = cn_db_name cn" "cn_space_name cn' = cn_space_name cn"
    "upserted pb net (upsert_request_of cn) (dg_pb_doc_infos grp) [] e"
    by (rule PartitionConnetion_UpsertDocs_upserted [OF cn(2)])
  let ?sc = "sc\<lparr>sc_partition_list := (sc_partition_list sc)[nat idx := Some cn']\<rparr>"
  have ok: "space_ok ?sc"
    using Cons.prems(1) part(2-4) cn(3,4) by (auto simp: space_ok_def dest!: set_update_subset_insert [THEN subsetD])
  have req: "upsert_request_of cn = space_request sc" "space_request ?sc = space_request sc"
    using cn(3,4) by (simp_all add: upsert_request_of_def space_request_def fun_eq_iff)
  have "\<forall>(i, grp) \<in> set grps. in_range ?sc i" using Cons.prems(2) by (auto simp: in_range_def)
  from Cons.IH [OF ok this, of "std_map_put_all e errs" w1]
  obtain errs' sc' w' where rest: "SpaceConnection_UpsertDocs pb net grps (std_map_put_all e errs) ?sc w1 = Some (errs', sc', w')"
    "space_ok sc'" "dom (map_of (std_map_put_all e errs)) \<subseteq> dom (map_of errs')"
    "\<forall>(k, doc) \<in> group_infos grps. k \<notin> dom (map_of errs') \<longrightarrow> acknowledged pb net (space_request sc k) doc"
    unfolding req(2) by blast
  have "acknowledged pb net (space_request sc k) doc" if "(k, doc) \<in> set (dg_pb_doc_infos grp)" "k \<notin> dom (map_of errs')" for k doc
    using that part(5) rest(3) unfolding req(1) upserted_def dom_map_of_put_all by blast
  moreover have "group_infos (g # grps) = set (dg_pb_doc_infos grp) \<union> group_infos grps" by (simp add: group_infos_def g)
  ultimately have "\<forall>(k, doc) \<in> group_infos (g # grps). k \<notin> dom (map_of errs') \<longrightarrow> acknowledged pb net (space_request sc k) doc"
    using rest(4) by blast
  moreover have "SpaceConnection_UpsertDocs pb net (g # grps) errs sc w = Some (errs', sc', w')" using rest(1) cn(1) part(1) g by simp
  moreover have "dom (map_of errs) \<subseteq> dom (map_of errs')" using rest(3) unfolding dom_map_of_put_all by blast
  ultimately show ?case using rest(2) by blast
qed

lemma SpaceConnection_UpsertDocs_fields:
  "SpaceConnection_UpsertDocs pb net grps errs sc w = Some (errs', sc', w') \<Longrightarrow>
     sc_pb_space sc' = sc_pb_space sc \<and> sc_space_key sc' = sc_space_key sc \<and>
     length (sc_partition_list sc') = length (sc_partition_list sc)"
proof (induction grps arbitrary: errs sc w)
  case Nil
  then show ?case by simp
next
  case (Cons g grps)
  obtain idx grp where g: "g = (idx, grp)" by fastforce
  from Cons.prems obtain e cn1 w1 where
    "SpaceConnection_UpsertDocs pb net grps (std_map_put_all e errs)
       (sc\<lparr>sc_partition_list := (sc_partition_list sc)[nat idx := Some cn1]\<rparr>) w1 = Some (errs', sc', w')"
    unfolding g SpaceConnection_UpsertDocs.simps bind_eq_Some_conv by (auto simp only: split_paired_all prod.case)
  from Cons.IH [OF this] show ?case by simp
qed

text \<open>C31: writing the groups of a space returns, keeps the space usable, and every document whose key is not
  among the errors was acknowledged by a server, for this database and space.\<close>

theorem SpaceConnection_UpsertDocs_acknowledged:
  assumes "space_ok sc" and "\<forall>(i, grp) \<in> set grps. in_range sc i"
  shows "\<exists>errs' sc' w'. SpaceConnection_UpsertDocs pb net grps errs sc w = Some (errs', sc', w') \<and> space_ok sc' \<and>
    dom (map_of errs) \<subseteq> dom (map_of errs') \<and>
    (\<forall>(k, doc) \<in> group_infos grps. k \<notin> dom (map_of errs') \<longrightarrow> acknowledged pb net (space_request sc k) doc)"
  by (rule SpaceConnection_UpsertDocs_result [OF assms])

subsection \<open>A concrete space\<close>

definition demo_id_field :: pb_field where
  "demo_id_field = \<lparr>fd_name = ID_FIELD, fd_type = LONG_SDTYPE, fd_dimension = None, fd_index = None\<rparr>"

definition demo_space :: pb_space where
  "demo_space = empty_space\<lparr>sp_db_name := ''db'', sp_space_name := ''sp'', sp_partition_num := 1, sp_replica_num := 2,
     sp_fields := [demo_id_field], sp_partitions := [demo_partition], sp_id_type := Some LONG_SDTYPE\<rparr>"

definition demo_space_conn :: space_connection where
  "demo_space_conn = \<lparr>sc_pb_space = demo_space, sc_space_key = ''db-sp'', sc_partition_list = [Some demo_conn], sc_db_name = ''db'',
     sc_space_name = ''sp'', sc_id_type = DT_LONG\<rparr>"

lemma demo_space_wf: "list_all partition_wf (sp_partitions demo_space)"
  by (simp add: demo_space_def partition_wf_def demo_partition_def)

lemma demo_space_ok: "space_ok demo_space_conn"
  using demo_conn_ok by (simp add: space_ok_def demo_space_conn_def demo_conn_def)

lemma SpaceConnection_Init_id_type_witness:
  "\<exists>m sc w'. SpaceConnection_Init demo_net demo_space new_space_connection ''A'' = Some (m, sc, w') \<and> m = '''' \<and> IsIdDType (sc_id_type sc)"
proof -
  obtain m sc w' where i: "SpaceConnection_Init demo_net demo_space new_space_connection ''A'' = Some (m, sc, w')"
    by (rule SpaceConnection_Init_ok [OF demo_space_wf])
  from SpaceConnection_Init_id_type [OF i] i show ?thesis
    by (simp add: id_fields_def demo_space_def demo_id_field_def empty_space_def)
qed

theorem SpaceConnection_UpsertDocs_acknowledged_witness:
  "\<exists>errs' sc' w'. SpaceConnection_UpsertDocs demo_pb demo_net [(0, \<lparr>dg_partition_id = 0, dg_pb_doc_infos = [(''1'', empty_document)]\<rparr>)] []
     demo_space_conn ''A'' = Some (errs', sc', w') \<and> space_ok sc'"
  using SpaceConnection_UpsertDocs_acknowledged [OF demo_space_ok, of "[(0, \<lparr>dg_partition_id = 0, dg_pb_doc_infos = [(''1'', empty_document)]\<rparr>)]"
      demo_pb demo_net "[]" "''A''"]
  by (auto simp: in_range_def demo_space_conn_def)

end
