(* ===== verification/Local_Spaces.thy ===== *)
theory Local_Spaces
  imports Files Messages Rpc_Clients
begin

text \<open>
  The router's copy of the spaces on its own disk, \<open>service/router/local_spaces.h\<close> and
  \<open>service/router/local_spaces.cc\<close>: a list of spaces, saved as JSON and loaded back when
  etcd has none. The JSON converters are arguments; the files are those of theory \<open>Files\<close>.
\<close>

record local_spaces =
  ls_filename :: string
  ls_path :: string
  ls_spaces :: "pb_space list"

definition new_local_spaces :: local_spaces where
  "new_local_spaces = \<lparr>ls_filename = '''', ls_path = '''', ls_spaces = []\<rparr>"

definition path_file :: "local_spaces \<Rightarrow> string" where
  "path_file ls = ls_path ls @ ''/'' @ ls_filename ls"

subsection \<open>Operations\<close>

text \<open>The loop looks for a name that is not a file, and copies what is meant to be the old file there.\<close>

fun init_copy :: "butil \<Rightarrow> local_spaces \<Rightarrow> nat list \<Rightarrow> file_system \<Rightarrow> file_system" where
  "init_copy bu ls [] fs = fs"
| "init_copy bu ls (i # is) fs =
     (let fp = ls_path ls @ ''/'' @ ls_filename ls @ to_string (int i)
      in if PathExists bu fp fs \<and> \<not> DirectoryExists bu fp fs then init_copy bu ls is fs
         else snd (CopyFile bu (ls_path ls) fp fs))"

definition LocalSpaces_Init :: "butil \<Rightarrow> string \<Rightarrow> string \<Rightarrow> local_spaces \<Rightarrow> file_system
    \<Rightarrow> bool \<times> local_spaces \<times> file_system" where
  "LocalSpaces_Init bu path filename ls fs =
     (let ls1 = ls\<lparr>ls_path := path, ls_filename := filename\<rparr>
      in if \<not> PathExists bu path fs then
           (let (created, fs1) = CreateDirectory bu path fs
            in if \<not> created then (False, ls1, fs1) else (True, ls1, fs1))
         else (True, ls1, init_copy bu ls1 [0..<100] fs))"

definition LocalSpaces_Load :: "pb_space list from_json \<Rightarrow> local_spaces \<Rightarrow> file_system \<Rightarrow> bool \<times> local_spaces" where
  "LocalSpaces_Load from_json ls fs =
     (let ls1 = ls\<lparr>ls_spaces := []\<rparr>
      in case ifstream_read (path_file ls) fs of
           None \<Rightarrow> (False, ls1)
         | Some json_content \<Rightarrow>
             (let (parsed, spaces) = from_json json_content []
              in (parsed, ls1\<lparr>ls_spaces := spaces\<rparr>)))"

definition LocalSpaces_Save :: "pb_space list to_json \<Rightarrow> local_spaces \<Rightarrow> file_system \<Rightarrow> bool \<times> file_system" where
  "LocalSpaces_Save to_json ls fs =
     (case ofstream_open (path_file ls) fs of
        None \<Rightarrow> (False, fs)
      | Some fs1 \<Rightarrow>
          (let (converted, json_str) = to_json (ls_spaces ls)
           in if \<not> converted then (False, fs1) else (True, ofstream_put (path_file ls) json_str fs1)))"

definition LocalSpaces_AddSpace :: "pb_space \<Rightarrow> local_spaces \<Rightarrow> bool \<times> local_spaces" where
  "LocalSpaces_AddSpace space ls = (True, ls\<lparr>ls_spaces := ls_spaces ls @ [space]\<rparr>)"

definition LocalSpaces_SetSpaces :: "pb_space list \<Rightarrow> local_spaces \<Rightarrow> local_spaces" where
  "LocalSpaces_SetSpaces spaces ls = foldl (\<lambda>l space. snd (LocalSpaces_AddSpace space l)) (ls\<lparr>ls_spaces := []\<rparr>) spaces"

definition named :: "string \<Rightarrow> string \<Rightarrow> pb_space \<Rightarrow> bool" where
  "named db_name space_name space \<longleftrightarrow> sp_db_name space = db_name \<and> sp_space_name space = space_name"

text \<open>The loop runs over the indices below \<open>n\<close>, from the last one down.\<close>

primrec delete_loop :: "string \<Rightarrow> string \<Rightarrow> nat \<Rightarrow> bool \<Rightarrow> pb_space list \<Rightarrow> bool \<times> pb_space list" where
  "delete_loop db_name space_name 0 is_del spaces = (is_del, spaces)"
| "delete_loop db_name space_name (Suc i) is_del spaces =
     (if named db_name space_name (spaces ! i)
      then delete_loop db_name space_name i True (take i spaces @ drop (Suc i) spaces)
      else delete_loop db_name space_name i is_del spaces)"

definition LocalSpaces_DeleteSpace :: "string \<Rightarrow> string \<Rightarrow> local_spaces \<Rightarrow> bool \<times> local_spaces" where
  "LocalSpaces_DeleteSpace db_name space_name ls =
     (let (is_del, spaces) = delete_loop db_name space_name (length (ls_spaces ls)) False (ls_spaces ls)
      in (is_del, ls\<lparr>ls_spaces := spaces\<rparr>))"

definition LocalSpaces_GetSpaces :: "local_spaces \<Rightarrow> pb_space list" where
  "LocalSpaces_GetSpaces ls = map (\<lambda>i. ls_spaces ls ! i) [0..<length (ls_spaces ls)]"

subsection \<open>Spaces in memory\<close>

lemma LocalSpaces_GetSpaces_list [simp]: "LocalSpaces_GetSpaces ls = ls_spaces ls"
  by (simp add: LocalSpaces_GetSpaces_def map_nth)

lemma LocalSpaces_SetSpaces_list [simp]: "LocalSpaces_SetSpaces spaces ls = ls\<lparr>ls_spaces := spaces\<rparr>"
proof -
  have "foldl (\<lambda>l space. snd (LocalSpaces_AddSpace space l)) (ls\<lparr>ls_spaces := acc\<rparr>) spaces =
      ls\<lparr>ls_spaces := acc @ spaces\<rparr>" for acc
    by (induction spaces arbitrary: acc) (simp_all add: LocalSpaces_AddSpace_def)
  from this [of "[]"] show ?thesis by (simp add: LocalSpaces_SetSpaces_def)
qed

lemma delete_loop_filter:
  "n \<le> length spaces \<Longrightarrow> delete_loop db sp n b spaces =
     (b \<or> list_ex (named db sp) (take n spaces), filter (\<lambda>s. \<not> named db sp s) (take n spaces) @ drop n spaces)"
proof (induction n arbitrary: b spaces)
  case 0
  then show ?case by simp
next
  case (Suc i)
  have split: "take (Suc i) spaces = take i spaces @ [spaces ! i]"
    using Suc.prems by (simp add: take_Suc_conv_app_nth)
  have rest: "drop i spaces = spaces ! i # drop (Suc i) spaces"
    using Suc.prems by (simp add: Cons_nth_drop_Suc)
  show ?case
  proof (cases "named db sp (spaces ! i)")
    case True
    let ?s = "take i spaces @ drop (Suc i) spaces"
    have "take i ?s = take i spaces" "drop i ?s = drop (Suc i) spaces" "i \<le> length ?s"
      using Suc.prems by (simp_all add: min_def)
    with Suc.IH [of ?s True] True split show ?thesis by simp
  next
    case False
    with Suc.IH [of spaces b] Suc.prems split rest show ?thesis by simp
  qed
qed

text \<open>Deleting while walking the list backwards removes exactly the spaces of that name, keeps the
  others in their order, and reports whether there was one.\<close>

lemma LocalSpaces_DeleteSpace_filter:
  "LocalSpaces_DeleteSpace db sp ls =
     (list_ex (named db sp) (ls_spaces ls), ls\<lparr>ls_spaces := filter (\<lambda>s. \<not> named db sp s) (ls_spaces ls)\<rparr>)"
  by (simp add: LocalSpaces_DeleteSpace_def delete_loop_filter)

subsection \<open>Spaces on disk\<close>

lemma ofstream_rewrite:
  assumes "ofstream_open p fs = Some fs1" and "length t \<le> fs_room fs"
  shows "ifstream_read p (ofstream_put p t fs1) = Some t"
  using assms
  by (auto simp: ofstream_open_def ofstream_put_def ifstream_read_def create_file_def node_at_def update_conv' Let_def
      split: if_splits option.splits node.splits)

text \<open>Spaces that were saved come back when they are loaded, by any object with the same path, provided
  the JSON form reads back and the disk has room for it.\<close>

lemma LocalSpaces_Save_Load:
  assumes "LocalSpaces_Save to_json ls fs = (True, fs')"
    and "from_json (snd (to_json (ls_spaces ls))) [] = (True, ls_spaces ls)"
    and "length (snd (to_json (ls_spaces ls))) \<le> fs_room fs"
    and "path_file ls' = path_file ls"
  shows "LocalSpaces_Load from_json ls' fs' = (True, ls'\<lparr>ls_spaces := ls_spaces ls\<rparr>)"
proof -
  obtain fs1 where o: "ofstream_open (path_file ls) fs = Some fs1"
    "fs' = ofstream_put (path_file ls) (snd (to_json (ls_spaces ls))) fs1"
    using assms(1) by (auto simp: LocalSpaces_Save_def split: option.splits prod.splits if_splits)
  from ofstream_rewrite [OF o(1) assms(3)] o(2) assms(2,4) show ?thesis
    by (simp add: LocalSpaces_Load_def)
qed

definition demo_local_spaces :: local_spaces where
  "demo_local_spaces = \<lparr>ls_filename = ''x'', ls_path = ''d'', ls_spaces = [empty_space]\<rparr>"

definition demo_to_json :: "pb_space list to_json" where
  "demo_to_json spaces = (True, if spaces = [] then ''[]'' else ''[s]'')"

definition demo_from_json :: "pb_space list from_json" where
  "demo_from_json b spaces = (True, if b = ''[]'' then [] else [empty_space])"

lemma LocalSpaces_Save_Load_witness:
  "\<exists>fs'. LocalSpaces_Save demo_to_json demo_local_spaces demo_fs = (True, fs') \<and>
     LocalSpaces_Load demo_from_json (demo_local_spaces\<lparr>ls_spaces := []\<rparr>) fs' = (True, demo_local_spaces)"
proof -
  have "\<exists>fs'. LocalSpaces_Save demo_to_json demo_local_spaces demo_fs = (True, fs')"
    by (simp add: LocalSpaces_Save_def demo_local_spaces_def demo_to_json_def demo_fs_def ofstream_open_def node_at_def path_file_def)
  then obtain fs' where s: "LocalSpaces_Save demo_to_json demo_local_spaces demo_fs = (True, fs')" ..
  have "LocalSpaces_Load demo_from_json (demo_local_spaces\<lparr>ls_spaces := []\<rparr>) fs' =
      (True, demo_local_spaces\<lparr>ls_spaces := []\<rparr>\<lparr>ls_spaces := ls_spaces demo_local_spaces\<rparr>)"
    by (rule LocalSpaces_Save_Load [OF s])
      (simp_all add: demo_to_json_def demo_from_json_def demo_local_spaces_def demo_fs_def path_file_def)
  with s show ?thesis by (simp add: demo_local_spaces_def)
qed

end
