(* ===== verification/Etcd_Client.thy ===== *)
theory Etcd_Client
  imports Rpc_Clients
begin

text \<open>
  The client of etcd, \<open>clients/etcd_client.h\<close> and \<open>clients/etcd_client.cc\<close>: channels to the
  etcd servers, operations with a retry over them, watches, and the thread that keeps the
  registration of a node alive.

  The etcd servers are part of the world of the network; the JSON form of a request and of a
  response is an argument of the operation (\<open>etcd_codec\<close> for the ones the client itself
  issues). The thread that keeps a node alive reads a flag another thread clears:
  \<open>keep_alive_loop n\<close> is the run in which the flag is found set \<open>n\<close> times.
\<close>

subsection \<open>Messages\<close>

record put_request =
  pq_key :: string
  pq_lease :: int
  pq_value :: string

record range_request =
  rq_key :: string
  rq_range_end :: string
  rq_ascend :: bool
  rq_target_key :: bool

record range_response =
  rr_kvs :: "(string \<times> string) list"

record grant_request =
  gq_ttl :: int

record grant_response =
  gr_id :: int

record alive_request =
  aq_id :: int

record alive_response =
  ar_ttl :: int

subsection \<open>The client\<close>

text \<open>A channel is the URL it was opened for; a null channel is \<open>None\<close>.\<close>

record etcd_client =
  ec_chan_list :: "string option list"
  ec_chan_size :: int
  ec_running :: bool

definition new_etcd_client :: etcd_client where
  "new_etcd_client = \<lparr>ec_chan_list = [], ec_chan_size = 0, ec_running = False\<rparr>"

text \<open>The destructor clears the flag of the thread and waits for it.\<close>

definition EtcdClient_destroy :: "etcd_client \<Rightarrow> etcd_client" where
  "EtcdClient_destroy ec = (if ec_running ec then ec\<lparr>ec_running := False\<rparr> else ec)"

definition etcd_url :: "string \<times> int \<Rightarrow> string" where
  "etcd_url ip_port = ''http://'' @ fst ip_port @ '':'' @ to_string (snd ip_port)"

fun init_channels :: "'w network \<Rightarrow> string \<Rightarrow> (string \<times> int) list \<Rightarrow> nat \<Rightarrow> string option list \<Rightarrow> 'w
    \<Rightarrow> bool \<times> string option list \<times> 'w" where
  "init_channels net lb [] i chans w = (True, chans, w)"
| "init_channels net lb (ip_port # rest) i chans w =
     (let url = etcd_url ip_port;
          (ok, w1) = http_init net url lb w
      in if \<not> ok then (False, chans[i := None], w1)
         else init_channels net lb rest (Suc i) (chans[i := Some url]) w1)"

definition EtcdClient_Init :: "'w network \<Rightarrow> (string \<times> int) list \<Rightarrow> string \<Rightarrow> etcd_client \<Rightarrow> 'w
    \<Rightarrow> bool \<times> etcd_client \<times> 'w" where
  "EtcdClient_Init net ip_ports lb ec w =
     (if ip_ports = [] then (False, ec, w)
      else
        let size = length ip_ports;
            chans = take size (ec_chan_list ec) @ replicate (size - length (ec_chan_list ec)) None;
            (ok, chans1, w1) = init_channels net lb ip_ports 0 chans w
        in (ok, ec\<lparr>ec_chan_size := int size, ec_chan_list := chans1\<rparr>, w1))"

definition GetChannel :: "'w network \<Rightarrow> int \<Rightarrow> string option list \<Rightarrow> 'w \<Rightarrow> (string option \<times> int \<times> 'w) ub" where
  "GetChannel net pre_idx chans w =
     (if pre_idx \<ge> 0 then do {
        let idx = (pre_idx + 1) mod int (length chans);
        ch \<leftarrow> at_ub chans idx;
        Some (ch, idx, w)
      } else do {
        (r, w1) \<leftarrow> random_int net 1 (int (length chans)) w;
        ch \<leftarrow> at_ub chans (r - 1);
        Some (ch, r - 1, w1)
      })"

subsection \<open>Operations\<close>

datatype etcd_ops =
  RANGE | PUT | DELETE_RANGE | TXN | COMPACT | LEASE_GRANT | LEASE_REVOKE | LEASE_KEEPALIVE | LEASE_TTL | LEASE_LEASES

fun etcd_path :: "etcd_ops \<Rightarrow> string" where
  "etcd_path RANGE = ''/v3/kv/range''"
| "etcd_path PUT = ''/v3/kv/put''"
| "etcd_path DELETE_RANGE = ''/v3/kv/deleterange''"
| "etcd_path TXN = ''/v3/kv/txn''"
| "etcd_path COMPACT = ''/v3/kv/compaction''"
| "etcd_path LEASE_GRANT = ''/v3/lease/grant''"
| "etcd_path LEASE_REVOKE = ''/v3/lease/revoke''"
| "etcd_path LEASE_KEEPALIVE = ''/v3/lease/keepalive''"
| "etcd_path LEASE_TTL = ''/v3/lease/timetolive''"
| "etcd_path LEASE_LEASES = ''/v3/lease/leases''"

fun etcd_loop :: "'w network \<Rightarrow> 'q to_json \<Rightarrow> 'r from_json \<Rightarrow> string option list \<Rightarrow> string \<Rightarrow> 'q \<Rightarrow> nat \<Rightarrow> int \<Rightarrow> 'r \<Rightarrow> 'w
    \<Rightarrow> (bool \<times> 'r \<times> 'w) ub" where
  "etcd_loop net to_json from_json chans path request 0 pre_idx response w = Some (False, response, w)"
| "etcd_loop net to_json from_json chans path request (Suc n) pre_idx response w = do {
     (ch, idx, w1) \<leftarrow> GetChannel net pre_idx chans w;
     let (converted, output) = to_json request;
     if \<not> converted then etcd_loop net to_json from_json chans path request n idx response w1
     else do {
       url \<leftarrow> ch;
       case http_call net url path output w1 of
         (Inl err, w2) \<Rightarrow> etcd_loop net to_json from_json chans path request n idx response w2
       | (Inr text, w2) \<Rightarrow>
           let (parsed, response1) = from_json text response
           in if \<not> parsed then etcd_loop net to_json from_json chans path request n idx response1 w2
              else Some (True, response1, w2)
     }
   }"

definition EtcdOp :: "'w network \<Rightarrow> 'q to_json \<Rightarrow> 'r from_json \<Rightarrow> string option list \<Rightarrow> etcd_ops \<Rightarrow> 'q \<Rightarrow> 'r \<Rightarrow> 'w
    \<Rightarrow> (bool \<times> 'r \<times> 'w) ub" where
  "EtcdOp net to_json from_json chans oper request response w =
     etcd_loop net to_json from_json chans (etcd_path oper) request (length chans) (- 1) response w"

definition EtcdClient_Put where
  "EtcdClient_Put net tj fj request response ec w = EtcdOp net tj fj (ec_chan_list ec) PUT request response w"

definition EtcdClient_Range where
  "EtcdClient_Range net tj fj request response ec w = EtcdOp net tj fj (ec_chan_list ec) RANGE request response w"

definition EtcdClient_DeleteRange where
  "EtcdClient_DeleteRange net tj fj request response ec w =
     EtcdOp net tj fj (ec_chan_list ec) DELETE_RANGE request response w"

definition EtcdClient_Txn where
  "EtcdClient_Txn net tj fj request response ec w = EtcdOp net tj fj (ec_chan_list ec) TXN request response w"

definition EtcdClient_Compact where
  "EtcdClient_Compact net tj fj request response ec w = EtcdOp net tj fj (ec_chan_list ec) COMPACT request response w"

definition EtcdClient_LeaseGrant where
  "EtcdClient_LeaseGrant net tj fj request response ec w =
     EtcdOp net tj fj (ec_chan_list ec) LEASE_GRANT request response w"

definition EtcdClient_LeaseRevoke where
  "EtcdClient_LeaseRevoke net tj fj request response ec w =
     EtcdOp net tj fj (ec_chan_list ec) LEASE_REVOKE request response w"

definition EtcdClient_LeaseTimeToLive where
  "EtcdClient_LeaseTimeToLive net tj fj request response ec w =
     EtcdOp net tj fj (ec_chan_list ec) LEASE_TTL request response w"

definition EtcdClient_LeaseLeases where
  "EtcdClient_LeaseLeases net tj fj request response ec w =
     EtcdOp net tj fj (ec_chan_list ec) LEASE_LEASES request response w"

definition EtcdClient_LeaseKeepAlive where
  "EtcdClient_LeaseKeepAlive net tj fj request response ec w =
     EtcdOp net tj fj (ec_chan_list ec) LEASE_KEEPALIVE request response w"

subsection \<open>Watches\<close>

text \<open>
  A reader of a watch holds its watcher, an object of the caller; what it does with a part of
  the stream is the call it makes on the watcher.
\<close>

record 'o read_body =
  rb_destroyed :: bool
  rb_status :: "msg option"
  rb_watcher :: "'o option"

definition new_read_body :: "'o read_body" where
  "new_read_body = \<lparr>rb_destroyed = False, rb_status = None, rb_watcher = None\<rparr>"

definition set_watcher :: "'o option \<Rightarrow> 'o read_body \<Rightarrow> 'o read_body" where
  "set_watcher watcher rb = rb\<lparr>rb_watcher := watcher\<rparr>"

datatype ('o, 'e) watcher_call = OnParseError 'o | OnEventResponse 'o 'e

definition OnReadOnePart :: "'e from_json \<Rightarrow> 'e \<Rightarrow> string \<Rightarrow> 'o read_body \<Rightarrow> ('o, 'e) watcher_call list ub" where
  "OnReadOnePart from_json empty_event data rb =
     (if length data > 0 then do {
        let (parsed, event) = from_json data empty_event;
        watcher \<leftarrow> rb_watcher rb;
        Some [if \<not> parsed then OnParseError watcher else OnEventResponse watcher event]
      } else Some [])"

definition OnEndOfMessage :: "msg \<Rightarrow> 'o read_body \<Rightarrow> 'o read_body" where
  "OnEndOfMessage st rb = rb\<lparr>rb_destroyed := True, rb_status := Some st\<rparr>"

text \<open>Every turn of the loop of \<open>Watch\<close> returns.\<close>

definition EtcdClient_Watch :: "'w network \<Rightarrow> 'q to_json \<Rightarrow> 'q \<Rightarrow> 'o option \<Rightarrow> etcd_client \<Rightarrow> 'w
    \<Rightarrow> (bool \<times> 'o read_body option \<times> 'w) ub" where
  "EtcdClient_Watch net to_json request watcher ec w =
     (if ec_chan_size ec \<le> 0 then Some (False, None, w)
      else do {
        (ch, idx, w1) \<leftarrow> GetChannel net (- 1) (ec_chan_list ec) w;
        if watcher = None then Some (False, None, w1)
        else
          let (converted, output) = to_json request
          in if \<not> converted then Some (False, None, w1)
             else do {
               url \<leftarrow> ch;
               case http_call net url ''/v3/watch'' output w1 of
                 (Inl err, w2) \<Rightarrow> Some (False, None, w2)
               | (Inr _, w2) \<Rightarrow> Some (True, Some (set_watcher watcher new_read_body), w2)
             }
      })"

subsection \<open>Keeping a node registered\<close>

record etcd_codec =
  grant_to :: "grant_request to_json"
  grant_from :: "grant_response from_json"
  put_to :: "put_request to_json"
  put_from :: "unit from_json"
  alive_to :: "alive_request to_json"
  alive_from :: "alive_response from_json"

record keep_alive_args =
  ka_key :: string
  ka_val :: string
  ka_interval_sec :: int

definition register_func :: "'w network \<Rightarrow> etcd_codec \<Rightarrow> string \<Rightarrow> string \<Rightarrow> int \<Rightarrow> etcd_client \<Rightarrow> 'w \<Rightarrow> (int \<times> 'w) ub" where
  "register_func net co key val ttl ec w =
     (if key = '''' then Some (- 1, w)
      else do {
        (_, grant_resp, w1) \<leftarrow>
          EtcdClient_LeaseGrant net (grant_to co) (grant_from co) \<lparr>gq_ttl = ttl\<rparr> \<lparr>gr_id = 0\<rparr> ec w;
        (_, _, w2) \<leftarrow>
          EtcdClient_Put net (put_to co) (put_from co)
            \<lparr>pq_key = key, pq_lease = gr_id grant_resp, pq_value = val\<rparr> () ec w1;
        Some (gr_id grant_resp, w2)
      })"

definition keep_alive_check :: "'w network \<Rightarrow> etcd_codec \<Rightarrow> keep_alive_args \<Rightarrow> etcd_client \<Rightarrow> int \<Rightarrow> 'w \<Rightarrow> (int \<times> 'w) ub" where
  "keep_alive_check net co ka ec grant_id w = do {
     (ok, alive_resp, w1) \<leftarrow>
       EtcdClient_LeaseKeepAlive net (alive_to co) (alive_from co) \<lparr>aq_id = grant_id\<rparr> \<lparr>ar_ttl = 0\<rparr> ec w;
     if \<not> ok \<or> ar_ttl alive_resp \<le> 0 then do {
       ttl \<leftarrow> chk32 (3 * ka_interval_sec ka);
       register_func net co (ka_key ka) (ka_val ka) ttl ec w1
     } else Some (grant_id, w1)
   }"

fun keep_alive_loop :: "'w network \<Rightarrow> etcd_codec \<Rightarrow> keep_alive_args \<Rightarrow> etcd_client \<Rightarrow> nat \<Rightarrow> int \<Rightarrow> 'w \<Rightarrow> (int \<times> 'w) ub" where
  "keep_alive_loop net co ka ec 0 grant_id w = Some (grant_id, w)"
| "keep_alive_loop net co ka ec (Suc n) grant_id w = do {
     (grant_id1, w1) \<leftarrow> keep_alive_check net co ka ec grant_id w;
     keep_alive_loop net co ka ec n grant_id1 (sleep net (ka_interval_sec ka) w1)
   }"

definition KeepNodeAliveThreadFunc :: "'w network \<Rightarrow> etcd_codec \<Rightarrow> keep_alive_args \<Rightarrow> etcd_client \<Rightarrow> nat \<Rightarrow> 'w \<Rightarrow> (int \<times> 'w) ub" where
  "KeepNodeAliveThreadFunc net co ka ec n w = do {
     ttl \<leftarrow> chk32 (3 * ka_interval_sec ka);
     (grant_id, w1) \<leftarrow> register_func net co (ka_key ka) (ka_val ka) ttl ec w;
     keep_alive_loop net co ka ec n grant_id w1
   }"

text \<open>Registering starts the thread: the code it returns is whether \<open>bthread\<close> could start it.\<close>

definition RegisterNodeWithKeepAlive :: "bool \<Rightarrow> string \<Rightarrow> string \<Rightarrow> int \<Rightarrow> etcd_client
    \<Rightarrow> int \<times> keep_alive_args option \<times> etcd_client" where
  "RegisterNodeWithKeepAlive started node_key node_val interval_second ec =
     (let ec1 = ec\<lparr>ec_running := True\<rparr>;
          args = \<lparr>ka_key = node_key, ka_val = node_val, ka_interval_sec = interval_second\<rparr>
      in if \<not> started then (- 1, None, ec1) else (0, Some args, ec1))"

text \<open>The end of a prefix range: the last byte is incremented, and wraps around.\<close>

definition GetRangeEnd :: "string \<Rightarrow> string" where
  "GetRangeEnd key =
     (if key = '''' then ''''
      else butlast key @ [char_of ((of_char (last key) + 1) mod 256 :: nat)])"

subsection \<open>Channels\<close>

lemma init_channels_ok:
  assumes "init_channels net lb ip_ports i chans w = (True, chans', w')" and "length chans = i + length ip_ports"
  shows "chans' = take i chans @ map (Some \<circ> etcd_url) ip_ports"
  using assms
proof (induction net lb ip_ports i chans w rule: init_channels.induct)
  case (1 net lb i chans w)
  then show ?case by simp
next
  case (2 net lb ip_port rest i chans w)
  obtain ok w1 where init: "http_init net (etcd_url ip_port) lb w = (ok, w1)" by fastforce
  with 2 have ok: "ok" by (cases ok) (simp_all add: Let_def)
  have "chans' = take (Suc i) (chans[i := Some (etcd_url ip_port)]) @ map (Some \<circ> etcd_url) rest"
    using "2.prems" init ok by (intro "2.IH" [OF refl init [symmetric] refl]) (simp_all add: Let_def)
  moreover have "take (Suc i) (chans[i := Some (etcd_url ip_port)]) = take i chans @ [Some (etcd_url ip_port)]"
    using "2.prems"(2) by (simp add: take_Suc_conv_app_nth)
  ultimately show ?case by simp
qed

lemma EtcdClient_Init_channels:
  assumes "EtcdClient_Init net ip_ports lb ec w = (True, ec', w')"
  shows "ec_chan_list ec' = map (Some \<circ> etcd_url) ip_ports" and "ec_chan_size ec' = int (length ip_ports)" and "ip_ports \<noteq> []"
proof -
  let ?chans = "take (length ip_ports) (ec_chan_list ec) @ replicate (length ip_ports - length (ec_chan_list ec)) None"
  from assms show "ip_ports \<noteq> []" by (auto simp: EtcdClient_Init_def)
  with assms obtain chans' where c: "init_channels net lb ip_ports 0 ?chans w = (True, chans', w')"
    "ec' = ec\<lparr>ec_chan_size := int (length ip_ports), ec_chan_list := chans'\<rparr>"
    by (auto simp: EtcdClient_Init_def Let_def split: prod.splits)
  have "length ?chans = 0 + length ip_ports" by simp
  from init_channels_ok [OF c(1) this] c(2)
  show "ec_chan_list ec' = map (Some \<circ> etcd_url) ip_ports" "ec_chan_size ec' = int (length ip_ports)" by simp_all
qed

subsection \<open>Operations reach a server that answers\<close>

lemma GetChannel_pred:
  assumes "i < length urls"
  shows "GetChannel net (pred_idx (length urls) i) (map Some urls) w = Some (Some (urls ! i), int i, w)"
  using assms by (auto simp: GetChannel_def pred_idx_def at_ub_def Let_def)

lemma GetChannel_first:
  assumes "rand_spec net" and "urls \<noteq> []"
  obtains i w' where "i < length urls" and "GetChannel net (- 1) (map Some urls) w = Some (Some (urls ! i), int i, w')"
    and "w' = snd (rand net 1 (int (length urls)) w)"
proof -
  from assms(2) have "1 \<le> int (length urls)" by (cases urls) auto
  obtain r w' where draw: "rand net 1 (int (length urls)) w = (r, w')" by fastforce
  have r: "1 \<le> r" "r \<le> int (length urls)"
    using assms(1) [unfolded rand_spec_def, rule_format, OF \<open>1 \<le> int (length urls)\<close>, of w] draw by simp_all
  have i: "nat (r - 1) < length urls" using r by linarith
  with r draw have "GetChannel net (- 1) (map Some urls) w = Some (Some (urls ! nat (r - 1)), int (nat (r - 1)), w')"
    by (simp add: GetChannel_def random_int_def GenRandomInt_def at_ub_def)
  with i that draw show thesis by simp
qed

definition etcd_answers :: "'w network \<Rightarrow> 'q to_json \<Rightarrow> 'r from_json \<Rightarrow> string \<Rightarrow> 'q \<Rightarrow> string \<Rightarrow> bool" where
  "etcd_answers net to_json from_json path request url \<longleftrightarrow>
     fst (to_json request) \<and>
     (\<forall>w. \<exists>text. fst (http_call net url path (snd (to_json request)) w) = Inr text \<and> (\<forall>resp. fst (from_json text resp)))"

interpretation etcd_ring: round_robin "length urls"
    "\<lambda>n i (resp, w). etcd_loop net to_json from_json (map Some urls) path request n (pred_idx (length urls) i) resp w"
    "\<lambda>i. etcd_answers net to_json from_json path request (urls ! i)" "\<lambda>(ok, _). ok"
  for net :: "'w network" and to_json :: "'q to_json" and from_json :: "'r from_json" and urls path request
proof
  fix i n and s :: "'r \<times> 'w"
  obtain resp w where s: "s = (resp, w)" by (cases s)
  assume i: "i < length urls"
  obtain conv out where js: "to_json request = (conv, out)" by fastforce
  obtain res w2 where call: "http_call net (urls ! i) path out w = (res, w2)" by fastforce
  note at = GetChannel_pred [OF i, of net w] and nxt = pred_idx_next [OF i]
  show "(\<exists>r. (case s of (resp, w) \<Rightarrow> etcd_loop net to_json from_json (map Some urls) path request (Suc n) (pred_idx (length urls) i) resp w) = Some r \<and>
          (case r of (ok, _) \<Rightarrow> ok)) \<or>
        (\<exists>s'. (case s of (resp, w) \<Rightarrow> etcd_loop net to_json from_json (map Some urls) path request (Suc n) (pred_idx (length urls) i) resp w) =
          (case s' of (resp, w) \<Rightarrow> etcd_loop net to_json from_json (map Some urls) path request n (pred_idx (length urls) (Suc i mod length urls)) resp w))"
    using at js call unfolding s by (cases conv; cases res) (auto simp: Let_def nxt split: prod.splits if_splits)
  assume "etcd_answers net to_json from_json path request (urls ! i)"
  then have "conv" "\<exists>text. res = Inr text \<and> (\<forall>resp. fst (from_json text resp))"
    using js call by (auto simp: etcd_answers_def) (metis fst_conv)+
  then show "\<exists>r. (case s of (resp, w) \<Rightarrow> etcd_loop net to_json from_json (map Some urls) path request (Suc n) (pred_idx (length urls) i) resp w) = Some r \<and>
          (case r of (ok, _) \<Rightarrow> ok)"
    using at js call unfolding s by (auto simp: Let_def split: prod.splits) (metis fst_conv)+
qed

lemma etcd_loop_start:
  assumes "GetChannel net (- 1) (map Some urls) w = Some (Some (urls ! i), int i, w1)" and "i < length urls"
  shows "etcd_loop net tj fj (map Some urls) path q (Suc n) (- 1) resp w =
    etcd_loop net tj fj (map Some urls) path q (Suc n) (pred_idx (length urls) i) resp w1"
  using assms(1) GetChannel_pred [OF assms(2), of net w1] by simp

text \<open>C28: an operation on etcd succeeds whenever one of the servers the client was initialised with
  answers it, whatever the others do.\<close>

theorem EtcdOp_reaches_server:
  assumes "rand_spec net" and "EtcdClient_Init net ip_ports lb ec0 w0 = (True, ec, w)"
    and "ip_port \<in> set ip_ports" and "etcd_answers net to_json from_json (etcd_path oper) request (etcd_url ip_port)"
  shows "\<exists>response' w'. EtcdOp net to_json from_json (ec_chan_list ec) oper request response w = Some (True, response', w')"
proof -
  let ?urls = "map etcd_url ip_ports"
  have chans: "ec_chan_list ec = map Some ?urls" using EtcdClient_Init_channels [OF assms(2)] by simp
  obtain j where j: "j < length ?urls" "?urls ! j = etcd_url ip_port"
    using assms(3) by (auto simp: in_set_conv_nth)
  have "?urls \<noteq> []" using j(1) by auto
  then obtain i w1 where i: "i < length ?urls" "GetChannel net (- 1) (map Some ?urls) w = Some (Some (?urls ! i), int i, w1)"
    using GetChannel_first [OF assms(1)] by metis
  obtain n where n: "length ?urls = Suc n" using j(1) by (cases "length ?urls") auto
  from etcd_ring.reaches_good [OF i(1) j(1), of net to_json from_json "etcd_path oper" request "length ?urls" "(response, w1)"] j(2) assms(4)
  obtain r where "etcd_loop net to_json from_json (map Some ?urls) (etcd_path oper) request (length ?urls) (pred_idx (length ?urls) i) response w1 = Some r"
    "fst r"
    by (auto split: prod.splits)
  then show ?thesis
    using etcd_loop_start [OF i(2,1), of to_json from_json "etcd_path oper" request n response] n
    unfolding EtcdOp_def chans by (cases r) (simp del: etcd_loop.simps)
qed


subsection \<open>Prefix ranges\<close>

lemma char_less_of_char: "(c :: char) < d \<longleftrightarrow> (of_char c :: nat) < of_char d"
  by (simp add: less_char_def)

lemma char_succ:
  assumes "last_c \<noteq> CHR 0xFF"
  shows "(c :: char) < char_of ((of_char last_c + 1) mod 256 :: nat) \<longleftrightarrow> c \<le> last_c"
proof -
  have "(of_char last_c :: nat) < 256" using of_char_mod_256 [of last_c] by (metis mod_less_divisor zero_less_numeral)
  moreover have "(of_char last_c :: nat) \<noteq> 255"
  proof
    assume "(of_char last_c :: nat) = 255"
    then have "(of_char last_c :: nat) = of_char (CHR 0xFF)" by simp
    then have "last_c = CHR 0xFF" by (simp only: of_char_eq_iff)
    with assms show False by simp
  qed
  ultimately have "(of_char last_c + 1 :: nat) < 256" by linarith
  then have "(of_char (char_of ((of_char last_c + 1) mod 256 :: nat)) :: nat) = of_char last_c + 1"
    by (simp only: of_char_of mod_mod_trivial) simp
  then show ?thesis by (simp add: less_char_def less_eq_char_def less_Suc_eq_le)
qed

lemma range_end_prefix:
  assumes "c \<noteq> CHR 0xFF"
  shows "(xs @ [c] \<le> k \<and> k < xs @ [char_of ((of_char c + 1) mod 256 :: nat)]) \<longleftrightarrow> prefix (xs @ [c]) k"
proof (induction xs arbitrary: k)
  case Nil
  show ?case
  proof (cases k)
    case (Cons d ks)
    have "[c] \<le> d # ks \<longleftrightarrow> c \<le> d" by (auto simp: Cons_le_Cons)
    moreover have "d # ks < [char_of ((of_char c + 1) mod 256 :: nat)] \<longleftrightarrow> d \<le> c"
      using char_succ [OF assms, of d] by auto
    ultimately show ?thesis using Cons by auto
  qed simp
next
  case (Cons x xs)
  show ?case
  proof (cases k)
    case (Cons d ks)
    with Cons.IH [of ks] show ?thesis by auto
  qed simp
qed

text \<open>The range from a key to its range end holds exactly the keys that start with it, so the
  router's query for the space prefix finds every space and nothing else; the key must not end in
  the byte \<open>0xFF\<close>, on which the increment wraps around.\<close>

lemma GetRangeEnd_prefix:
  assumes "key \<noteq> ''''" and "last key \<noteq> CHR 0xFF"
  shows "(key \<le> k \<and> k < GetRangeEnd key) \<longleftrightarrow> prefix key k"
  using range_end_prefix [OF assms(2), of "butlast key" k] assms(1) by (simp add: GetRangeEnd_def)

lemma GetRangeEnd_prefix_witness:
  "(etcd_space_prefix \<le> ''/spaces/mata/db/sp'' \<and> ''/spaces/mata/db/sp'' < GetRangeEnd etcd_space_prefix) \<and>
   GetRangeEnd etcd_space_prefix = ''/spaces/matb''"
proof -
  have "prefix etcd_space_prefix ''/spaces/mata/db/sp''" by (simp add: etcd_space_prefix_def)
  moreover have "GetRangeEnd etcd_space_prefix = ''/spaces/matb''" by code_simp
  ultimately show ?thesis
    using GetRangeEnd_prefix [of etcd_space_prefix "''/spaces/mata/db/sp''"] by (simp add: etcd_space_prefix_def)
qed

lemma GetRangeEnd_wraps: "GetRangeEnd [CHR ''a'', CHR 0xFF] = [CHR ''a'', CHR 0x00]"
  by code_simp


subsection \<open>Keeping a node registered\<close>

text \<open>
  What etcd documents, over two observations of the world: \<open>reg w k\<close> is the value and the lease
  of a key, \<open>live w l\<close> whether a lease has not expired. A grant gives a live lease; a put under a
  live lease binds the key; a keep-alive answers with a positive time to live only for a live
  lease, and then its keys are kept. Nothing is said of what happens while the client sleeps.
\<close>

definition grant_service :: "'w network \<Rightarrow> etcd_codec \<Rightarrow> ('w \<Rightarrow> int \<Rightarrow> bool) \<Rightarrow> string \<Rightarrow> bool" where
  "grant_service net co live url \<longleftrightarrow>
     (\<forall>q. fst (grant_to co q)) \<and>
     (\<forall>q w. \<exists>text w' l. http_call net url (etcd_path LEASE_GRANT) (snd (grant_to co q)) w = (Inr text, w') \<and>
        (\<forall>r. grant_from co text r = (True, \<lparr>gr_id = l\<rparr>)) \<and> live w' l)"

definition put_service ::
  "'w network \<Rightarrow> etcd_codec \<Rightarrow> ('w \<Rightarrow> int \<Rightarrow> bool) \<Rightarrow> ('w \<Rightarrow> string \<Rightarrow> (string \<times> int) option) \<Rightarrow> string \<Rightarrow> bool" where
  "put_service net co live reg url \<longleftrightarrow>
     (\<forall>q. fst (put_to co q)) \<and>
     (\<forall>q w. live w (pq_lease q) \<longrightarrow>
        (\<exists>text w'. http_call net url (etcd_path PUT) (snd (put_to co q)) w = (Inr text, w') \<and>
           fst (put_from co text ()) \<and> live w' (pq_lease q) \<and> reg w' (pq_key q) = Some (pq_value q, pq_lease q)))"

definition alive_service ::
  "'w network \<Rightarrow> etcd_codec \<Rightarrow> ('w \<Rightarrow> int \<Rightarrow> bool) \<Rightarrow> ('w \<Rightarrow> string \<Rightarrow> (string \<times> int) option) \<Rightarrow> string \<Rightarrow> bool" where
  "alive_service net co live reg url \<longleftrightarrow>
     (\<forall>q. fst (alive_to co q)) \<and>
     (\<forall>q w. \<exists>text w' ttl. http_call net url (etcd_path LEASE_KEEPALIVE) (snd (alive_to co q)) w = (Inr text, w') \<and>
        (\<forall>r. alive_from co text r = (True, \<lparr>ar_ttl = ttl\<rparr>)) \<and>
        (0 < ttl \<longrightarrow> live w (aq_id q) \<and> live w' (aq_id q) \<and>
           (\<forall>k v. reg w k = Some (v, aq_id q) \<longrightarrow> reg w' k = Some (v, aq_id q))))"

definition etcd_service ::
  "'w network \<Rightarrow> etcd_codec \<Rightarrow> ('w \<Rightarrow> int \<Rightarrow> bool) \<Rightarrow> ('w \<Rightarrow> string \<Rightarrow> (string \<times> int) option) \<Rightarrow> string list \<Rightarrow> bool" where
  "etcd_service net co live reg urls \<longleftrightarrow>
     urls \<noteq> [] \<and> rand_spec net \<and>
     (\<forall>lo hi w. live (snd (rand net lo hi w)) = live w \<and> reg (snd (rand net lo hi w)) = reg w) \<and>
     (\<forall>url \<in> set urls. grant_service net co live url \<and> put_service net co live reg url \<and> alive_service net co live reg url)"

text \<open>When every server answers, the first one asked settles the operation.\<close>

lemma EtcdOp_first:
  assumes "rand_spec net" and "urls \<noteq> []" and "fst (tj q)"
  obtains i w1 where "i < length urls" and "w1 = snd (rand net 1 (int (length urls)) w)"
    and "\<And>text r' w2. http_call net (urls ! i) (etcd_path oper) (snd (tj q)) w1 = (Inr text, w2) \<Longrightarrow> fj text r = (True, r') \<Longrightarrow>
      EtcdOp net tj fj (map Some urls) oper q r w = Some (True, r', w2)"
proof -
  obtain i w1 where i: "i < length urls" "GetChannel net (- 1) (map Some urls) w = Some (Some (urls ! i), int i, w1)"
    "w1 = snd (rand net 1 (int (length urls)) w)"
    using GetChannel_first [OF assms(1,2)] by metis
  obtain n where n: "length urls = Suc n" using i(1) by (cases "length urls") auto
  obtain out where "tj q = (True, out)" using assms(3) by (cases "tj q") simp
  with i(2) n show thesis by (intro that [OF i(1,3)]) (simp add: EtcdOp_def)
qed

lemma put_serviceE:
  assumes "put_service net co live reg url" and "live w l"
  obtains ans w' where "live w' l" and "reg w' key = Some (val, l)"
    and "http_call net url (etcd_path PUT) (snd (put_to co \<lparr>pq_key = key, pq_lease = l, pq_value = val\<rparr>)) w = (Inr ans, w')"
    and "fst (put_from co ans ())"
  using assms(1) [unfolded put_service_def, THEN conjunct2, rule_format, of w "\<lparr>pq_key = key, pq_lease = l, pq_value = val\<rparr>"]
    assms(2) that by auto

lemma register_func_registers:
  assumes "etcd_service net co live reg urls" and "ec_chan_list ec = map Some urls" and "key \<noteq> ''''"
  obtains l w' where "register_func net co key val ttl ec w = Some (l, w')" and "live w' l" and "reg w' key = Some (val, l)"
proof -
  let ?g = "\<lparr>gq_ttl = ttl\<rparr>"
  have svc: "rand_spec net" "urls \<noteq> []" "\<And>lo hi w. live (snd (rand net lo hi w)) = live w"
    "\<And>url. url \<in> set urls \<Longrightarrow> grant_service net co live url" "\<And>url. url \<in> set urls \<Longrightarrow> put_service net co live reg url"
    using assms(1) by (simp_all add: etcd_service_def)
  have conv: "fst (grant_to co q)" "fst (put_to co p)" for q p
    using svc(4,5) [OF hd_in_set [OF svc(2)]] by (simp_all add: grant_service_def put_service_def)
  obtain i w1 where i: "i < length urls"
    and run1: "\<And>text r' w2. http_call net (urls ! i) (etcd_path LEASE_GRANT) (snd (grant_to co ?g)) w1 = (Inr text, w2) \<Longrightarrow>
      grant_from co text \<lparr>gr_id = 0\<rparr> = (True, r') \<Longrightarrow>
      EtcdOp net (grant_to co) (grant_from co) (map Some urls) LEASE_GRANT ?g \<lparr>gr_id = 0\<rparr> w = Some (True, r', w2)"
    by (rule EtcdOp_first [where tj = "grant_to co" and fj = "grant_from co" and oper = LEASE_GRANT and q = "?g" and r = "\<lparr>gr_id = 0\<rparr>", OF svc(1,2) conv(1)]) blast
  from svc(4) [of "urls ! i"] i obtain w2 l where g: "live w2 l"
    "EtcdOp net (grant_to co) (grant_from co) (map Some urls) LEASE_GRANT ?g \<lparr>gr_id = 0\<rparr> w = Some (True, \<lparr>gr_id = l\<rparr>, w2)"
    unfolding grant_service_def using run1 by (metis nth_mem)
  let ?p = "\<lparr>pq_key = key, pq_lease = l, pq_value = val\<rparr>"
  obtain j w3 where j: "j < length urls" "w3 = snd (rand net 1 (int (length urls)) w2)"
    and run2: "\<And>text r' w4. http_call net (urls ! j) (etcd_path PUT) (snd (put_to co ?p)) w3 = (Inr text, w4) \<Longrightarrow>
      put_from co text () = (True, r') \<Longrightarrow>
      EtcdOp net (put_to co) (put_from co) (map Some urls) PUT ?p () w2 = Some (True, r', w4)"
    by (rule EtcdOp_first [where tj = "put_to co" and fj = "put_from co" and oper = PUT and q = "?p" and r = "()", OF svc(1,2) conv(2)]) blast
  have "live w3 l" using g(1) svc(3) j(2) by simp
  moreover have "put_service net co live reg (urls ! j)" using svc(5) j(1) by simp
  ultimately obtain text' w4 where p: "live w4 l" "reg w4 key = Some (val, l)"
    "http_call net (urls ! j) (etcd_path PUT) (snd (put_to co ?p)) w3 = (Inr text', w4)" "fst (put_from co text' ())"
    using put_serviceE by metis
  have "EtcdOp net (put_to co) (put_from co) (map Some urls) PUT ?p () w2 = Some (True, (), w4)"
    using run2 [OF p(3), of "()"] p(4) by (cases "put_from co text' ()") simp
  with g(2) assms(2,3) have "register_func net co key val ttl ec w = Some (l, w4)"
    by (simp add: register_func_def EtcdClient_LeaseGrant_def EtcdClient_Put_def)
  with p(1,2) that show thesis by blast
qed



lemma etcd_loop_all_fail:
  assumes "urls \<noteq> []" and "\<And>url w. url \<in> set urls \<Longrightarrow> \<exists>err w'. http_call net url path (snd (tj q)) w = (Inl err, w')"
  shows "0 \<le> pre \<Longrightarrow> \<exists>w'. etcd_loop net tj fj (map Some urls) path q n pre r w = Some (False, r, w')"
proof (induction n arbitrary: pre w)
  case 0
  then show ?case by simp
next
  case (Suc n)
  let ?i = "(pre + 1) mod int (length urls)"
  have pos: "0 < int (length urls)" using assms(1) by simp
  then have i: "0 \<le> ?i" "?i < int (length urls)" by simp_all
  then have at: "GetChannel net pre (map Some urls) w = Some (Some (urls ! nat ?i), ?i, w)"
    using Suc.prems by (simp add: GetChannel_def at_ub_def Let_def nat_less_iff)
  have "urls ! nat ?i \<in> set urls" using i by (simp add: nat_less_iff)
  then obtain err w' where "http_call net (urls ! nat ?i) path (snd (tj q)) w = (Inl err, w')" using assms(2) by blast
  with at Suc.IH [OF i(1)] show ?case by (simp add: split_beta)
qed

lemma EtcdOp_all_fail:
  assumes "rand_spec net" and "urls \<noteq> []"
    and "\<And>url w. url \<in> set urls \<Longrightarrow> \<exists>err w'. http_call net url (etcd_path oper) (snd (tj q)) w = (Inl err, w')"
  shows "\<exists>w'. EtcdOp net tj fj (map Some urls) oper q r w = Some (False, r, w')"
proof -
  obtain i w1 where i: "i < length urls" "GetChannel net (- 1) (map Some urls) w = Some (Some (urls ! i), int i, w1)"
    using GetChannel_first [OF assms(1,2)] by metis
  then obtain n where n: "length urls = Suc n" by (cases "length urls") auto
  have "0 \<le> pred_idx (length urls) i" using i(1) by (auto simp: pred_idx_def)
  then have "\<exists>w'. etcd_loop net tj fj (map Some urls) (etcd_path oper) q (Suc n) (pred_idx (length urls) i) r w1 = Some (False, r, w')"
    by (intro etcd_loop_all_fail [OF assms(2)]) (rule assms(3))
  then show ?thesis unfolding EtcdOp_def length_map n etcd_loop_start [OF i(2,1)] .
qed

text \<open>When no server grants a lease while the store itself works, the node is registered all the
  same, under the lease 0 that means none: its entry does not expire when the process dies before
  its next turn.\<close>

lemma register_func_without_lease:
  assumes "rand_spec net" and "urls \<noteq> []" and "ec_chan_list ec = map Some urls" and "key \<noteq> ''''"
    and "\<forall>url \<in> set urls. \<forall>q w. \<exists>err w'. http_call net url (etcd_path LEASE_GRANT) (snd (grant_to co q)) w = (Inl err, w')"
    and "\<forall>q. fst (put_to co q)"
    and "\<forall>url \<in> set urls. \<forall>q w. \<exists>text w'. http_call net url (etcd_path PUT) (snd (put_to co q)) w = (Inr text, w') \<and>
      fst (put_from co text ()) \<and> reg w' (pq_key q) = Some (pq_value q, pq_lease q)"
  shows "\<exists>w'. register_func net co key val ttl ec w = Some (0, w') \<and> reg w' key = Some (val, 0 :: int)"
proof -
  let ?p = "\<lparr>pq_key = key, pq_lease = 0, pq_value = val\<rparr>"
  obtain w1 where g: "EtcdOp net (grant_to co) (grant_from co) (map Some urls) LEASE_GRANT \<lparr>gq_ttl = ttl\<rparr> \<lparr>gr_id = 0\<rparr> w
      = Some (False, \<lparr>gr_id = 0\<rparr>, w1)"
    using EtcdOp_all_fail [OF assms(1,2), of LEASE_GRANT "grant_to co"] assms(5) by metis
  obtain j w3 where j: "j < length urls"
    and run: "\<And>text r' w4. http_call net (urls ! j) (etcd_path PUT) (snd (put_to co ?p)) w3 = (Inr text, w4) \<Longrightarrow>
      put_from co text () = (True, r') \<Longrightarrow>
      EtcdOp net (put_to co) (put_from co) (map Some urls) PUT ?p () w1 = Some (True, r', w4)"
    by (rule EtcdOp_first [where tj = "put_to co" and fj = "put_from co" and oper = PUT and q = "?p" and r = "()",
          OF assms(1,2) assms(6) [rule_format]]) blast
  obtain ans w4 where p: "http_call net (urls ! j) (etcd_path PUT) (snd (put_to co ?p)) w3 = (Inr ans, w4)"
    "fst (put_from co ans ())" "reg w4 key = Some (val, 0)"
    using assms(7) [rule_format, OF nth_mem [OF j], of ?p w3] by auto
  have "EtcdOp net (put_to co) (put_from co) (map Some urls) PUT ?p () w1 = Some (True, (), w4)"
    using run [OF p(1), of "()"] p(2) by (cases "put_from co ans ()") simp
  with g p(3) assms(3,4) show ?thesis
    by (simp add: register_func_def EtcdClient_LeaseGrant_def EtcdClient_Put_def)
qed

subsection \<open>A concrete etcd\<close>

definition enc_str :: "string \<Rightarrow> string" where
  "enc_str s = replicate (length s) (CHR ''1'') @ CHR ''0'' # s"

definition dec_str :: "string \<Rightarrow> string \<times> string" where
  "dec_str b =
     (let n = length (takeWhile (\<lambda>c. c = CHR ''1'') b); rest = drop (Suc n) b in (take n rest, drop n rest))"

definition enc_int :: "int \<Rightarrow> string" where
  "enc_int i = (if i < 0 then ''-'' else '''') @ replicate (nat \<bar>i\<bar>) (CHR ''1'')"

definition dec_int :: "string \<Rightarrow> int" where
  "dec_int b = (if b \<noteq> '''' \<and> hd b = CHR ''-'' then - int (length b - 1) else int (length b))"

record etcd_world =
  ew_leases :: "int list"
  ew_next :: int
  ew_kvs :: "(string \<times> string \<times> int) list"

definition ew_live :: "etcd_world \<Rightarrow> int \<Rightarrow> bool" where
  "ew_live w l \<longleftrightarrow> l \<in> set (ew_leases w)"

definition ew_reg :: "etcd_world \<Rightarrow> string \<Rightarrow> (string \<times> int) option" where
  "ew_reg w k = map_of (ew_kvs w) k"

definition demo_etcd_call :: "string \<Rightarrow> string \<Rightarrow> string \<Rightarrow> etcd_world \<Rightarrow> (msg + string) \<times> etcd_world" where
  "demo_etcd_call url path body w =
     (if path = etcd_path LEASE_GRANT then
        (Inr (enc_int (ew_next w)), w\<lparr>ew_leases := ew_next w # ew_leases w, ew_next := ew_next w + 1\<rparr>)
      else if path = etcd_path PUT then
        (let (key, b1) = dec_str body; (lease, val) = dec_str b1
         in (Inr '''', w\<lparr>ew_kvs := (key, val, dec_int lease) # ew_kvs w\<rparr>))
      else if path = etcd_path LEASE_KEEPALIVE then
        (Inr (if ew_live w (dec_int body) then ''1'' else ''''), w)
      else (Inl ''not found'', w))"

definition demo_etcd :: "etcd_world network" where
  "demo_etcd =
     \<lparr>channel_init = (\<lambda>_ w. (True, w)), rpc_get = (\<lambda>_ _ w. (Inl ''down'', w)), rpc_write = (\<lambda>_ _ _ w. (Inl ''down'', w)),
      rpc_search = (\<lambda>_ w. (Inl ''down'', w)), rpc_mock_get = (\<lambda>_ _ w. (Inl ''down'', w)),
      http_init = (\<lambda>_ _ w. (True, w)), http_call = demo_etcd_call, rand = (\<lambda>lo hi w. (lo, w)),
      sleep = (\<lambda>_ w. w\<lparr>ew_leases := []\<rparr>), select_leader = (\<lambda>_ w. None), refresh_leader = (\<lambda>_ w. (False, w)),
      update_leader = (\<lambda>_ _ w. w), update_configuration = (\<lambda>_ _ w. (0, w)), IsAskedToQuit = (\<lambda>_. False)\<rparr>"

definition demo_codec :: etcd_codec where
  "demo_codec =
     \<lparr>grant_to = (\<lambda>q. (True, enc_int (gq_ttl q))), grant_from = (\<lambda>b _. (True, \<lparr>gr_id = dec_int b\<rparr>)),
      put_to = (\<lambda>q. (True, enc_str (pq_key q) @ enc_str (enc_int (pq_lease q)) @ pq_value q)),
      put_from = (\<lambda>_ _. (True, ())),
      alive_to = (\<lambda>q. (True, enc_int (aq_id q))), alive_from = (\<lambda>b _. (True, \<lparr>ar_ttl = int (length b)\<rparr>))\<rparr>"

lemma dec_enc_str [simp]: "dec_str (enc_str s @ b) = (s, b)"
proof -
  have "takeWhile (\<lambda>c. c = CHR ''1'') (replicate (length s) (CHR ''1'') @ CHR ''0'' # s @ b) = replicate (length s) (CHR ''1'')"
    by (simp add: takeWhile_append)
  then show ?thesis by (simp add: dec_str_def enc_str_def)
qed

lemma dec_enc_int [simp]: "dec_int (enc_int i) = i"
  by (auto simp: dec_int_def enc_int_def)

lemma demo_etcd_service: "etcd_service demo_etcd demo_codec ew_live ew_reg [''A'', ''B'']"
  by (simp add: etcd_service_def rand_spec_def grant_service_def put_service_def alive_service_def demo_etcd_def
      demo_codec_def demo_etcd_call_def ew_live_def ew_reg_def)

definition demo_etcd_client :: etcd_client where
  "demo_etcd_client = \<lparr>ec_chan_list = map Some [''A'', ''B''], ec_chan_size = 2, ec_running = True\<rparr>"

definition demo_world :: etcd_world where
  "demo_world = \<lparr>ew_leases = [], ew_next = 1, ew_kvs = []\<rparr>"

theorem EtcdOp_reaches_server_witness:
  "\<exists>ec w. EtcdClient_Init demo_etcd [(''h'', 1), (''i'', 2)] ''rr'' new_etcd_client demo_world = (True, ec, w) \<and>
     (\<exists>r' w'. EtcdOp demo_etcd (grant_to demo_codec) (grant_from demo_codec) (ec_chan_list ec) LEASE_GRANT
        \<lparr>gq_ttl = 9\<rparr> \<lparr>gr_id = 0\<rparr> w = Some (True, r', w'))"
proof -
  have init: "\<exists>ec w. EtcdClient_Init demo_etcd [(''h'', 1), (''i'', 2)] ''rr'' new_etcd_client demo_world = (True, ec, w)"
    by (simp add: EtcdClient_Init_def demo_etcd_def Let_def)
  have "rand_spec demo_etcd" by (simp add: rand_spec_def demo_etcd_def)
  moreover have "etcd_answers demo_etcd (grant_to demo_codec) (grant_from demo_codec) (etcd_path LEASE_GRANT) \<lparr>gq_ttl = 9\<rparr> (etcd_url (''h'', 1))"
    by (simp add: etcd_answers_def demo_etcd_def demo_codec_def demo_etcd_call_def)
  ultimately show ?thesis using init EtcdOp_reaches_server [of demo_etcd _ _ _ _ _ _ "(''h'', 1)"] by (metis list.set_intros(1))
qed



lemma register_func_without_lease_witness:
  "\<exists>w'. register_func (demo_etcd\<lparr>http_call := (\<lambda>url path body w. if path = etcd_path LEASE_GRANT then (Inl ''no space'', w)
        else demo_etcd_call url path body w)\<rparr>) demo_codec ''/nodes/ps/1'' ''80'' 9 demo_etcd_client demo_world = Some (0, w') \<and>
     ew_reg w' ''/nodes/ps/1'' = Some (''80'', 0)"
  by (rule register_func_without_lease [where urls = "[''A'', ''B'']"])
    (simp_all add: rand_spec_def demo_etcd_def demo_codec_def demo_etcd_client_def demo_etcd_call_def ew_reg_def)

end
