(* ===== verification/One_Writer_Map.thy ===== *)
theory One_Writer_Map
  imports Numeric_Util
begin

text \<open>
  \<^verbatim>\<open>utils/one_writer_multi_reader_map\<close>: the hash table from a space key to the slot of
  its connection. A bucket is a list of cells; a deleted entry stays as a cell with index
  -1, and a cell is live when its index is not negative. \<open>Put\<close> refuses as soon as the
  bucket holds any live cell, whatever its key.

  The locale \<open>index_map\<close> is what the table promises to \<open>SpaceManager\<close>; \<open>room\<close> says
  when \<open>Put\<close> accepts. The interpretation at the end discharges it for the code.
\<close>

record cell =
  cell_idx :: int
  cell_key :: string

type_synonym buckets = "cell list list"

definition OneWriterMultiReaderMap :: "nat \<Rightarrow> buckets" where
  "OneWriterMultiReaderMap bucket_count = replicate bucket_count []"

definition bucket_of :: "(string \<Rightarrow> 64 word) \<Rightarrow> buckets \<Rightarrow> string \<Rightarrow> nat ub" where
  "bucket_of hasher m key =
     (if length m = 0 then None else Some (unat (StrHashUint64 hasher key) mod length m))"

text \<open>The loops over a bucket: update the first cell with the key, and look it up.\<close>

primrec set_cell :: "string \<Rightarrow> int \<Rightarrow> cell list \<Rightarrow> cell list option" where
  "set_cell key idx [] = None"
| "set_cell key idx (c # cs) =
     (if cell_key c = key then Some (c\<lparr>cell_idx := idx\<rparr> # cs)
      else map_option ((#) c) (set_cell key idx cs))"

primrec get_cell :: "string \<Rightarrow> cell list \<Rightarrow> int" where
  "get_cell key [] = - 1"
| "get_cell key (c # cs) = (if cell_key c = key then cell_idx c else get_cell key cs)"

primrec clear_cell :: "string \<Rightarrow> cell list \<Rightarrow> cell list option" where
  "clear_cell key [] = None"
| "clear_cell key (c # cs) =
     (if cell_key c = key \<and> 0 \<le> cell_idx c then Some (c\<lparr>cell_idx := - 1\<rparr> # cs)
      else map_option ((#) c) (clear_cell key cs))"

definition Put :: "(string \<Rightarrow> 64 word) \<Rightarrow> buckets \<Rightarrow> string \<Rightarrow> int \<Rightarrow> (bool \<times> buckets) ub" where
  "Put hasher m key idx =
     do {
       index \<leftarrow> bucket_of hasher m key;
       let bucket = m ! index;
       Some (if list_ex (\<lambda>c. 0 \<le> cell_idx c) bucket then (False, m)
             else case set_cell key idx bucket of
               Some bucket' \<Rightarrow> (True, m[index := bucket'])
             | None \<Rightarrow> (True, m[index := bucket @ [\<lparr>cell_idx = idx, cell_key = key\<rparr>]]))
     }"

definition Get :: "(string \<Rightarrow> 64 word) \<Rightarrow> buckets \<Rightarrow> string \<Rightarrow> int ub" where
  "Get hasher m key =
     do {
       index \<leftarrow> bucket_of hasher m key;
       Some (get_cell key (m ! index))
     }"

definition Delete :: "(string \<Rightarrow> 64 word) \<Rightarrow> buckets \<Rightarrow> string \<Rightarrow> (bool \<times> buckets) ub" where
  "Delete hasher m key =
     do {
       index \<leftarrow> bucket_of hasher m key;
       Some (case clear_cell key (m ! index) of
               Some bucket' \<Rightarrow> (True, m[index := bucket'])
             | None \<Rightarrow> (False, m))
     }"

subsection \<open>What the table means\<close>

definition live :: "cell list \<Rightarrow> cell list" where
  "live cs = filter (\<lambda>c. 0 \<le> cell_idx c) cs"

definition bucket_ok :: "(string \<Rightarrow> bool) \<Rightarrow> cell list \<Rightarrow> bool" where
  "bucket_ok here cs \<longleftrightarrow>
     distinct (map cell_key cs) \<and> length (live cs) \<le> 1 \<and>
     (\<forall>c \<in> set cs. - 1 \<le> cell_idx c \<and> here (cell_key c))"

definition table_ok :: "(string \<Rightarrow> 64 word) \<Rightarrow> buckets \<Rightarrow> bool" where
  "table_ok hasher m \<longleftrightarrow>
     m \<noteq> [] \<and> (\<forall>i < length m. bucket_ok (\<lambda>k. bucket_of hasher m k = Some i) (m ! i))"

definition entries :: "(string \<Rightarrow> 64 word) \<Rightarrow> buckets \<Rightarrow> string \<rightharpoonup> int" where
  "entries hasher m k =
     (case Get hasher m k of Some i \<Rightarrow> if 0 \<le> i then Some i else None | None \<Rightarrow> None)"

definition room :: "(string \<Rightarrow> 64 word) \<Rightarrow> buckets \<Rightarrow> string \<Rightarrow> bool" where
  "room hasher m k \<longleftrightarrow>
     (case bucket_of hasher m k of Some i \<Rightarrow> live (m ! i) = [] | None \<Rightarrow> False)"

subsection \<open>The contract\<close>

locale index_map =
  fixes new :: "'m"
    and put :: "'m \<Rightarrow> string \<Rightarrow> int \<Rightarrow> (bool \<times> 'm) ub"
    and get :: "'m \<Rightarrow> string \<Rightarrow> int ub"
    and del :: "'m \<Rightarrow> string \<Rightarrow> (bool \<times> 'm) ub"
    and invar :: "'m \<Rightarrow> bool"
    and abs_map :: "'m \<Rightarrow> string \<rightharpoonup> int"
    and has_room :: "'m \<Rightarrow> string \<Rightarrow> bool"
  assumes invar_new: "invar new" and abs_new: "abs_map new = Map.empty"
    and get_law: "invar m \<Longrightarrow> get m k = Some (case abs_map m k of None \<Rightarrow> - 1 | Some i \<Rightarrow> i)"
    and abs_nonneg: "invar m \<Longrightarrow> abs_map m k = Some i \<Longrightarrow> 0 \<le> i"
    and put_room: "invar m \<Longrightarrow> 0 \<le> i \<Longrightarrow> has_room m k \<Longrightarrow>
      \<exists>m'. put m k i = Some (True, m') \<and> invar m' \<and> abs_map m' = (abs_map m)(k \<mapsto> i)"
    and put_full: "invar m \<Longrightarrow> \<not> has_room m k \<Longrightarrow> put m k i = Some (False, m)"
    and room_free: "invar m \<Longrightarrow> has_room m k \<Longrightarrow> abs_map m k = None"
    and del_law: "invar m \<Longrightarrow>
      \<exists>m'. del m k = Some (abs_map m k \<noteq> None, m') \<and> invar m' \<and> abs_map m' = (abs_map m)(k := None)"
begin

lemma get_nonneg_iff: "invar m \<Longrightarrow> get m k = Some i \<Longrightarrow> 0 \<le> i \<longleftrightarrow> abs_map m k = Some i"
  using get_law [of m k] abs_nonneg [of m k i] by (auto split: option.splits)

lemma get_put:
  assumes "invar m" and "0 \<le> i" and "put m k i = Some (True, m')"
  shows "get m' k' = (if k' = k then Some i else get m k')"
proof -
  from assms(1,3) put_full have r: "has_room m k" by fastforce
  from put_room [OF assms(1,2) r] assms(3)
  have "invar m'" and "abs_map m' = (abs_map m)(k \<mapsto> i)" by auto
  then show ?thesis using get_law [of m' k'] get_law [OF assms(1), of k'] by simp
qed

lemma put_invar:
  assumes "invar m" and "0 \<le> i" and "put m k i = Some (b, m')"
  shows "invar m'"
  using assms put_room [OF assms(1,2), of k] put_full [OF assms(1), of k i]
  by (cases "has_room m k") auto

lemma get_del:
  assumes "invar m" and "del m k = Some (b, m')"
  shows "get m' k' = (if k' = k then Some (- 1) else get m k')"
proof -
  from del_law [OF assms(1), of k] assms(2)
  have "invar m'" and "abs_map m' = (abs_map m)(k := None)" by auto
  then show ?thesis using get_law [of m' k'] get_law [OF assms(1), of k'] by simp
qed

end

text \<open>
  What the manager of the spaces makes of such a map: every entry points to a slot of its vector
  that holds an object with that key. Slots without an entry are allowed.
\<close>

definition points :: "('c \<Rightarrow> string) \<Rightarrow> (string \<rightharpoonup> int) \<Rightarrow> 'c option list \<Rightarrow> bool" where
  "points keyof mp conns \<longleftrightarrow>
     (\<forall>k i. mp k = Some i \<longrightarrow> (\<exists>c. at_ub conns i = Some (Some c) \<and> keyof c = k))"

definition looked_up :: "(string \<rightharpoonup> int) \<Rightarrow> 'c option list \<Rightarrow> string \<rightharpoonup> 'c" where
  "looked_up mp conns k = (case mp k of None \<Rightarrow> None | Some i \<Rightarrow> (case at_ub conns i of Some c \<Rightarrow> c | None \<Rightarrow> None))"

lemma pointsD:
  assumes "points keyof mp conns" and "mp k = Some i"
  obtains c where "0 \<le> i" and "i < int (length conns)" and "conns ! nat i = Some c" and "keyof c = k"
proof -
  from assms obtain c where "at_ub conns i = Some (Some c)" "keyof c = k" by (auto simp: points_def)
  with that show thesis by (auto simp: at_ub_def split: if_splits)
qed

lemma points_update:
  assumes "points keyof mp conns" and "i < length conns" and "conns ! i = None"
  shows "points keyof mp (conns[i := x])" and "looked_up mp (conns[i := x]) = looked_up mp conns"
proof -
  have "at_ub (conns[i := x]) j = at_ub conns j" if "mp k = Some j" for k j
    using assms that by (fastforce simp: points_def at_ub_def nth_list_update split: if_splits)
  with assms(1) show "points keyof mp (conns[i := x])" "looked_up mp (conns[i := x]) = looked_up mp conns"
    by (auto simp: points_def looked_up_def fun_eq_iff split: option.split)
qed

lemma points_append:
  assumes "points keyof mp conns"
  shows "points keyof mp (conns @ xs)" and "looked_up mp (conns @ xs) = looked_up mp conns"
proof -
  have "at_ub (conns @ xs) j = at_ub conns j" if "mp k = Some j" for k j
    using assms that by (fastforce simp: points_def at_ub_def nth_append nat_less_iff split: if_splits)
  with assms show "points keyof mp (conns @ xs)" "looked_up mp (conns @ xs) = looked_up mp conns"
    by (auto simp: points_def looked_up_def fun_eq_iff split: option.split)
qed

lemma points_put:
  assumes "points keyof mp conns" and "i < length conns" and "conns ! i = Some c"
  shows "points keyof (mp(keyof c \<mapsto> int i)) conns"
    and "looked_up (mp(keyof c \<mapsto> int i)) conns = (looked_up mp conns)(keyof c \<mapsto> c)"
  using assms by (auto simp: points_def looked_up_def at_ub_def fun_eq_iff)

lemma points_other:
  assumes "points keyof mp conns" and "mp k = Some i" and "mp k' = Some j" and "k' \<noteq> k"
  shows "at_ub (conns[nat i := x]) j = at_ub conns j"
proof -
  obtain c where c: "0 \<le> i" "conns ! nat i = Some c" "keyof c = k" by (rule pointsD [OF assms(1,2)])
  obtain c' where c': "0 \<le> j" "conns ! nat j = Some c'" "keyof c' = k'" by (rule pointsD [OF assms(1,3)])
  from c c' assms(4) have "nat j \<noteq> nat i" by auto
  then show ?thesis by (simp add: at_ub_def)
qed

lemma points_replace:
  assumes "points keyof mp conns" and "mp (keyof c) = Some i"
  shows "points keyof mp (conns[nat i := Some c])"
    and "looked_up mp (conns[nat i := Some c]) = (looked_up mp conns)(keyof c \<mapsto> c)"
proof -
  have "0 \<le> i" "i < int (length conns)" using pointsD [OF assms] by blast+
  then have here: "at_ub (conns[nat i := Some c]) i = Some (Some c)" by (simp add: at_ub_def)
  note keep = points_other [OF assms(1,2)]
  show "points keyof mp (conns[nat i := Some c])"
    unfolding points_def
  proof (intro allI impI)
    fix k j assume kj: "mp k = Some j"
    with assms(1) keep [OF kj] here assms(2) show "\<exists>d. at_ub (conns[nat i := Some c]) j = Some (Some d) \<and> keyof d = k"
      by (cases "k = keyof c") (auto simp: points_def)
  qed
  show "looked_up mp (conns[nat i := Some c]) = (looked_up mp conns)(keyof c \<mapsto> c)"
    using keep here assms(2) by (auto simp: looked_up_def fun_eq_iff split: option.split)
qed

lemma points_delete:
  assumes "points keyof mp conns" and "mp k = Some i"
  shows "points keyof (mp(k := None)) (conns[nat i := None])"
    and "looked_up (mp(k := None)) (conns[nat i := None]) = (looked_up mp conns)(k := None)"
proof -
  note keep = points_other [OF assms]
  with assms(1) show "points keyof (mp(k := None)) (conns[nat i := None])" by (auto simp: points_def)
  from keep show "looked_up (mp(k := None)) (conns[nat i := None]) = (looked_up mp conns)(k := None)"
    by (auto simp: looked_up_def fun_eq_iff split: option.split)
qed

context index_map
begin

text \<open>A slot that was filled with a new object, and the attempt to enter it in the map.\<close>

lemma enter_slot:
  assumes "invar m" and "points keyof (abs_map m) conns" and "i < length conns" and "conns ! i = Some c"
    and "put m (keyof c) (int i) = Some (b, m')"
  shows "invar m'" and "points keyof (abs_map m') conns"
    and "looked_up (abs_map m') conns =
      (if has_room m (keyof c) then (looked_up (abs_map m) conns)(keyof c \<mapsto> c) else looked_up (abs_map m) conns)"
proof -
  have "invar m' \<and> abs_map m' = (if has_room m (keyof c) then (abs_map m)(keyof c \<mapsto> int i) else abs_map m)"
    using put_room [OF assms(1), of "int i" "keyof c"] put_full [OF assms(1), of "keyof c" "int i"] assms(1,5)
    by (cases "has_room m (keyof c)") auto
  with points_put [OF assms(2-4)] assms(2)
  show "invar m'" "points keyof (abs_map m') conns"
    "looked_up (abs_map m') conns =
      (if has_room m (keyof c) then (looked_up (abs_map m) conns)(keyof c \<mapsto> c) else looked_up (abs_map m) conns)"
    by auto
qed

lemma remove_slot:
  assumes "invar m" and "points keyof (abs_map m) conns" and "get m k = Some i" and "0 \<le> i" and "del m k = Some (b, m')"
  shows "invar m'" and "points keyof (abs_map m') (conns[nat i := None])"
    and "looked_up (abs_map m') (conns[nat i := None]) = (looked_up (abs_map m) conns)(k := None)"
    and "nat i < length conns"
proof -
  have i: "abs_map m k = Some i" using get_nonneg_iff [OF assms(1,3)] assms(4) by simp
  have m': "invar m'" "abs_map m' = (abs_map m)(k := None)" using del_law [OF assms(1), of k] assms(5) by auto
  from m' points_delete [OF assms(2) i]
  show "invar m'" "points keyof (abs_map m') (conns[nat i := None])"
    "looked_up (abs_map m') (conns[nat i := None]) = (looked_up (abs_map m) conns)(k := None)" by simp_all
  obtain c where "i < int (length conns)" "conns ! nat i = Some c" by (rule pointsD [OF assms(2) i])
  then show "nat i < length conns" using assms(4) by linarith
qed

lemma find_slot:
  assumes "invar m" and "points keyof (abs_map m) conns" and "get m k = Some i"
  shows "if 0 \<le> i then \<exists>c. at_ub conns i = Some (Some c) \<and> looked_up (abs_map m) conns k = Some c \<and> keyof c = k
         else looked_up (abs_map m) conns k = None"
proof (cases "0 \<le> i")
  case True
  with get_nonneg_iff [OF assms(1,3)] have "abs_map m k = Some i" by simp
  with assms(2) True show ?thesis by (fastforce simp: points_def looked_up_def)
next
  case False
  with assms(3) get_law [OF assms(1), of k] abs_nonneg [OF assms(1)] have "abs_map m k = None"
    by (auto split: option.splits)
  with False show ?thesis by (simp add: looked_up_def)
qed

end

subsection \<open>Facts on a bucket\<close>

lemma live_Nil [simp]: "live [] = []"
  by (simp add: live_def)

lemma live_empty_iff: "live cs = [] \<longleftrightarrow> (\<forall>c \<in> set cs. \<not> 0 \<le> cell_idx c)"
  by (simp add: live_def filter_empty_conv)

lemma list_ex_live: "list_ex (\<lambda>c. 0 \<le> cell_idx c) cs \<longleftrightarrow> live cs \<noteq> []"
  by (auto simp: live_empty_iff list_ex_iff)

lemma set_cell_None: "set_cell key idx cs = None \<longleftrightarrow> key \<notin> cell_key ` set cs"
  by (induction cs) auto

lemma set_cell_Some:
  "set_cell key idx cs = Some cs' \<Longrightarrow>
     map cell_key cs' = map cell_key cs \<and>
     (\<forall>k. get_cell k cs' = (if k = key then idx else get_cell k cs)) \<and>
     (\<forall>c \<in> set cs'. c \<in> set cs \<or> (cell_idx c = idx \<and> cell_key c = key)) \<and>
     length (live cs') \<le> Suc (length (live cs))"
  by (induction cs arbitrary: cs') (auto simp: live_def split: if_splits)

lemma get_cell_append:
  "get_cell k (cs @ [c]) =
     (if k \<in> cell_key ` set cs then get_cell k cs else if cell_key c = k then cell_idx c else - 1)"
  by (induction cs) auto

lemma get_cell_absent: "k \<notin> cell_key ` set cs \<Longrightarrow> get_cell k cs = - 1"
  by (induction cs) auto

lemma get_cell_member: "k \<in> cell_key ` set cs \<Longrightarrow> \<exists>c \<in> set cs. cell_key c = k \<and> get_cell k cs = cell_idx c"
  by (induction cs) auto

lemma clear_cell_None:
  "distinct (map cell_key cs) \<Longrightarrow> clear_cell key cs = None \<longleftrightarrow> get_cell key cs < 0"
proof (induction cs)
  case Nil
  then show ?case by simp
next
  case (Cons c cs)
  then show ?case
    using get_cell_absent [of key cs] by (auto simp: image_iff)
qed

lemma clear_cell_absent: "key \<notin> cell_key ` set cs \<Longrightarrow> clear_cell key cs = None"
  by (induction cs) auto

lemma clear_cell_Some:
  "distinct (map cell_key cs) \<Longrightarrow> clear_cell key cs = Some cs' \<Longrightarrow>
     map cell_key cs' = map cell_key cs \<and>
     (\<forall>k. get_cell k cs' = (if k = key then - 1 else get_cell k cs)) \<and>
     (\<forall>c \<in> set cs'. c \<in> set cs \<or> (cell_idx c = - 1 \<and> cell_key c = key)) \<and>
     length (live cs') \<le> length (live cs)"
proof (induction cs arbitrary: cs')
  case Nil
  then show ?case by simp
next
  case (Cons c cs)
  show ?case
  proof (cases "cell_key c = key")
    case True
    with Cons.prems clear_cell_absent [of key cs] have "cs' = c\<lparr>cell_idx := - 1\<rparr> # cs" "0 \<le> cell_idx c"
      by (auto split: if_splits)
    with True show ?thesis by (auto simp: live_def)
  next
    case False
    with Cons show ?thesis by (auto simp: live_def)
  qed
qed

lemma get_cell_ge:
  assumes "bucket_ok here cs" shows "- 1 \<le> get_cell k cs"
  using assms get_cell_absent [of k cs] get_cell_member [of k cs] unfolding bucket_ok_def by fastforce

lemma live_get_cell: "live cs = [] \<Longrightarrow> get_cell k cs < 0"
  using get_cell_absent [of k cs] get_cell_member [of k cs] by (fastforce simp: live_empty_iff)

subsection \<open>Facts on the table\<close>

lemma bucket_of_update [simp]: "bucket_of hasher (m[i := b]) k = bucket_of hasher m k"
  by (simp add: bucket_of_def)

lemma bucket_of_less: "bucket_of hasher m k = Some i \<Longrightarrow> i < length m"
  by (auto simp: bucket_of_def split: if_splits)

lemma table_ok_bucket:
  assumes "table_ok hasher m"
  obtains i where "bucket_of hasher m k = Some i" and "i < length m"
    and "bucket_ok (\<lambda>k. bucket_of hasher m k = Some i) (m ! i)"
proof -
  from assms have "length m \<noteq> 0" by (simp add: table_ok_def)
  then obtain i where "bucket_of hasher m k = Some i" by (simp add: bucket_of_def)
  moreover from bucket_of_less [OF this] have "i < length m" .
  ultimately show ?thesis using assms that by (simp add: table_ok_def)
qed

lemma table_ok_update:
  assumes "table_ok hasher m" and "bucket_ok (\<lambda>k. bucket_of hasher m k = Some i) b"
  shows "table_ok hasher (m[i := b])"
proof -
  have "bucket_ok (\<lambda>k. bucket_of hasher m k = Some j) (m[i := b] ! j)" if "j < length m" for j
    using assms that by (cases "i = j") (simp_all add: table_ok_def)
  with assms(1) show ?thesis by (simp add: table_ok_def)
qed

lemma Get_update:
  assumes "i < length m" and "bucket_of hasher m k = Some j"
  shows "Get hasher (m[i := b]) k = Some (get_cell k (if j = i then b else m ! j))"
  using assms by (auto simp: Get_def)

lemma entries_update:
  assumes "table_ok hasher m" and "bucket_of hasher m key = Some i"
    and "\<And>k. get_cell k b = (if k = key then idx else get_cell k (m ! i))"
  shows "entries hasher (m[i := b]) =
    (entries hasher m)(key := (if 0 \<le> idx then Some idx else None))"
proof
  fix k
  obtain j where j: "bucket_of hasher m k = Some j" "j < length m"
    using assms(1) by (rule table_ok_bucket)
  have i: "i < length m" using assms(2) by (rule bucket_of_less)
  show "entries hasher (m[i := b]) k =
    ((entries hasher m)(key := (if 0 \<le> idx then Some idx else None))) k"
    using assms(2,3) j Get_update [OF i j(1), of b] by (auto simp: entries_def Get_def)
qed

lemma bucket_ok_put:
  assumes "bucket_ok here cs" and "here key" and "live cs = []" and "- 1 \<le> idx"
  shows "set_cell key idx cs = Some cs' \<Longrightarrow> bucket_ok here cs'"
    and "set_cell key idx cs = None \<Longrightarrow> bucket_ok here (cs @ [\<lparr>cell_idx = idx, cell_key = key\<rparr>])"
proof -
  assume s: "set_cell key idx cs = Some cs'"
  have "length (live cs') \<le> 1" using set_cell_Some [OF s] assms(3) by simp
  with set_cell_Some [OF s] assms(1,2,4) show "bucket_ok here cs'"
    unfolding bucket_ok_def by (metis (no_types, lifting))
next
  assume "set_cell key idx cs = None"
  then have "key \<notin> cell_key ` set cs" by (simp add: set_cell_None)
  with assms show "bucket_ok here (cs @ [\<lparr>cell_idx = idx, cell_key = key\<rparr>])"
    by (auto simp: bucket_ok_def live_def)
qed

lemma Put_room:
  assumes ok: "table_ok hasher m" and idx: "- 1 \<le> idx" and r: "room hasher m key"
  shows "\<exists>m'. Put hasher m key idx = Some (True, m') \<and> table_ok hasher m' \<and>
    entries hasher m' = (entries hasher m)(key := (if 0 \<le> idx then Some idx else None))"
proof -
  obtain i where i: "bucket_of hasher m key = Some i" "i < length m"
    "bucket_ok (\<lambda>k. bucket_of hasher m k = Some i) (m ! i)"
    using ok by (rule table_ok_bucket)
  from r i(1) have empty: "live (m ! i) = []" by (simp add: room_def)
  note putb = bucket_ok_put [OF i(3) i(1) empty idx]
  show ?thesis
  proof (cases "set_cell key idx (m ! i)")
    case None
    let ?b = "m ! i @ [\<lparr>cell_idx = idx, cell_key = key\<rparr>]"
    have "Put hasher m key idx = Some (True, m[i := ?b])"
      using None i(1) empty by (simp add: Put_def list_ex_live)
    moreover have "table_ok hasher (m[i := ?b])"
      using ok putb(2) [OF None] by (rule table_ok_update)
    moreover have "get_cell k ?b = (if k = key then idx else get_cell k (m ! i))" for k
      using None set_cell_None [of key idx "m ! i"] get_cell_absent [of k "m ! i"]
      by (auto simp: get_cell_append)
    ultimately show ?thesis using entries_update [OF ok i(1), of ?b idx] by auto
  next
    case (Some b)
    have "Put hasher m key idx = Some (True, m[i := b])"
      using Some i(1) empty by (simp add: Put_def list_ex_live)
    moreover have "table_ok hasher (m[i := b])"
      using ok putb(1) [OF Some] by (rule table_ok_update)
    ultimately show ?thesis
      using entries_update [OF ok i(1), of b idx] set_cell_Some [OF Some] by auto
  qed
qed

lemma Delete_entries:
  assumes ok: "table_ok hasher m"
  shows "\<exists>m'. Delete hasher m key = Some (entries hasher m key \<noteq> None, m') \<and> table_ok hasher m' \<and>
    entries hasher m' = (entries hasher m)(key := None)"
proof -
  obtain i where i: "bucket_of hasher m key = Some i" "i < length m"
    "bucket_ok (\<lambda>k. bucket_of hasher m k = Some i) (m ! i)"
    using ok by (rule table_ok_bucket)
  then have dist: "distinct (map cell_key (m ! i))" by (simp add: bucket_ok_def)
  have e: "entries hasher m key \<noteq> None \<longleftrightarrow> 0 \<le> get_cell key (m ! i)"
    using i(1) by (simp add: entries_def Get_def)
  show ?thesis
  proof (cases "clear_cell key (m ! i)")
    case None
    with dist have "get_cell key (m ! i) < 0" by (simp add: clear_cell_None)
    with None e i(1) have "Delete hasher m key = Some (False, m)" "entries hasher m key = None"
      by (simp_all add: Delete_def)
    with ok show ?thesis by (auto simp: fun_upd_idem)
  next
    case (Some b)
    with dist have "\<not> get_cell key (m ! i) < 0"
      using clear_cell_None by (metis option.distinct(1))
    with Some e i(1) have "Delete hasher m key = Some (entries hasher m key \<noteq> None, m[i := b])"
      by (simp add: Delete_def)
    moreover have "bucket_ok (\<lambda>k. bucket_of hasher m k = Some i) b"
      using i(3) clear_cell_Some [OF dist Some] i(1) unfolding bucket_ok_def by fastforce
    then have "table_ok hasher (m[i := b])" by (rule table_ok_update [OF ok])
    ultimately show ?thesis
      using entries_update [OF ok i(1), of b "- 1"] clear_cell_Some [OF dist Some] by auto
  qed
qed

lemma table_ok_new: "0 < n \<Longrightarrow> table_ok hasher (OneWriterMultiReaderMap n)"
  by (simp add: table_ok_def OneWriterMultiReaderMap_def bucket_ok_def)

lemma entries_new: "entries hasher (OneWriterMultiReaderMap n) = Map.empty"
  by (auto simp: fun_eq_iff entries_def Get_def bucket_of_def OneWriterMultiReaderMap_def)

lemma Get_entries:
  assumes "table_ok hasher m"
  shows "Get hasher m k = Some (case entries hasher m k of None \<Rightarrow> - 1 | Some i \<Rightarrow> i)"
proof -
  obtain i where i: "bucket_of hasher m k = Some i"
    "bucket_ok (\<lambda>k. bucket_of hasher m k = Some i) (m ! i)"
    using assms by (rule table_ok_bucket)
  then show ?thesis using get_cell_ge [OF i(2), of k] by (simp add: entries_def Get_def)
qed

lemma Put_full:
  assumes "table_ok hasher m" and "\<not> room hasher m k"
  shows "Put hasher m k i = Some (False, m)"
  using assms table_ok_bucket [OF assms(1), of k]
  by (auto simp: room_def Put_def list_ex_live split: option.splits)

lemma entries_nonneg: "entries hasher m k = Some i \<Longrightarrow> 0 \<le> i"
  by (auto simp: entries_def split: option.splits if_splits)

lemma room_entries:
  assumes "table_ok hasher m" and "room hasher m k"
  shows "entries hasher m k = None"
proof -
  obtain i where i: "bucket_of hasher m k = Some i" using assms(1) by (rule table_ok_bucket)
  with assms(2) have "live (m ! i) = []" by (simp add: room_def)
  then have "get_cell k (m ! i) < 0" by (rule live_get_cell)
  with i show ?thesis by (simp add: entries_def Get_def)
qed

interpretation owm: index_map "OneWriterMultiReaderMap 500" "Put hasher" "Get hasher" "Delete hasher"
  "table_ok hasher" "entries hasher" "room hasher" for hasher
proof unfold_locales
  show "table_ok hasher (OneWriterMultiReaderMap 500)"
    by (rule table_ok_new) simp
  show "entries hasher (OneWriterMultiReaderMap 500) = Map.empty"
    by (rule entries_new)
  show "\<exists>m'. Put hasher m k i = Some (True, m') \<and> table_ok hasher m' \<and>
      entries hasher m' = (entries hasher m)(k \<mapsto> i)"
    if "table_ok hasher m" "0 \<le> i" "room hasher m k" for m k i
    using Put_room [OF that(1) _ that(3), of i] that(2) by simp
qed (rule Get_entries entries_nonneg Put_full room_entries Delete_entries; assumption)+

subsection \<open>Properties of the table\<close>

text \<open>C10: an accepted \<open>Put\<close> binds its key and no other: the table stays well formed, the key
  reads back the index put, and every other key reads what it read before.\<close>

theorem Put_then_Get:
  assumes "table_ok hasher m" and "0 \<le> idx" and "Put hasher m key idx = Some (True, m')"
  shows "table_ok hasher m' \<and> (\<forall>k. Get hasher m' k = (if k = key then Some idx else Get hasher m k))"
  using owm.put_invar [OF assms] owm.get_put [OF assms] by simp

text \<open>C33: \<open>Delete\<close> forgets its key and no other, and answers whether the key was bound.\<close>

theorem Delete_then_Get:
  assumes "table_ok hasher m" and "Delete hasher m key = Some (found, m')"
  shows "table_ok hasher m' \<and> found = (Get hasher m key \<noteq> Some (- 1)) \<and>
    (\<forall>k. Get hasher m' k = (if k = key then Some (- 1) else Get hasher m k))"
proof -
  have "table_ok hasher m'" and "found = (entries hasher m key \<noteq> None)"
    using owm.del_law [OF assms(1), of key] assms(2) by auto
  moreover have "(entries hasher m key \<noteq> None) = (Get hasher m key \<noteq> Some (- 1))"
    using owm.get_law [OF assms(1), of key] entries_nonneg [of hasher m key] by (auto split: option.splits)
  ultimately show ?thesis using owm.get_del [OF assms] by simp
qed

lemma entries_live:
  assumes "table_ok hasher m" and "bucket_of hasher m key = Some i"
  shows "live (m ! i) \<noteq> [] \<longleftrightarrow> (\<exists>k. bucket_of hasher m k = Some i \<and> entries hasher m k \<noteq> None)"
proof
  assume "live (m ! i) \<noteq> []"
  then obtain c where c: "c \<in> set (m ! i)" "0 \<le> cell_idx c" by (auto simp: live_empty_iff)
  have ok: "bucket_ok (\<lambda>k. bucket_of hasher m k = Some i) (m ! i)"
    using assms bucket_of_less [OF assms(2)] by (simp add: table_ok_def)
  then have b: "bucket_of hasher m (cell_key c) = Some i" using c(1) by (simp add: bucket_ok_def)
  obtain c' where "c' \<in> set (m ! i)" "cell_key c' = cell_key c" "get_cell (cell_key c) (m ! i) = cell_idx c'"
    using get_cell_member [of "cell_key c" "m ! i"] c(1) by auto
  moreover have "distinct (map cell_key (m ! i))" using ok by (simp add: bucket_ok_def)
  ultimately have "get_cell (cell_key c) (m ! i) = cell_idx c"
    using c(1) by (metis distinct_map inj_onD)
  with b c(2) show "\<exists>k. bucket_of hasher m k = Some i \<and> entries hasher m k \<noteq> None"
    by (auto simp: entries_def Get_def intro!: exI [of _ "cell_key c"])
next
  assume "\<exists>k. bucket_of hasher m k = Some i \<and> entries hasher m k \<noteq> None"
  then show "live (m ! i) \<noteq> []"
    using room_entries [OF assms(1)] by (auto simp: room_def)
qed

text \<open>C34: \<open>Put\<close> is refused exactly when the bucket of the key already holds a live entry,
  its own or that of any other key that hashes there; a refused \<open>Put\<close> changes nothing.\<close>

theorem Put_refused_iff:
  assumes "table_ok hasher m" and "0 \<le> idx"
  shows "Put hasher m key idx = Some (False, m) \<longleftrightarrow>
    (\<exists>k. bucket_of hasher m k = bucket_of hasher m key \<and> Get hasher m k \<noteq> Some (- 1))"
proof -
  obtain i where i: "bucket_of hasher m key = Some i" using assms(1) by (rule table_ok_bucket)
  have live: "(entries hasher m k \<noteq> None) = (Get hasher m k \<noteq> Some (- 1))" for k
    using owm.get_law [OF assms(1), of k] entries_nonneg [of hasher m k] by (auto split: option.splits)
  have "Put hasher m key idx = Some (False, m) \<longleftrightarrow> \<not> room hasher m key"
    using Put_room [OF assms(1), of idx key] Put_full [OF assms(1), of key idx] assms(2) by auto
  also have "\<dots> \<longleftrightarrow> live (m ! i) \<noteq> []" using i by (simp add: room_def)
  finally show ?thesis using entries_live [OF assms(1) i] i live by auto
qed

definition demo_hash :: "string \<Rightarrow> 64 word" where
  "demo_hash s = of_nat (length s)"

lemma demo_Put:
  "Put demo_hash (OneWriterMultiReaderMap 2) ''ab'' 5 =
     Some (True, [[\<lparr>cell_idx = 5, cell_key = ''ab''\<rparr>], []])"
  "Put demo_hash [[\<lparr>cell_idx = 5, cell_key = ''ab''\<rparr>], []] ''cd'' 6 =
     Some (False, [[\<lparr>cell_idx = 5, cell_key = ''ab''\<rparr>], []])"
  "Delete demo_hash [[\<lparr>cell_idx = 5, cell_key = ''ab''\<rparr>], []] ''ab'' =
     Some (True, [[\<lparr>cell_idx = - 1, cell_key = ''ab''\<rparr>], []])"
  by code_simp+

lemma demo_table_ok: "table_ok demo_hash [[\<lparr>cell_idx = 5, cell_key = ''ab''\<rparr>], []]"
  by (rule owm.put_invar [OF table_ok_new _ demo_Put(1)]) simp_all

theorem Put_then_Get_witness:
  "\<forall>k. Get demo_hash [[\<lparr>cell_idx = 5, cell_key = ''ab''\<rparr>], []] k =
     (if k = ''ab'' then Some 5 else Get demo_hash (OneWriterMultiReaderMap 2) k)"
  using Put_then_Get [OF table_ok_new _ demo_Put(1)] by simp

theorem Delete_then_Get_witness:
  "\<forall>k. Get demo_hash [[\<lparr>cell_idx = - 1, cell_key = ''ab''\<rparr>], []] k =
     (if k = ''ab'' then Some (- 1) else Get demo_hash [[\<lparr>cell_idx = 5, cell_key = ''ab''\<rparr>], []] k)"
  using Delete_then_Get [OF demo_table_ok demo_Put(3)] by simp

theorem Put_refused_iff_witness:
  "\<exists>k. bucket_of demo_hash [[\<lparr>cell_idx = 5, cell_key = ''ab''\<rparr>], []] k =
       bucket_of demo_hash [[\<lparr>cell_idx = 5, cell_key = ''ab''\<rparr>], []] ''cd'' \<and>
     Get demo_hash [[\<lparr>cell_idx = 5, cell_key = ''ab''\<rparr>], []] k \<noteq> Some (- 1)"
  using Put_refused_iff [OF demo_table_ok, of 6 "''cd''"] demo_Put(2) by simp

end
