(* ===== verification/Space_Manager.thy ===== *)
theory Space_Manager
  imports Space_Connection Local_Spaces Etcd_Client One_Writer_Map
begin

text \<open>
  The spaces the router serves, \<open>service/router/space_manager.h\<close> and
  \<open>service/router/space_manager.cc\<close>: a vector of connections, the hash table from space keys to
  slots of that vector, and the grouping of documents by partition.

  \<open>router\<close> is the state of the process the manager works on: the manager and the local spaces
  (both singletons), the disk and the world of the network. What is not part of the
  repository is the record \<open>router_lib\<close>: the network, the hash function, the JSON converters,
  the protobuf serialisation, the growth of a vector that is full, and what a document is
  after it was moved from. The pointer \<open>_etcd_client\<close> that \<open>Init\<close> stores is never read.
\<close>

subsection \<open>State\<close>

record 'w router_lib =
  rl_net :: "'w network"
  rl_hasher :: "string \<Rightarrow> 64 word"
  rl_range_to :: "range_request to_json"
  rl_range_from :: "range_response from_json"
  rl_space_of_json :: "string \<Rightarrow> msg + pb_space"
  rl_spaces_to :: "pb_space list to_json"
  rl_spaces_from :: "pb_space list from_json"
  rl_protobuf :: protobuf
  rl_grow :: "nat \<Rightarrow> nat"
  rl_moved :: "pb_document \<Rightarrow> pb_document"

record space_manager =
  sm_spaces_conn :: "space_connection option list"
  sm_capacity :: nat
  sm_space_idx_mp :: buckets

definition new_space_manager :: space_manager where
  "new_space_manager = \<lparr>sm_spaces_conn = [], sm_capacity = 0, sm_space_idx_mp = OneWriterMultiReaderMap 500\<rparr>"

record 'w router =
  rt_manager :: space_manager
  rt_local :: local_spaces
  rt_fs :: file_system
  rt_world :: 'w

definition push_back :: "(nat \<Rightarrow> nat) \<Rightarrow> space_connection \<Rightarrow> space_manager \<Rightarrow> space_manager" where
  "push_back grow conn sm =
     sm\<lparr>sm_spaces_conn := sm_spaces_conn sm @ [Some conn],
        sm_capacity := (if length (sm_spaces_conn sm) < sm_capacity sm then sm_capacity sm else grow (sm_capacity sm))\<rparr>"

definition enter :: "'w router_lib \<Rightarrow> string \<Rightarrow> int \<Rightarrow> space_manager \<Rightarrow> space_manager ub" where
  "enter lib key idx sm = do {
     (_, mp) \<leftarrow> Put (rl_hasher lib) (sm_space_idx_mp sm) key (int16_of idx);
     Some (sm\<lparr>sm_space_idx_mp := mp\<rparr>)
   }"

definition save_local :: "'w router_lib \<Rightarrow> local_spaces \<Rightarrow> 'w router \<Rightarrow> 'w router" where
  "save_local lib ls rt = rt\<lparr>rt_local := ls, rt_fs := snd (LocalSpaces_Save (rl_spaces_to lib) ls (rt_fs rt))\<rparr>"

subsection \<open>Initialisation\<close>

definition SpaceJsonToPb :: "'w router_lib \<Rightarrow> string \<Rightarrow> msg + pb_space" where
  "SpaceJsonToPb lib space_json =
     (case rl_space_of_json lib space_json of
        Inl status \<Rightarrow> Inl (''Failed to parse space JSON: '' @ status @ '' space_json:'' @ space_json)
      | Inr pb_space \<Rightarrow> Inr pb_space)"

fun parse_kvs :: "'w router_lib \<Rightarrow> (string \<times> string) list \<Rightarrow> msg + pb_space list" where
  "parse_kvs lib [] = Inr []"
| "parse_kvs lib ((key, val) # kvs) =
     (case SpaceJsonToPb lib val of
        Inl m \<Rightarrow> Inl m
      | Inr pb_space \<Rightarrow> (case parse_kvs lib kvs of Inl m \<Rightarrow> Inl m | Inr spaces \<Rightarrow> Inr (pb_space # spaces)))"

fun install_spaces :: "'w router_lib \<Rightarrow> pb_space list \<Rightarrow> nat \<Rightarrow> space_manager \<Rightarrow> 'w \<Rightarrow> (space_manager \<times> 'w) ub" where
  "install_spaces lib [] i sm w = Some (sm, w)"
| "install_spaces lib (space # spaces) i sm w = do {
     (_, conn, w1) \<leftarrow> SpaceConnection_Init (rl_net lib) space new_space_connection w;
     sm1 \<leftarrow> enter lib (sc_space_key conn) (int i) (push_back (rl_grow lib) conn sm);
     install_spaces lib spaces (Suc i) sm1 w1
   }"

definition install_all :: "'w router_lib \<Rightarrow> pb_space list \<Rightarrow> 'w router \<Rightarrow> (msg \<times> 'w router) ub" where
  "install_all lib spaces_info rt = do {
     (sm, w) \<leftarrow> install_spaces lib spaces_info 0 (rt_manager rt) (rt_world rt);
     Some ('''', rt\<lparr>rt_manager := sm, rt_world := w\<rparr>)
   }"

definition range_of_spaces :: range_request where
  "range_of_spaces =
     \<lparr>rq_key = etcd_space_prefix, rq_range_end = GetRangeEnd etcd_space_prefix, rq_ascend = True, rq_target_key = True\<rparr>"

text \<open>\<open>max_space_num\<close> is an \<open>int16_t\<close>; reserving a negative number throws.\<close>

definition SpaceManager_Init :: "'w router_lib \<Rightarrow> int \<Rightarrow> etcd_client \<Rightarrow> 'w router \<Rightarrow> (msg \<times> 'w router) ub" where
  "SpaceManager_Init lib max_space_num ec rt = do {
     n \<leftarrow> (if max_space_num < 0 then None else Some (nat max_space_num));
     let rt1 = rt\<lparr>rt_manager := (rt_manager rt)\<lparr>sm_capacity := max (sm_capacity (rt_manager rt)) n\<rparr>\<rparr>;
     (ok, resp, w) \<leftarrow>
       EtcdClient_Range (rl_net lib) (rl_range_to lib) (rl_range_from lib) range_of_spaces \<lparr>rr_kvs = []\<rparr> ec (rt_world rt);
     let rt2 = rt1\<lparr>rt_world := w\<rparr>;
     if \<not> ok then Some (''Init SpaceManager fail, get space info from etcd failed'', rt2)
     else if rr_kvs resp = [] then
       (let ls = snd (LocalSpaces_Load (rl_spaces_from lib) (rt_local rt2) (rt_fs rt2))
        in install_all lib (LocalSpaces_GetSpaces ls) (rt2\<lparr>rt_local := ls\<rparr>))
     else
       (case parse_kvs lib (rr_kvs resp) of
          Inl m \<Rightarrow> Some (m, rt2)
        | Inr spaces_info \<Rightarrow>
            install_all lib spaces_info (save_local lib (LocalSpaces_SetSpaces spaces_info (rt_local rt2)) rt2))
   }"

subsection \<open>Adding, deleting and finding a space\<close>

primrec first_null :: "'c option list \<Rightarrow> nat option" where
  "first_null [] = None"
| "first_null (c # cs) = (if c = None then Some 0 else map_option Suc (first_null cs))"

definition SpaceManager_AddSpace :: "'w router_lib \<Rightarrow> pb_space \<Rightarrow> 'w router \<Rightarrow> (msg \<times> 'w router) ub" where
  "SpaceManager_AddSpace lib pb_space rt = do {
     (_, conn, w) \<leftarrow> SpaceConnection_Init (rl_net lib) pb_space new_space_connection (rt_world rt);
     let rt1 = rt\<lparr>rt_world := w\<rparr>;
     let sm = rt_manager rt;
     idx \<leftarrow> Get (rl_hasher lib) (sm_space_idx_mp sm) (sc_space_key conn);
     if idx \<ge> 0 then Some (''space_key:'' @ sc_space_key conn @ '' is already exist, not add.'', rt1)
     else case first_null (sm_spaces_conn sm) of
       Some i \<Rightarrow> do {
         sm1 \<leftarrow> enter lib (sc_space_key conn) (int i) (sm\<lparr>sm_spaces_conn := (sm_spaces_conn sm)[i := Some conn]\<rparr>);
         Some ('''', rt1\<lparr>rt_manager := sm1\<rparr>)
       }
     | None \<Rightarrow>
         if length (sm_spaces_conn sm) \<ge> sm_capacity sm then
           Some (''spaces num > max_space_num['' @ to_string (int (sm_capacity sm)) @ ''] create space failed'', rt1)
         else do {
           sm1 \<leftarrow> enter lib (sc_space_key conn) (int (length (sm_spaces_conn sm))) (push_back (rl_grow lib) conn sm);
           Some ('''', save_local lib (snd (LocalSpaces_AddSpace pb_space (rt_local rt1))) (rt1\<lparr>rt_manager := sm1\<rparr>))
         }
   }"

definition SpaceManager_DeleteSpace :: "'w router_lib \<Rightarrow> string \<Rightarrow> space_manager \<Rightarrow> (msg \<times> space_manager) ub" where
  "SpaceManager_DeleteSpace lib space_key sm = do {
     idx \<leftarrow> Get (rl_hasher lib) (sm_space_idx_mp sm) space_key;
     if idx \<ge> 0 then do {
       (_, mp) \<leftarrow> Delete (rl_hasher lib) (sm_space_idx_mp sm) space_key;
       conns \<leftarrow> update_ub (sm_spaces_conn sm) idx None;
       Some ('''', sm\<lparr>sm_space_idx_mp := mp, sm_spaces_conn := conns\<rparr>)
     } else Some (''space_key:'' @ space_key @ '' is not exit, not delete.'', sm)
   }"

text \<open>The message is an argument that is changed only when the space is not found.\<close>

definition GetSpaceConn :: "'w router_lib \<Rightarrow> string \<Rightarrow> msg \<Rightarrow> space_manager \<Rightarrow> (space_connection option \<times> msg) ub" where
  "GetSpaceConn lib space_key m sm =
     (if length space_key \<le> 1 then Some (None, ''db_name and space_name is null'')
      else do {
        space_idx \<leftarrow> Get (rl_hasher lib) (sm_space_idx_mp sm) space_key;
        if space_idx < 0 then Some (None, ''db_name and space_name ['' @ space_key @ ''] is not exist'')
        else do {
          space_conn \<leftarrow> at_ub (sm_spaces_conn sm) space_idx;
          Some (space_conn,
            if space_conn = None then ''db_name and space_name  ['' @ space_key @ ''] is deleted.'' else m)
        }
      })"

subsection \<open>Grouping by partition\<close>

definition partition_id :: "'w router_lib \<Rightarrow> string \<Rightarrow> int \<Rightarrow> int ub" where
  "partition_id lib key partition_num = map_option int32_of (GetPartitionId (rl_hasher lib) key partition_num)"

definition empty_group :: "int \<Rightarrow> docs_group" where
  "empty_group pid = \<lparr>dg_partition_id = pid, dg_pb_doc_infos = []\<rparr>"

definition ensure_group :: "int \<Rightarrow> (int, docs_group) std_map \<Rightarrow> (int, docs_group) std_map" where
  "ensure_group pid grps = (if map_of grps pid = None then std_map_set pid (empty_group pid) grps else grps)"

text \<open>The first loop makes the groups, the second fills them.\<close>

fun make_groups :: "'w router_lib \<Rightarrow> pb_document list \<Rightarrow> string list \<Rightarrow> int \<Rightarrow> nat \<Rightarrow> (int, docs_group) std_map
    \<Rightarrow> (int, docs_group) std_map ub" where
  "make_groups lib ds [] partition_num i grps = Some grps"
| "make_groups lib ds (key # keys) partition_num i grps = do {
     doc \<leftarrow> at_ub ds (int i);
     pid \<leftarrow> partition_id lib key partition_num;
     make_groups lib ds keys partition_num (Suc i) (ensure_group pid grps)
   }"

fun fill_groups :: "'w router_lib \<Rightarrow> pb_document list \<Rightarrow> string list \<Rightarrow> int \<Rightarrow> nat \<Rightarrow> (int, docs_group) std_map
    \<Rightarrow> (int, docs_group) std_map ub" where
  "fill_groups lib [] doc_keys partition_num i grps = Some grps"
| "fill_groups lib (doc # ds) doc_keys partition_num i grps = do {
     key \<leftarrow> at_ub doc_keys (int i);
     pid \<leftarrow> partition_id lib key partition_num;
     let grps1 = ensure_group pid grps;
     grp \<leftarrow> map_of grps1 pid;
     fill_groups lib ds doc_keys partition_num (Suc i)
       (std_map_set pid (grp\<lparr>dg_pb_doc_infos := dg_pb_doc_infos grp @ [(key, doc)]\<rparr>) grps1)
   }"

definition HashDocs :: "'w router_lib \<Rightarrow> pb_document list \<Rightarrow> string list \<Rightarrow> int \<Rightarrow> (int, docs_group) std_map ub" where
  "HashDocs lib ds doc_keys partition_num = do {
     grps \<leftarrow> make_groups lib ds doc_keys partition_num 0 [];
     fill_groups lib ds doc_keys partition_num 0 grps
   }"

fun hash_keys :: "'w router_lib \<Rightarrow> string list \<Rightarrow> int \<Rightarrow> (int, string list) std_map \<Rightarrow> (int, string list) std_map ub" where
  "hash_keys lib [] partition_num idx_to_keys = Some idx_to_keys"
| "hash_keys lib (doc_key # doc_keys) partition_num idx_to_keys = do {
     pid \<leftarrow> partition_id lib doc_key partition_num;
     let mp = (if map_of idx_to_keys pid = None then std_map_set pid [] idx_to_keys else idx_to_keys);
     keys \<leftarrow> map_of mp pid;
     hash_keys lib doc_keys partition_num (std_map_set pid (keys @ [doc_key]) mp)
   }"

definition HashKeys :: "'w router_lib \<Rightarrow> string list \<Rightarrow> int \<Rightarrow> (int, string list) std_map ub" where
  "HashKeys lib doc_keys partition_num = hash_keys lib doc_keys partition_num []"

subsection \<open>Writing through the manager\<close>

definition not_exist_errors :: "msg \<Rightarrow> (int, docs_group) std_map \<Rightarrow> (string, msg) std_map" where
  "not_exist_errors m grps =
     foldl (\<lambda>res (i, grp). foldl (\<lambda>r (key, doc). std_map_set key m r) res (dg_pb_doc_infos grp)) [] grps"

text \<open>The connection is shared: what writing changes in it is seen through the manager.\<close>

definition put_conn :: "string \<Rightarrow> 'w router_lib \<Rightarrow> space_connection \<Rightarrow> space_manager \<Rightarrow> space_manager ub" where
  "put_conn space_key lib sc sm = do {
     idx \<leftarrow> Get (rl_hasher lib) (sm_space_idx_mp sm) space_key;
     conns \<leftarrow> update_ub (sm_spaces_conn sm) idx (Some sc);
     Some (sm\<lparr>sm_spaces_conn := conns\<rparr>)
   }"

definition UpsertDocsToPs :: "'w router_lib \<Rightarrow> string \<Rightarrow> (int, docs_group) std_map \<Rightarrow> msg \<Rightarrow> space_manager \<Rightarrow> 'w
    \<Rightarrow> ((string, msg) std_map \<times> msg \<times> space_manager \<times> 'w) ub" where
  "UpsertDocsToPs lib space_key docs_groups m sm w = do {
     (space_conn, m1) \<leftarrow> GetSpaceConn lib space_key m sm;
     case (if m1 \<noteq> '''' then None else space_conn) of
       None \<Rightarrow>
         (let m2 = ''space_key:'' @ space_key @ '' is not exist''
          in Some (not_exist_errors m2 docs_groups, m2, sm, w))
     | Some sc \<Rightarrow> do {
         (errs, sc1, w1) \<leftarrow> SpaceConnection_UpsertDocs (rl_protobuf lib) (rl_net lib) docs_groups [] sc w;
         sm1 \<leftarrow> put_conn space_key lib sc1 sm;
         Some (errs, m1, sm1, w1)
       }
   }"

subsection \<open>The manager as a map from keys to connections\<close>

definition served :: "'w router_lib \<Rightarrow> space_manager \<Rightarrow> string \<rightharpoonup> space_connection" where
  "served lib sm = looked_up (entries (rl_hasher lib) (sm_space_idx_mp sm)) (sm_spaces_conn sm)"

text \<open>The indices of the slots are 16-bit integers: the capacity keeps them in range.\<close>

definition sm_ok :: "'w router_lib \<Rightarrow> space_manager \<Rightarrow> bool" where
  "sm_ok lib sm \<longleftrightarrow>
     length (sm_space_idx_mp sm) = 500 \<and> table_ok (rl_hasher lib) (sm_space_idx_mp sm) \<and>
     points sc_space_key (entries (rl_hasher lib) (sm_space_idx_mp sm)) (sm_spaces_conn sm) \<and>
     length (sm_spaces_conn sm) \<le> sm_capacity sm \<and> sm_capacity sm \<le> 32767"

definition bucket_no :: "'w router_lib \<Rightarrow> string \<Rightarrow> nat" where
  "bucket_no lib key = unat (StrHashUint64 (rl_hasher lib) key) mod 500"

text \<open>The table takes a key when no space it serves has the same bucket.\<close>

definition accepts :: "'w router_lib \<Rightarrow> space_manager \<Rightarrow> string \<Rightarrow> bool" where
  "accepts lib sm key \<longleftrightarrow> bucket_no lib key \<notin> bucket_no lib ` dom (served lib sm)"

definition has_slot :: "space_manager \<Rightarrow> bool" where
  "has_slot sm \<longleftrightarrow> None \<in> set (sm_spaces_conn sm) \<or> length (sm_spaces_conn sm) < sm_capacity sm"

lemma first_null_None: "first_null cs = None \<longleftrightarrow> None \<notin> set cs"
  by (induction cs) auto

lemma first_null_Some: "first_null cs = Some i \<Longrightarrow> i < length cs \<and> cs ! i = None"
  by (induction cs arbitrary: i) (auto split: if_splits)

lemma Put_length: "Put hasher m key idx = Some (b, m') \<Longrightarrow> length m' = length m"
  by (auto simp: Put_def Let_def bind_eq_Some_conv split: if_splits option.splits)

lemma Delete_length: "Delete hasher m key = Some (b, m') \<Longrightarrow> length m' = length m"
  by (auto simp: Delete_def bind_eq_Some_conv split: option.splits)

lemma served_dom:
  assumes "points sc_space_key (entries (rl_hasher lib) (sm_space_idx_mp sm)) (sm_spaces_conn sm)"
  shows "served lib sm k \<noteq> None \<longleftrightarrow> entries (rl_hasher lib) (sm_space_idx_mp sm) k \<noteq> None"
  using assms by (fastforce simp: served_def looked_up_def points_def split: option.splits)

lemma accepts_room:
  assumes "length (sm_space_idx_mp sm) = 500" and "table_ok (rl_hasher lib) (sm_space_idx_mp sm)"
    and "points sc_space_key (entries (rl_hasher lib) (sm_space_idx_mp sm)) (sm_spaces_conn sm)"
  shows "accepts lib sm key \<longleftrightarrow> room (rl_hasher lib) (sm_space_idx_mp sm) key"
proof -
  have b: "bucket_of (rl_hasher lib) (sm_space_idx_mp sm) k = Some (bucket_no lib k)" for k
    using assms(1) by (simp add: bucket_of_def bucket_no_def)
  have "room (rl_hasher lib) (sm_space_idx_mp sm) key \<longleftrightarrow>
      \<not> (\<exists>k. bucket_no lib k = bucket_no lib key \<and> served lib sm k \<noteq> None)"
    unfolding served_dom [OF assms(3)] using entries_live [OF assms(2) b [of key]] by (auto simp: room_def b)
  moreover have "bucket_no lib key \<in> bucket_no lib ` dom (served lib sm) \<longleftrightarrow>
      (\<exists>k. bucket_no lib k = bucket_no lib key \<and> served lib sm k \<noteq> None)"
    unfolding image_iff Bex_def dom_def mem_Collect_eq by metis
  ultimately show ?thesis by (simp only: accepts_def simp_thms)
qed

lemma new_space_manager_ok: "sm_ok lib new_space_manager"
  and new_space_manager_serves: "served lib new_space_manager = Map.empty"
  using owm.invar_new owm.abs_new
  by (auto simp: sm_ok_def new_space_manager_def points_def served_def looked_up_def fun_eq_iff OneWriterMultiReaderMap_def)

text \<open>What \<open>enter\<close> makes of a slot that was just filled.\<close>

lemma enter_slot_of:
  assumes "sm_ok lib sm" and "i < length (sm_spaces_conn sm)" and "sm_spaces_conn sm ! i = Some c"
  obtains sm' where "enter lib (sc_space_key c) (int i) sm = Some sm'" and "sm_ok lib sm'"
    and "served lib sm' = (if accepts lib sm (sc_space_key c) then (served lib sm)(sc_space_key c \<mapsto> c) else served lib sm)"
    and "sm_spaces_conn sm' = sm_spaces_conn sm" and "sm_capacity sm' = sm_capacity sm"
proof -
  have ok: "length (sm_space_idx_mp sm) = 500" "table_ok (rl_hasher lib) (sm_space_idx_mp sm)"
    "points sc_space_key (entries (rl_hasher lib) (sm_space_idx_mp sm)) (sm_spaces_conn sm)"
    using assms(1) by (simp_all add: sm_ok_def)
  have i: "int16_of (int i) = int i" using assms by (simp add: int16_of_id is_int16_def sm_ok_def)
  obtain b mp where put: "Put (rl_hasher lib) (sm_space_idx_mp sm) (sc_space_key c) (int i) = Some (b, mp)"
    using owm.put_room [OF ok(2), of "int i" "sc_space_key c"] owm.put_full [OF ok(2), of "sc_space_key c" "int i"]
    by (cases "room (rl_hasher lib) (sm_space_idx_mp sm) (sc_space_key c)") auto
  from owm.enter_slot [OF ok(2,3) assms(2,3) put] assms(1) i put Put_length [OF put] accepts_room [OF ok, of "sc_space_key c"]
  show thesis
    by (intro that [of "sm\<lparr>sm_space_idx_mp := mp\<rparr>"]) (simp_all add: enter_def sm_ok_def served_def)
qed

lemma sm_ok_get:
  assumes "sm_ok lib sm"
  obtains i where "Get (rl_hasher lib) (sm_space_idx_mp sm) key = Some i" and "0 \<le> i \<longleftrightarrow> served lib sm key \<noteq> None"
    and "\<And>c. served lib sm key = Some c \<Longrightarrow> at_ub (sm_spaces_conn sm) i = Some (Some c) \<and> sc_space_key c = key"
proof -
  have ok: "table_ok (rl_hasher lib) (sm_space_idx_mp sm)"
    "points sc_space_key (entries (rl_hasher lib) (sm_space_idx_mp sm)) (sm_spaces_conn sm)"
    using assms by (simp_all add: sm_ok_def)
  from owm.get_law [OF ok(1)] obtain i where i: "Get (rl_hasher lib) (sm_space_idx_mp sm) key = Some i" by blast
  from owm.find_slot [OF ok i] i show thesis
    by (intro that [of i]) (auto simp: served_def split: if_splits)
qed

text \<open>Filling a free slot, an empty one or one behind the last, and entering it.\<close>

lemma fill_null_slot:
  assumes "sm_ok lib sm" and "first_null (sm_spaces_conn sm) = Some i"
  obtains sm' where "enter lib (sc_space_key c) (int i) (sm\<lparr>sm_spaces_conn := (sm_spaces_conn sm)[i := Some c]\<rparr>) = Some sm'"
    and "sm_ok lib sm'" and "served lib sm' = (if accepts lib sm (sc_space_key c) then (served lib sm)(sc_space_key c \<mapsto> c) else served lib sm)"
proof -
  let ?sm = "sm\<lparr>sm_spaces_conn := (sm_spaces_conn sm)[i := Some c]\<rparr>"
  have i: "i < length (sm_spaces_conn sm)" "sm_spaces_conn sm ! i = None" using first_null_Some [OF assms(2)] by simp_all
  have pts: "points sc_space_key (entries (rl_hasher lib) (sm_space_idx_mp sm)) (sm_spaces_conn sm)"
    using assms(1) by (simp add: sm_ok_def)
  note new = points_update [OF pts i, of "Some c"]
  have srv: "served lib ?sm = served lib sm" using new(2) by (simp add: served_def)
  then have acc: "accepts lib ?sm = accepts lib sm" by (simp add: accepts_def [abs_def])
  show thesis
    by (rule enter_slot_of [of lib ?sm i c])
      (use assms(1) i new that acc srv in \<open>simp_all add: sm_ok_def\<close>)
qed

lemma fill_new_slot:
  assumes "sm_ok lib sm" and "length (sm_spaces_conn sm) < sm_capacity sm"
  obtains sm' where "enter lib (sc_space_key c) (int (length (sm_spaces_conn sm))) (push_back grow c sm) = Some sm'"
    and "sm_ok lib sm'" and "served lib sm' = (if accepts lib sm (sc_space_key c) then (served lib sm)(sc_space_key c \<mapsto> c) else served lib sm)"
    and "length (sm_spaces_conn sm') = Suc (length (sm_spaces_conn sm))" and "sm_capacity sm' = sm_capacity sm"
proof -
  let ?sm = "push_back grow c sm"
  have pts: "points sc_space_key (entries (rl_hasher lib) (sm_space_idx_mp sm)) (sm_spaces_conn sm)"
    using assms(1) by (simp add: sm_ok_def)
  note new = points_append [OF pts, of "[Some c]"]
  have srv: "served lib ?sm = served lib sm" using new(2) by (simp add: served_def push_back_def)
  then have acc: "accepts lib ?sm = accepts lib sm" by (simp add: accepts_def [abs_def])
  show thesis
    by (rule enter_slot_of [of lib ?sm "length (sm_spaces_conn sm)" c])
      (use assms new that acc srv in \<open>simp_all add: sm_ok_def push_back_def\<close>)
qed

subsection \<open>Adding\<close>

lemma SpaceManager_AddSpace_result:
  fixes rt :: "'w router"
  assumes "sm_ok lib (rt_manager rt)"
    and init: "SpaceConnection_Init (rl_net lib) space new_space_connection (rt_world rt) = Some (m0, conn, w)"
  obtains m rt' where "SpaceManager_AddSpace lib space rt = Some (m, rt')" and "sm_ok lib (rt_manager rt')"
    and "m = '''' \<longleftrightarrow> served lib (rt_manager rt) (sc_space_key conn) = None \<and> has_slot (rt_manager rt)"
    and "served lib (rt_manager rt') =
      (if m = '''' \<and> accepts lib (rt_manager rt) (sc_space_key conn)
       then (served lib (rt_manager rt))(sc_space_key conn \<mapsto> conn) else served lib (rt_manager rt))"
proof -
  let ?sm = "rt_manager rt"
  obtain i where get: "Get (rl_hasher lib) (sm_space_idx_mp ?sm) (sc_space_key conn) = Some i"
    and i: "0 \<le> i \<longleftrightarrow> served lib ?sm (sc_space_key conn) \<noteq> None"
    by (rule sm_ok_get [OF assms(1), of "sc_space_key conn"]) blast
  note run = SpaceManager_AddSpace_def Let_def init get
  consider (exists) "0 \<le> i" | (null) j where "\<not> 0 \<le> i" "first_null (sm_spaces_conn ?sm) = Some j"
    | (full) "\<not> 0 \<le> i" "first_null (sm_spaces_conn ?sm) = None" "sm_capacity ?sm \<le> length (sm_spaces_conn ?sm)"
    | (new) "\<not> 0 \<le> i" "first_null (sm_spaces_conn ?sm) = None" "length (sm_spaces_conn ?sm) < sm_capacity ?sm"
    using not_le by blast
  then show thesis
  proof cases
    case exists
    then have "SpaceManager_AddSpace lib space rt =
        Some (''space_key:'' @ sc_space_key conn @ '' is already exist, not add.'', rt\<lparr>rt_world := w\<rparr>)"
      by (simp add: run)
    from that [OF this] exists assms(1) i show thesis by simp
  next
    case null
    obtain sm' where "enter lib (sc_space_key conn) (int j) (?sm\<lparr>sm_spaces_conn := (sm_spaces_conn ?sm)[j := Some conn]\<rparr>) = Some sm'"
      "sm_ok lib sm'" "served lib sm' =
        (if accepts lib ?sm (sc_space_key conn) then (served lib ?sm)(sc_space_key conn \<mapsto> conn) else served lib ?sm)"
      by (rule fill_null_slot [OF assms(1) null(2)])
    moreover have "has_slot ?sm" using null(2) first_null_None [of "sm_spaces_conn ?sm"] by (simp add: has_slot_def)
    moreover from calculation null have "SpaceManager_AddSpace lib space rt = Some ('''', rt\<lparr>rt_world := w, rt_manager := sm'\<rparr>)"
      by (simp add: run)
    ultimately show thesis using that null(1) i by simp
  next
    case full
    then have "\<not> has_slot ?sm" by (simp add: has_slot_def first_null_None)
    moreover from full have "SpaceManager_AddSpace lib space rt =
        Some (''spaces num > max_space_num['' @ to_string (int (sm_capacity ?sm)) @ ''] create space failed'', rt\<lparr>rt_world := w\<rparr>)"
      by (simp add: run)
    ultimately show thesis using that assms(1) i by simp
  next
    case new
    obtain sm' where "enter lib (sc_space_key conn) (int (length (sm_spaces_conn ?sm))) (push_back (rl_grow lib) conn ?sm) = Some sm'"
      "sm_ok lib sm'" "served lib sm' =
        (if accepts lib ?sm (sc_space_key conn) then (served lib ?sm)(sc_space_key conn \<mapsto> conn) else served lib ?sm)"
      by (rule fill_new_slot [OF assms(1) new(3)])
    moreover have "has_slot ?sm" using new(3) by (simp add: has_slot_def)
    moreover from calculation new have "SpaceManager_AddSpace lib space rt =
        Some ('''', save_local lib (snd (LocalSpaces_AddSpace space (rt_local rt))) (rt\<lparr>rt_world := w, rt_manager := sm'\<rparr>))"
      by (simp add: run)
    ultimately show thesis using that new(1) i by (simp add: save_local_def)
  qed
qed


text \<open>C3: adding a space that can be served is defined, keeps the manager well formed, and succeeds
  exactly when no space has its key and a slot is left. The space is served afterwards only when the
  table has no other space in the bucket of its key; in every other case the spaces served stay as
  they were, although the answer is a success.\<close>

theorem SpaceManager_AddSpace_refines:
  fixes rt :: "'w router"
  assumes "sm_ok lib (rt_manager rt)" and "list_all partition_wf (sp_partitions space)"
  defines "key \<equiv> GenSpaceKey (sp_db_name space) (sp_space_name space)"
  shows "\<exists>m rt' conn. SpaceManager_AddSpace lib space rt = Some (m, rt') \<and> sm_ok lib (rt_manager rt') \<and>
    space_ok conn \<and> sc_pb_space conn = space \<and>
    (m = '''' \<longleftrightarrow> served lib (rt_manager rt) key = None \<and> has_slot (rt_manager rt)) \<and>
    served lib (rt_manager rt') =
      (if m = '''' \<and> accepts lib (rt_manager rt) key then (served lib (rt_manager rt))(key \<mapsto> conn)
       else served lib (rt_manager rt))"
proof -
  obtain m0 conn w where init: "SpaceConnection_Init (rl_net lib) space new_space_connection (rt_world rt) = Some (m0, conn, w)"
    and conn: "space_ok conn" "sc_pb_space conn = space" "sc_space_key conn = key"
    unfolding key_def by (rule SpaceConnection_Init_ok [OF assms(2)])
  show ?thesis by (rule SpaceManager_AddSpace_result [OF assms(1) init]) (use conn in blast)
qed

subsection \<open>Deleting and finding\<close>

lemma SpaceManager_DeleteSpace_result:
  assumes "sm_ok lib sm"
  obtains m sm' where "SpaceManager_DeleteSpace lib key sm = Some (m, sm')" and "sm_ok lib sm'"
    and "served lib sm' = (served lib sm)(key := None)" and "m = '''' \<longleftrightarrow> served lib sm key \<noteq> None"
proof -
  have ok: "table_ok (rl_hasher lib) (sm_space_idx_mp sm)"
    "points sc_space_key (entries (rl_hasher lib) (sm_space_idx_mp sm)) (sm_spaces_conn sm)"
    using assms by (simp_all add: sm_ok_def)
  obtain i where get: "Get (rl_hasher lib) (sm_space_idx_mp sm) key = Some i" "0 \<le> i \<longleftrightarrow> served lib sm key \<noteq> None"
    by (rule sm_ok_get [OF assms]) blast
  show thesis
  proof (cases "0 \<le> i")
    case True
    obtain b mp where del: "Delete (rl_hasher lib) (sm_space_idx_mp sm) key = Some (b, mp)"
      using owm.del_law [OF ok(1)] by blast
    note rem = owm.remove_slot [OF ok get(1) True del]
    let ?sm = "sm\<lparr>sm_space_idx_mp := mp, sm_spaces_conn := (sm_spaces_conn sm)[nat i := None]\<rparr>"
    have "SpaceManager_DeleteSpace lib key sm = Some ('''', ?sm)"
      using True get(1) del rem(4) by (simp add: SpaceManager_DeleteSpace_def update_ub_def nat_less_iff)
    moreover have "sm_ok lib ?sm" using assms rem(1,2) Delete_length [OF del] by (simp add: sm_ok_def)
    moreover have "served lib ?sm = (served lib sm)(key := None)" using rem(3) by (simp add: served_def)
    ultimately show thesis using that True get(2) by simp
  next
    case False
    with get have "SpaceManager_DeleteSpace lib key sm = Some (''space_key:'' @ key @ '' is not exit, not delete.'', sm)"
      by (simp add: SpaceManager_DeleteSpace_def)
    with that assms False get(2) show thesis by (simp add: fun_upd_idem)
  qed
qed

text \<open>C11: deleting a space is defined, keeps the manager well formed, removes that key from the spaces
  served and no other, and succeeds exactly when the key was served.\<close>

theorem SpaceManager_DeleteSpace_refines:
  assumes "sm_ok lib sm"
  shows "\<exists>m sm'. SpaceManager_DeleteSpace lib key sm = Some (m, sm') \<and> sm_ok lib sm' \<and>
    served lib sm' = (served lib sm)(key := None) \<and> (m = '''' \<longleftrightarrow> served lib sm key \<noteq> None)"
  by (rule SpaceManager_DeleteSpace_result [OF assms]) blast

lemma GetSpaceConn_result:
  assumes "sm_ok lib sm"
  shows "GetSpaceConn lib key m sm =
    Some (if length key \<le> 1 then (None, ''db_name and space_name is null'')
          else case served lib sm key of
            Some c \<Rightarrow> (Some c, m)
          | None \<Rightarrow> (None, ''db_name and space_name ['' @ key @ ''] is not exist''))"
proof -
  obtain i where "Get (rl_hasher lib) (sm_space_idx_mp sm) key = Some i" "0 \<le> i \<longleftrightarrow> served lib sm key \<noteq> None"
    "\<And>c. served lib sm key = Some c \<Longrightarrow> at_ub (sm_spaces_conn sm) i = Some (Some c) \<and> sc_space_key c = key"
    by (rule sm_ok_get [OF assms]) blast
  then show ?thesis by (cases "served lib sm key") (auto simp: GetSpaceConn_def)
qed

lemma served_key: "sm_ok lib sm \<Longrightarrow> served lib sm key = Some c \<Longrightarrow> sc_space_key c = key"
  by (rule sm_ok_get [of lib sm key]) auto

text \<open>C24: looking up a space is defined on every well-formed manager and finds exactly the spaces
  served, each under its own key; the branch for a slot that is empty is never taken.\<close>

theorem GetSpaceConn_refines:
  assumes "sm_ok lib sm"
  shows "\<exists>m. GetSpaceConn lib key '''' sm = Some (if length key \<le> 1 then None else served lib sm key, m) \<and>
    (m = '''' \<longleftrightarrow> 1 < length key \<and> served lib sm key \<noteq> None) \<and>
    m \<noteq> ''db_name and space_name  ['' @ key @ ''] is deleted.'' \<and>
    (\<forall>c. served lib sm key = Some c \<longrightarrow> sc_space_key c = key)"
  using GetSpaceConn_result [OF assms, of key "''''"] served_key [OF assms, of key] by (auto split: option.splits)

lemma put_conn_result:
  assumes "sm_ok lib sm" and "served lib sm key = Some c" and "sc_space_key c' = key"
  obtains sm' where "put_conn key lib c' sm = Some sm'" and "sm_ok lib sm'"
    and "served lib sm' = (served lib sm)(key \<mapsto> c')"
proof -
  let ?mp = "entries (rl_hasher lib) (sm_space_idx_mp sm)"
  have pts: "points sc_space_key ?mp (sm_spaces_conn sm)" using assms(1) by (simp add: sm_ok_def)
  obtain i where i: "Get (rl_hasher lib) (sm_space_idx_mp sm) key = Some i" "0 \<le> i"
    "at_ub (sm_spaces_conn sm) i = Some (Some c)"
    by (rule sm_ok_get [OF assms(1), of key]) (use assms(2) in auto)
  then have e: "?mp key = Some i" by (simp add: entries_def)
  have len: "i < int (length (sm_spaces_conn sm))" using i(3) by (simp add: at_ub_def split: if_splits)
  note new = points_replace [OF pts, of c' i]
  show thesis
    using assms(1,3) i(1,2) len e new
    by (intro that [of "sm\<lparr>sm_spaces_conn := (sm_spaces_conn sm)[nat i := Some c']\<rparr>"])
      (simp_all add: put_conn_def update_ub_def sm_ok_def served_def)
qed


subsection \<open>Installing the spaces of etcd\<close>

definition key_of :: "pb_space \<Rightarrow> string" where
  "key_of space = GenSpaceKey (sp_db_name space) (sp_space_name space)"

lemma accepts_insert:
  assumes "accepts lib sm key" and "dom (served lib sm') \<subseteq> insert k (dom (served lib sm))" and "bucket_no lib key \<noteq> bucket_no lib k"
  shows "accepts lib sm' key"
proof -
  have "bucket_no lib ` dom (served lib sm') \<subseteq> insert (bucket_no lib k) (bucket_no lib ` dom (served lib sm))"
    using image_mono [OF assms(2), of "bucket_no lib"] by simp
  with assms(1,3) show ?thesis unfolding accepts_def by blast
qed

lemma install_spaces_result:
  "list_all (\<lambda>s. list_all partition_wf (sp_partitions s)) spaces \<Longrightarrow> sm_ok lib sm \<Longrightarrow>
   length (sm_spaces_conn sm) + length spaces \<le> sm_capacity sm \<Longrightarrow>
   \<exists>sm' w'. install_spaces lib spaces (length (sm_spaces_conn sm)) sm w = Some (sm', w') \<and> sm_ok lib sm' \<and>
     (\<forall>k. k \<notin> key_of ` set spaces \<longrightarrow> served lib sm' k = served lib sm k) \<and>
     (distinct (map (bucket_no lib \<circ> key_of) spaces) \<and> (\<forall>s \<in> set spaces. accepts lib sm (key_of s)) \<longrightarrow>
       (\<forall>s \<in> set spaces. \<exists>c. served lib sm' (key_of s) = Some c \<and> sc_pb_space c = s \<and> space_ok c))"
proof (induction spaces arbitrary: sm w)
  case Nil
  then show ?case by simp
next
  case (Cons s spaces)
  obtain m0 c w1 where init: "SpaceConnection_Init (rl_net lib) s new_space_connection w = Some (m0, c, w1)"
    and c: "space_ok c" "sc_pb_space c = s" "sc_space_key c = key_of s"
    unfolding key_of_def by (rule SpaceConnection_Init_ok [of s "rl_net lib" w]) (use Cons.prems(1) in auto)
  have "length (sm_spaces_conn sm) < sm_capacity sm" using Cons.prems(3) by simp
  then obtain sm1 where ent: "enter lib (sc_space_key c) (int (length (sm_spaces_conn sm))) (push_back (rl_grow lib) c sm) = Some sm1"
    and ok1: "sm_ok lib sm1"
    and srv1: "served lib sm1 = (if accepts lib sm (key_of s) then (served lib sm)(key_of s \<mapsto> c) else served lib sm)"
    and len1: "length (sm_spaces_conn sm1) = Suc (length (sm_spaces_conn sm))" "sm_capacity sm1 = sm_capacity sm"
    unfolding c(3) [symmetric] by (rule fill_new_slot [OF Cons.prems(2)])
  have "list_all (\<lambda>s. list_all partition_wf (sp_partitions s)) spaces"
    "length (sm_spaces_conn sm1) + length spaces \<le> sm_capacity sm1"
    using Cons.prems(1,3) len1 by simp_all
  from Cons.IH [OF this(1) ok1 this(2), of w1]
  obtain sm' w' where rest: "install_spaces lib spaces (length (sm_spaces_conn sm1)) sm1 w1 = Some (sm', w')" "sm_ok lib sm'"
    and keep: "\<And>k. k \<notin> key_of ` set spaces \<Longrightarrow> served lib sm' k = served lib sm1 k"
    and new: "distinct (map (bucket_no lib \<circ> key_of) spaces) \<Longrightarrow> (\<And>s. s \<in> set spaces \<Longrightarrow> accepts lib sm1 (key_of s)) \<Longrightarrow>
       \<forall>s \<in> set spaces. \<exists>c. served lib sm' (key_of s) = Some c \<and> sc_pb_space c = s \<and> space_ok c"
    by blast
  have "install_spaces lib (s # spaces) (length (sm_spaces_conn sm)) sm w = Some (sm', w')"
    using init ent rest(1) len1(1) by simp
  moreover have "served lib sm' k = served lib sm k" if "k \<notin> key_of ` set (s # spaces)" for k
    using keep [of k] srv1 that by auto
  moreover have "\<exists>c. served lib sm' (key_of s') = Some c \<and> sc_pb_space c = s' \<and> space_ok c"
    if d: "distinct (map (bucket_no lib \<circ> key_of) (s # spaces))" and a: "\<forall>s \<in> set (s # spaces). accepts lib sm (key_of s)"
      and s': "s' \<in> set (s # spaces)" for s'
  proof -
    have far: "bucket_no lib (key_of t) \<noteq> bucket_no lib (key_of s)" if "t \<in> set spaces" for t
      using d that by (force simp: image_iff)
    have srv: "served lib sm1 = (served lib sm)(key_of s \<mapsto> c)" using srv1 a by simp
    have "accepts lib sm1 (key_of t)" if "t \<in> set spaces" for t
      by (rule accepts_insert [of lib sm _ _ "key_of s"]) (use a that far srv in auto)
    with new d have tail: "\<forall>s \<in> set spaces. \<exists>c. served lib sm' (key_of s) = Some c \<and> sc_pb_space c = s \<and> space_ok c" by simp
    have "key_of s \<notin> key_of ` set spaces" using far by (metis imageE)
    then have "served lib sm' (key_of s) = Some c" using keep srv by simp
    with tail c s' show ?thesis by auto
  qed
  ultimately show ?case using rest(2) by blast
qed

lemma SpaceManager_Init_result:
  fixes rt :: "'w router"
  assumes "is_int16 max_space_num" and "0 \<le> max_space_num" and "rt_manager rt = new_space_manager"
    and "EtcdClient_Range (rl_net lib) (rl_range_to lib) (rl_range_from lib) range_of_spaces \<lparr>rr_kvs = []\<rparr> ec (rt_world rt) = Some (True, resp, w)"
    and "rr_kvs resp \<noteq> []" and "parse_kvs lib (rr_kvs resp) = Inr spaces"
    and "list_all (\<lambda>s. list_all partition_wf (sp_partitions s)) spaces" and "int (length spaces) \<le> max_space_num"
  shows "\<exists>rt'. SpaceManager_Init lib max_space_num ec rt = Some ('''', rt') \<and> sm_ok lib (rt_manager rt') \<and>
    ls_spaces (rt_local rt') = spaces \<and> dom (served lib (rt_manager rt')) \<subseteq> key_of ` set spaces \<and>
    (distinct (map (bucket_no lib \<circ> key_of) spaces) \<longrightarrow>
       (\<forall>s \<in> set spaces. \<exists>c. served lib (rt_manager rt') (key_of s) = Some c \<and> sc_pb_space c = s \<and> space_ok c))"
proof -
  let ?sm = "new_space_manager\<lparr>sm_capacity := nat max_space_num\<rparr>"
  have cap: "sm_capacity new_space_manager = 0" "sm_spaces_conn new_space_manager = []" by (simp_all add: new_space_manager_def)
  have ok: "sm_ok lib ?sm" and none: "served lib ?sm = Map.empty"
    using new_space_manager_ok [of lib] new_space_manager_serves [of lib] assms(1,2) cap
    by (simp_all add: sm_ok_def served_def is_int16_def nat_le_iff)
  then have "accepts lib ?sm k" for k by (simp add: accepts_def)
  moreover have "length spaces \<le> nat max_space_num" using assms(2,8) by linarith
  ultimately
  obtain sm' w' where "install_spaces lib spaces 0 ?sm w = Some (sm', w')" "sm_ok lib sm'"
    "\<forall>k. k \<notin> key_of ` set spaces \<longrightarrow> served lib sm' k = None"
    "distinct (map (bucket_no lib \<circ> key_of) spaces) \<longrightarrow>
       (\<forall>s \<in> set spaces. \<exists>c. served lib sm' (key_of s) = Some c \<and> sc_pb_space c = s \<and> space_ok c)"
    using install_spaces_result [OF assms(7) ok, of w] cap(2) none by auto
  moreover have "max 0 (nat max_space_num) = nat max_space_num" by simp
  ultimately show ?thesis
    using assms(2-6) cap by (auto simp: SpaceManager_Init_def Let_def install_all_def save_local_def)
qed


text \<open>C25: a new manager that finds its spaces in etcd, no more than \<open>max_space_num\<close> of them and each with
  its replicas, starts: it is well formed, its local copy is what etcd has, it serves nothing else,
  and it serves all of them when their keys fall in different buckets.\<close>

theorem SpaceManager_Init_serves:
  fixes rt :: "'w router"
  assumes "is_int16 max_space_num" and "0 \<le> max_space_num" and "rt_manager rt = new_space_manager"
    and "EtcdClient_Range (rl_net lib) (rl_range_to lib) (rl_range_from lib) range_of_spaces \<lparr>rr_kvs = []\<rparr> ec (rt_world rt) = Some (True, resp, w)"
    and "rr_kvs resp \<noteq> []" and "parse_kvs lib (rr_kvs resp) = Inr spaces"
    and "list_all (\<lambda>s. list_all partition_wf (sp_partitions s)) spaces" and "int (length spaces) \<le> max_space_num"
  shows "\<exists>rt'. SpaceManager_Init lib max_space_num ec rt = Some ('''', rt') \<and> sm_ok lib (rt_manager rt') \<and>
    ls_spaces (rt_local rt') = spaces \<and> dom (served lib (rt_manager rt')) \<subseteq> key_of ` set spaces \<and>
    (distinct (map (bucket_no lib \<circ> key_of) spaces) \<longrightarrow>
       (\<forall>s \<in> set spaces. \<exists>c. served lib (rt_manager rt') (key_of s) = Some c \<and> sc_pb_space c = s \<and> space_ok c))"
  by (rule SpaceManager_Init_result [OF assms])

subsection \<open>The groups\<close>

definition home :: "'w router_lib \<Rightarrow> int \<Rightarrow> string \<Rightarrow> int" where
  "home lib n key = uint (StrHashUint64 (rl_hasher lib) key) mod n"

lemma partition_id_home:
  assumes "0 < n" and "is_int32 n"
  shows "partition_id lib key n = Some (home lib n key)" and "0 \<le> home lib n key" and "home lib n key < n"
proof -
  note p = GetPartitionId_pos [OF assms, of "rl_hasher lib" key]
  then have "is_int32 (home lib n key)" using assms(2) unfolding home_def is_int32_def by linarith
  with p show "partition_id lib key n = Some (home lib n key)" "0 \<le> home lib n key" "home lib n key < n"
    by (simp_all add: partition_id_def home_def int32_of_id)
qed

definition keys_at :: "'w router_lib \<Rightarrow> int \<Rightarrow> string list \<Rightarrow> int \<Rightarrow> string list" where
  "keys_at lib n keys i = filter (\<lambda>k. home lib n k = i) keys"

definition docs_at :: "'w router_lib \<Rightarrow> int \<Rightarrow> (string \<times> pb_document) list \<Rightarrow> int \<Rightarrow> (string \<times> pb_document) list" where
  "docs_at lib n infos i = filter (\<lambda>(k, d). home lib n k = i) infos"

lemma hash_keys_groups:
  assumes "0 < n" and "is_int32 n"
  shows "std_map_ok acc \<Longrightarrow> \<exists>grps. hash_keys lib keys n acc = Some grps \<and> std_map_ok grps \<and>
    (\<forall>i. map_of grps i =
      (case map_of acc i of
         Some ks \<Rightarrow> Some (ks @ keys_at lib n keys i)
       | None \<Rightarrow> if keys_at lib n keys i = [] then None else Some (keys_at lib n keys i)))"
proof (induction keys arbitrary: acc)
  case Nil
  then show ?case by (simp add: keys_at_def split: option.split)
next
  case (Cons k keys)
  let ?p = "home lib n k"
  let ?mp = "if map_of acc ?p = None then std_map_set ?p [] acc else acc"
  obtain ks where ks: "map_of ?mp ?p = Some ks" by (cases "map_of acc ?p") auto
  then have old: "ks = (case map_of acc ?p of Some ks \<Rightarrow> ks | None \<Rightarrow> [])" by (auto split: if_splits)
  let ?acc = "std_map_set ?p (ks @ [k]) ?mp"
  have "std_map_ok ?acc" using Cons.prems by simp
  from Cons.IH [OF this] obtain grps where g: "hash_keys lib keys n ?acc = Some grps" "std_map_ok grps"
    "\<And>i. map_of grps i = (case map_of ?acc i of Some ks \<Rightarrow> Some (ks @ keys_at lib n keys i)
       | None \<Rightarrow> if keys_at lib n keys i = [] then None else Some (keys_at lib n keys i))" by blast
  have "hash_keys lib (k # keys) n acc = Some grps"
    using g(1) ks partition_id_home(1) [OF assms, of lib] by (simp only: hash_keys.simps Let_def bind.bind_lunit)
  moreover have "map_of grps i = (case map_of acc i of
         Some ks \<Rightarrow> Some (ks @ keys_at lib n (k # keys) i)
       | None \<Rightarrow> if keys_at lib n (k # keys) i = [] then None else Some (keys_at lib n (k # keys) i))" for i
    unfolding g(3) old by (cases "i = ?p") (auto simp: keys_at_def split: option.split)
  ultimately show ?case using g(2) by blast
qed

text \<open>With \<open>n > 0\<close> partitions, grouping ids sorts them by the partition of their hash: group \<open>i\<close> is the
  list of the ids of partition \<open>i\<close> in their order, and there is no group without an id.\<close>

lemma HashKeys_groups:
  assumes "0 < n" and "is_int32 n"
  shows "\<exists>grps. HashKeys lib keys n = Some grps \<and> std_map_ok grps \<and>
    (\<forall>i. map_of grps i = (if keys_at lib n keys i = [] then None else Some (keys_at lib n keys i)))"
  using hash_keys_groups [OF assms, of "[]" lib keys] by (simp add: HashKeys_def)


lemma make_groups_result:
  assumes "0 < n" and "is_int32 n"
  shows "i + length keys \<le> length ds \<Longrightarrow> std_map_ok acc \<Longrightarrow>
    \<exists>grps. make_groups lib ds keys n i acc = Some grps \<and> std_map_ok grps \<and>
      (\<forall>j. map_of grps j = (if map_of acc j = None \<and> j \<in> home lib n ` set keys then Some (empty_group j) else map_of acc j))"
proof (induction keys arbitrary: i acc)
  case Nil
  then show ?case by simp
next
  case (Cons k keys)
  let ?acc = "ensure_group (home lib n k) acc"
  have ok: "std_map_ok ?acc" using Cons.prems(2) by (simp add: ensure_group_def)
  have len: "Suc i + length keys \<le> length ds" using Cons.prems(1) by simp
  have acc: "map_of ?acc j = (if map_of acc j = None \<and> j = home lib n k then Some (empty_group j) else map_of acc j)" for j
    by (simp add: ensure_group_def)
  from Cons.IH [OF len ok] obtain grps where g: "make_groups lib ds keys n (Suc i) ?acc = Some grps" "std_map_ok grps"
    "\<And>j. map_of grps j = (if map_of ?acc j = None \<and> j \<in> home lib n ` set keys then Some (empty_group j) else map_of ?acc j)"
    by blast
  have "make_groups lib ds (k # keys) n i acc = Some grps"
    using g(1) partition_id_home(1) [OF assms, of lib] Cons.prems(1) by (simp add: at_ub_def)
  with g(2) show ?case by (auto simp: g(3) acc)
qed

lemma fill_groups_result:
  assumes "0 < n" and "is_int32 n"
  shows "i + length ds \<le> length keys \<Longrightarrow> std_map_ok acc \<Longrightarrow>
    \<exists>grps. fill_groups lib ds keys n i acc = Some grps \<and> std_map_ok grps \<and>
      (\<forall>j. map_of grps j =
        (let infos = docs_at lib n (zip (drop i keys) ds) j
         in case map_of acc j of
              Some g \<Rightarrow> Some (g\<lparr>dg_pb_doc_infos := dg_pb_doc_infos g @ infos\<rparr>)
            | None \<Rightarrow> if infos = [] then None else Some \<lparr>dg_partition_id = j, dg_pb_doc_infos = infos\<rparr>))"
proof (induction ds arbitrary: i acc)
  case Nil
  then show ?case by (simp add: docs_at_def split: option.split)
next
  case (Cons d ds)
  let ?k = "keys ! i" let ?p = "home lib n ?k" let ?e = "ensure_group ?p acc"
  have i: "i < length keys" "Suc i + length ds \<le> length keys" using Cons.prems(1) by simp_all
  have e: "map_of ?e j = (if map_of acc j = None \<and> j = ?p then Some (empty_group j) else map_of acc j)" for j
    by (simp add: ensure_group_def)
  obtain g where g: "map_of ?e ?p = Some g" by (cases "map_of acc ?p") (auto simp: ensure_group_def)
  let ?acc = "std_map_set ?p (g\<lparr>dg_pb_doc_infos := dg_pb_doc_infos g @ [(?k, d)]\<rparr>) ?e"
  have ok: "std_map_ok ?acc" using Cons.prems(2) by (simp add: ensure_group_def)
  from Cons.IH [OF i(2) ok] obtain grps where r: "fill_groups lib ds keys n (Suc i) ?acc = Some grps" "std_map_ok grps"
    "\<And>j. map_of grps j = (let infos = docs_at lib n (zip (drop (Suc i) keys) ds) j
         in case map_of ?acc j of Some g \<Rightarrow> Some (g\<lparr>dg_pb_doc_infos := dg_pb_doc_infos g @ infos\<rparr>)
            | None \<Rightarrow> if infos = [] then None else Some \<lparr>dg_partition_id = j, dg_pb_doc_infos = infos\<rparr>)"
    by blast
  have "fill_groups lib (d # ds) keys n i acc = Some grps"
    using r(1) g i(1) partition_id_home(1) [OF assms, of lib] by (simp add: at_ub_def Let_def)
  moreover have "docs_at lib n (zip (drop i keys) (d # ds)) j =
      (if j = ?p then (?k, d) # docs_at lib n (zip (drop (Suc i) keys) ds) j else docs_at lib n (zip (drop (Suc i) keys) ds) j)" for j
    using i(1) by (auto simp: docs_at_def Cons_nth_drop_Suc [symmetric])
  ultimately show ?case
    using r(2) g e [of ?p] by (auto simp: r(3) e Let_def empty_group_def split: option.split)
qed

lemma HashDocs_result:
  assumes "0 < n" and "is_int32 n" and "length doc_keys = length ds"
  shows "\<exists>grps. HashDocs lib ds doc_keys n = Some grps \<and> std_map_ok grps \<and>
    (\<forall>i. map_of grps i =
      (let infos = docs_at lib n (zip doc_keys ds) i
       in if infos = [] then None else Some \<lparr>dg_partition_id = i, dg_pb_doc_infos = infos\<rparr>))"
proof -
  obtain made where m: "make_groups lib ds doc_keys n 0 [] = Some made" "std_map_ok made"
    "\<And>j. map_of made j = (if j \<in> home lib n ` set doc_keys then Some (empty_group j) else None)"
    using make_groups_result [OF assms(1,2), of 0 doc_keys ds "[]" lib] assms(3) by auto
  obtain grps where g: "fill_groups lib ds doc_keys n 0 made = Some grps" "std_map_ok grps"
    "\<And>j. map_of grps j = (let infos = docs_at lib n (zip doc_keys ds) j
         in case map_of made j of Some g \<Rightarrow> Some (g\<lparr>dg_pb_doc_infos := dg_pb_doc_infos g @ infos\<rparr>)
            | None \<Rightarrow> if infos = [] then None else Some \<lparr>dg_partition_id = j, dg_pb_doc_infos = infos\<rparr>)"
    using fill_groups_result [OF assms(1,2), of 0 ds doc_keys made lib] assms(3) m(2) by auto
  have "docs_at lib n (zip doc_keys ds) j \<noteq> []" if "j \<in> home lib n ` set doc_keys" for j
  proof -
    from that obtain t where "t < length doc_keys" "home lib n (doc_keys ! t) = j" by (auto simp: in_set_conv_nth)
    then have "(doc_keys ! t, ds ! t) \<in> set (docs_at lib n (zip doc_keys ds) j)"
      using assms(3) by (auto simp: docs_at_def set_zip)
    then show ?thesis by auto
  qed
  with m(1) g(1,2) show ?thesis by (auto simp: HashDocs_def g(3) m(3) Let_def empty_group_def)
qed

text \<open>C13: with \<open>n > 0\<close> partitions and a key for each document, grouping documents is defined, and group \<open>i\<close>
  holds, in their order, the documents whose key belongs to partition \<open>i\<close>.\<close>

theorem HashDocs_groups:
  assumes "0 < n" and "is_int32 n" and "length doc_keys = length ds"
  shows "\<exists>grps. HashDocs lib ds doc_keys n = Some grps \<and> std_map_ok grps \<and>
    (\<forall>i. map_of grps i =
      (let infos = docs_at lib n (zip doc_keys ds) i
       in if infos = [] then None else Some \<lparr>dg_partition_id = i, dg_pb_doc_infos = infos\<rparr>))"
  by (rule HashDocs_result [OF assms])

subsection \<open>A concrete router\<close>

definition demo_router_lib :: "string router_lib" where
  "demo_router_lib = \<lparr>rl_net = demo_net, rl_hasher = demo_hash, rl_range_to = (\<lambda>_. (True, ''q'')),
     rl_range_from = (\<lambda>_ _. (True, \<lparr>rr_kvs = [(''/spaces/db-sp'', ''v'')]\<rparr>)), rl_space_of_json = (\<lambda>_. Inr demo_space),
     rl_spaces_to = (\<lambda>_. (True, ''spaces'')), rl_spaces_from = (\<lambda>_ _. (True, [demo_space])), rl_protobuf = demo_pb,
     rl_grow = (\<lambda>n. 2 * n + 1), rl_moved = (\<lambda>_. empty_document)\<rparr>"

definition demo_router :: "string router" where
  "demo_router = \<lparr>rt_manager = new_space_manager, rt_local = new_local_spaces, rt_fs = demo_fs, rt_world = ''A''\<rparr>"

definition demo_ec :: etcd_client where
  "demo_ec = \<lparr>ec_chan_list = [Some ''B''], ec_chan_size = 1, ec_running = False\<rparr>"

lemma demo_range:
  "EtcdClient_Range (rl_net demo_router_lib) (rl_range_to demo_router_lib) (rl_range_from demo_router_lib) range_of_spaces \<lparr>rr_kvs = []\<rparr> demo_ec (rt_world demo_router)
     = Some (True, \<lparr>rr_kvs = [(''/spaces/db-sp'', ''v'')]\<rparr>, ''A'')"
  by (simp add: EtcdClient_Range_def EtcdOp_def demo_router_lib_def demo_ec_def demo_router_def GetChannel_def random_int_def GenRandomInt_def at_ub_def Let_def)

lemma demo_parse: "parse_kvs demo_router_lib (rr_kvs \<lparr>rr_kvs = [(''/spaces/db-sp'', ''v'')]\<rparr>) = Inr [demo_space]"
  by (simp add: SpaceJsonToPb_def demo_router_lib_def)

text \<open>The router after it started with one space.\<close>

lemma demo_start:
  obtains rt c where "SpaceManager_Init demo_router_lib 100 demo_ec demo_router = Some ('''', rt)" and "sm_ok demo_router_lib (rt_manager rt)"
    and "served demo_router_lib (rt_manager rt) (key_of demo_space) = Some c" and "sc_pb_space c = demo_space" and "space_ok c"
    and "dom (served demo_router_lib (rt_manager rt)) = {key_of demo_space}"
proof -
  have wf: "list_all (\<lambda>s. list_all partition_wf (sp_partitions s)) [demo_space]" using demo_space_wf by simp
  from SpaceManager_Init_result [OF _ _ _ demo_range _ demo_parse wf, of 100]
  obtain rt c where rt: "SpaceManager_Init demo_router_lib 100 demo_ec demo_router = Some ('''', rt)" "sm_ok demo_router_lib (rt_manager rt)"
    "served demo_router_lib (rt_manager rt) (key_of demo_space) = Some c" "sc_pb_space c = demo_space" "space_ok c"
    "dom (served demo_router_lib (rt_manager rt)) \<subseteq> {key_of demo_space}"
    by (auto simp: is_int16_def demo_router_def)
  then have "dom (served demo_router_lib (rt_manager rt)) = {key_of demo_space}" by auto
  with rt that show thesis by blast
qed

theorem SpaceManager_Init_serves_witness:
  "\<exists>rt'. SpaceManager_Init demo_router_lib 100 demo_ec demo_router = Some ('''', rt') \<and> sm_ok demo_router_lib (rt_manager rt') \<and>
     (\<exists>c. served demo_router_lib (rt_manager rt') (key_of demo_space) = Some c)"
proof -
  have parse: "parse_kvs demo_router_lib (rr_kvs \<lparr>rr_kvs = [(''/spaces/db-sp'', ''v'')]\<rparr>) = Inr [demo_space]"
    by (simp add: SpaceJsonToPb_def demo_router_lib_def)
  have wf: "list_all (\<lambda>s. list_all partition_wf (sp_partitions s)) [demo_space]" using demo_space_wf by simp
  from SpaceManager_Init_serves [OF _ _ _ demo_range _ demo_parse wf, of 100] show ?thesis
    by (auto simp: is_int16_def demo_router_def)
qed

theorem SpaceManager_AddSpace_refines_witness:
  "\<exists>m rt'. SpaceManager_AddSpace demo_router_lib demo_space demo_router = Some (m, rt') \<and> sm_ok demo_router_lib (rt_manager rt') \<and>
     served demo_router_lib (rt_manager rt') = Map.empty"
  using SpaceManager_AddSpace_refines [OF _ demo_space_wf, of demo_router_lib demo_router] new_space_manager_ok [of demo_router_lib]
    new_space_manager_serves [of demo_router_lib]
  by (fastforce simp: demo_router_def has_slot_def new_space_manager_def)

theorem SpaceManager_DeleteSpace_refines_witness:
  "\<exists>rt m sm'. SpaceManager_Init demo_router_lib 100 demo_ec demo_router = Some ('''', rt) \<and>
     SpaceManager_DeleteSpace demo_router_lib (key_of demo_space) (rt_manager rt) = Some (m, sm') \<and> m = '''' \<and> served demo_router_lib sm' = Map.empty"
proof -
  obtain rt c where s: "SpaceManager_Init demo_router_lib 100 demo_ec demo_router = Some ('''', rt)" "sm_ok demo_router_lib (rt_manager rt)"
    "served demo_router_lib (rt_manager rt) (key_of demo_space) = Some c" "dom (served demo_router_lib (rt_manager rt)) = {key_of demo_space}"
    by (rule demo_start)
  then have "(served demo_router_lib (rt_manager rt))(key_of demo_space := None) = Map.empty" by (auto simp: fun_eq_iff dom_def)
  with SpaceManager_DeleteSpace_refines [OF s(2), of "key_of demo_space"] s(1,3) show ?thesis by auto
qed

theorem GetSpaceConn_refines_witness:
  "\<exists>rt m c. SpaceManager_Init demo_router_lib 100 demo_ec demo_router = Some ('''', rt) \<and>
     GetSpaceConn demo_router_lib ''db-sp'' '''' (rt_manager rt) = Some (Some c, m) \<and> m = ''''"
proof -
  obtain rt c where s: "SpaceManager_Init demo_router_lib 100 demo_ec demo_router = Some ('''', rt)" "sm_ok demo_router_lib (rt_manager rt)"
    "served demo_router_lib (rt_manager rt) (key_of demo_space) = Some c"
    by (rule demo_start)
  have "key_of demo_space = ''db-sp''" by (simp add: key_of_def demo_space_def GenSpaceKey_def)
  with GetSpaceConn_refines [OF s(2), of "''db-sp''"] s(1,3) show ?thesis by auto
qed

lemma HashKeys_groups_witness:
  "\<exists>grps. HashKeys demo_router_lib [''1'', ''22'', ''3''] 2 = Some grps \<and> map_of grps 1 = Some [''1'', ''3'']"
  using HashKeys_groups [of 2 demo_router_lib "[''1'', ''22'', ''3'']"]
  by (auto simp: is_int32_def keys_at_def home_def StrHashUint64_def demo_router_lib_def demo_hash_def)

theorem HashDocs_groups_witness:
  "\<exists>grps. HashDocs demo_router_lib [empty_document, empty_document] [''1'', ''22''] 2 = Some grps \<and>
     map_of grps 1 = Some \<lparr>dg_partition_id = 1, dg_pb_doc_infos = [(''1'', empty_document)]\<rparr>"
  using HashDocs_groups [of 2 "[''1'', ''22'']" "[empty_document, empty_document]" demo_router_lib]
  by (auto simp: is_int32_def docs_at_def home_def StrHashUint64_def demo_router_lib_def demo_hash_def)

end
