(* ===== verification/Router_Rpc.thy ===== *)
theory Router_Rpc
  imports Space_Manager
begin

text \<open>
  The services of the router, \<open>service/router/router_rpc.h\<close> and \<open>service/router/router_rpc.cc\<close>: one
  definition per handler. A handler answers with the response it filled and with whether it ran
  the closure \<open>done\<close>, which is what sends the response; the state it changes is the \<open>router\<close> of
  theory \<open>Space_Manager\<close>. The last part runs the handlers one after the other.
\<close>

subsection \<open>Replies\<close>

record 'r reply =
  re_resp :: 'r
  re_done :: bool

definition replied :: "'r \<Rightarrow> 'r reply" where
  "replied resp = \<lparr>re_resp = resp, re_done = True\<rparr>"

definition failed_doc :: "string \<Rightarrow> msg \<Rightarrow> doc_status" where
  "failed_doc key m = \<lparr>ds_id = key, ds_code = 0, ds_msg = m\<rparr>"

subsection \<open>Spaces\<close>

definition status_of :: "msg \<Rightarrow> msg \<Rightarrow> resp_status" where
  "status_of m done_msg =
     (if m \<noteq> '''' then \<lparr>rs_code = Some 101, rs_msg = Some m\<rparr> else \<lparr>rs_code = Some 0, rs_msg = Some done_msg\<rparr>)"

definition Router_AddSpace :: "'w router_lib \<Rightarrow> pb_space \<Rightarrow> 'w router \<Rightarrow> (resp_status reply \<times> 'w router) ub" where
  "Router_AddSpace lib space rt = do {
     (m, rt1) \<leftarrow> SpaceManager_AddSpace lib space rt;
     Some (replied (status_of m ''''), rt1)
   }"

definition Router_DeleteSpace :: "'w router_lib \<Rightarrow> delete_space_request \<Rightarrow> 'w router \<Rightarrow> (resp_status reply \<times> 'w router) ub" where
  "Router_DeleteSpace lib req rt = do {
     let db_name = str_or (dsq_db_name req);
     let space_name = str_or (dsq_space_name req);
     let space_key = GenSpaceKey db_name space_name;
     let rt1 = save_local lib (snd (LocalSpaces_DeleteSpace db_name space_name (rt_local rt))) rt;
     (m, sm) \<leftarrow> SpaceManager_DeleteSpace lib space_key (rt_manager rt1);
     Some (replied (status_of m ''success''), rt1\<lparr>rt_manager := sm\<rparr>)
   }"

text \<open>Listing the spaces and searching only answer: the response stays as it came.\<close>

definition Router_SpaceList :: "'r \<Rightarrow> 'r reply" where
  "Router_SpaceList resp = replied resp"

definition Router_Search :: "search_response \<Rightarrow> search_response reply" where
  "Router_Search resp = replied resp"

subsection \<open>Reading\<close>

definition get_fail :: "string list \<Rightarrow> int \<Rightarrow> msg \<Rightarrow> get_response \<Rightarrow> get_response" where
  "get_fail ids code m resp =
     resp\<lparr>gp_failed_docs := gp_failed_docs resp @ map (\<lambda>key. failed_doc key m) ids, gp_code := code, gp_msg := m\<rparr>"

text \<open>The loop over the ids: a document of the result is moved into the response.\<close>

fun answer_ids :: "'w router_lib \<Rightarrow> string list \<Rightarrow> (string, msg) std_map \<Rightarrow> (string, pb_document) std_map \<Rightarrow> get_response
    \<Rightarrow> get_response" where
  "answer_ids lib [] err_ids docs_res resp = resp"
| "answer_ids lib (key # keys) err_ids docs_res resp =
     (case map_of err_ids key of
        Some m \<Rightarrow> answer_ids lib keys err_ids docs_res (resp\<lparr>gp_failed_docs := gp_failed_docs resp @ [failed_doc key m]\<rparr>)
      | None \<Rightarrow>
          (case map_of docs_res key of
             Some doc \<Rightarrow> answer_ids lib keys err_ids (std_map_set key (rl_moved lib doc) docs_res)
               (resp\<lparr>gp_documents := gp_documents resp @ [doc]\<rparr>)
           | None \<Rightarrow> answer_ids lib keys err_ids docs_res
               (resp\<lparr>gp_failed_docs := gp_failed_docs resp @ [failed_doc key ''get doc fail, engine not has result.'']\<rparr>)))"

definition Router_Get :: "'w router_lib \<Rightarrow> get_request \<Rightarrow> get_response \<Rightarrow> 'w router \<Rightarrow> (get_response reply \<times> 'w router) ub" where
  "Router_Get lib req resp rt = do {
     let space_key = GenSpaceKey (gq_db_name req) (gq_space_name req);
     (space_conn, m) \<leftarrow> GetSpaceConn lib space_key '''' (rt_manager rt);
     case (if m \<noteq> '''' then None else space_conn) of
       None \<Rightarrow> Some (replied (get_fail (gq_ids req) 101 m resp), rt)
     | Some sc \<Rightarrow>
         (let m1 = CheckPbIds (gq_ids req) (sc_pb_space sc)
          in if m1 \<noteq> '''' then Some (replied (get_fail (gq_ids req) 102 m1 resp), rt)
             else do {
               idx_keys_mp \<leftarrow> HashKeys lib (gq_ids req) (PartitionNum sc);
               (err_ids, docs_res, w) \<leftarrow> SpaceConnection_GetDocs (rl_net lib) idx_keys_mp [] [] sc (rt_world rt);
               let resp1 = answer_ids lib (gq_ids req) err_ids docs_res resp;
               Some (replied (if err_ids \<noteq> []
                              then resp1\<lparr>gp_code := 103, gp_msg := ''There is some id that failed to get. failed ids :''\<rparr>
                              else resp1\<lparr>gp_code := 0, gp_msg := ''''\<rparr>),
                     rt\<lparr>rt_world := w\<rparr>)
             })
   }"

subsection \<open>Writing\<close>

definition upsert_fail :: "pb_document list \<Rightarrow> msg \<Rightarrow> int \<Rightarrow> msg \<Rightarrow> upsert_response \<Rightarrow> upsert_response" where
  "upsert_fail ds each code m resp =
     resp\<lparr>up_failed_docs := up_failed_docs resp @ map (\<lambda>d. failed_doc (str_or (doc_id d)) each) ds, up_code := code, up_msg := m\<rparr>"

text \<open>The first document that does not fit the space ends the check.\<close>

fun check_docs :: "pb_space \<Rightarrow> pb_document list \<Rightarrow> msg" where
  "check_docs space [] = ''''"
| "check_docs space (d # ds) = (let m = CheckPbDocSpace d space in if m \<noteq> '''' then m else check_docs space ds)"

text \<open>The keys of the documents are made as empty strings, and nothing fills them.\<close>

definition blank_keys :: "pb_document list \<Rightarrow> string list" where
  "blank_keys ds = replicate (length ds) ''''"

definition failed_keys :: "(string, msg) std_map \<Rightarrow> string list \<Rightarrow> doc_status list" where
  "failed_keys err_mp doc_keys =
     concat (map (\<lambda>key. case map_of err_mp key of Some m \<Rightarrow> [failed_doc key m] | None \<Rightarrow> []) doc_keys)"

definition Router_Upsert :: "'w router_lib \<Rightarrow> upsert_request \<Rightarrow> upsert_response \<Rightarrow> 'w router \<Rightarrow> (upsert_response reply \<times> 'w router) ub" where
  "Router_Upsert lib req resp rt = do {
     let space_key = GenSpaceKey (uq_db_name req) (uq_space_name req);
     (space_conn, m) \<leftarrow> GetSpaceConn lib space_key '''' (rt_manager rt);
     case (if m \<noteq> '''' then None else space_conn) of
       None \<Rightarrow> Some (replied (upsert_fail (uq_documents req) m 101 m resp), rt)
     | Some sc \<Rightarrow>
         (let doc_keys = blank_keys (uq_documents req);
              m1 = check_docs (sc_pb_space sc) (uq_documents req)
          in if m1 \<noteq> '''' then Some (replied (upsert_fail (uq_documents req) ''has doc format error'' 102 m1 resp), rt)
             else do {
               docs_grps \<leftarrow> HashDocs lib (uq_documents req) doc_keys (PartitionNum sc);
               (err_mp, sc1, w) \<leftarrow> SpaceConnection_UpsertDocs (rl_protobuf lib) (rl_net lib) docs_grps [] sc (rt_world rt);
               sm \<leftarrow> put_conn space_key lib sc1 (rt_manager rt);
               let resp1 = resp\<lparr>up_failed_docs := up_failed_docs resp @ failed_keys err_mp doc_keys\<rparr>;
               Some (replied (if doc_keys \<noteq> [] then resp1\<lparr>up_code := 103, up_msg := ''upsert exist fail, failed id:''\<rparr>
                              else resp1\<lparr>up_code := 0\<rparr>),
                     rt\<lparr>rt_manager := sm, rt_world := w\<rparr>)
             })
   }"

subsection \<open>Deleting documents\<close>

definition delete_fail :: "string list \<Rightarrow> int \<Rightarrow> msg \<Rightarrow> delete_response \<Rightarrow> delete_response" where
  "delete_fail ids code m resp =
     resp\<lparr>dp_failed_docs := dp_failed_docs resp @ map (\<lambda>key. failed_doc key m) ids, dp_code := code, dp_msg := m\<rparr>"

definition Router_Delete :: "'w router_lib \<Rightarrow> delete_request \<Rightarrow> delete_response \<Rightarrow> 'w router \<Rightarrow> (delete_response reply \<times> 'w router) ub" where
  "Router_Delete lib req resp rt = do {
     let space_key = GenSpaceKey (dq_db_name req) (dq_space_name req);
     (space_conn, m) \<leftarrow> GetSpaceConn lib space_key '''' (rt_manager rt);
     case (if m \<noteq> '''' then None else space_conn) of
       None \<Rightarrow> Some (replied (delete_fail (dq_ids req) 101 m resp), rt)
     | Some sc \<Rightarrow>
         (let m1 = CheckPbIds (dq_ids req) (sc_pb_space sc)
          in if m1 \<noteq> '''' then Some (replied (delete_fail (dq_ids req) 102 m1 resp), rt)
             else do {
               idx_keys_mp \<leftarrow> HashKeys lib (dq_ids req) (PartitionNum sc);
               err_ids \<leftarrow> SpaceConnection_DeleteDocs idx_keys_mp [] sc;
               let resp1 = resp\<lparr>dp_failed_docs := dp_failed_docs resp @ failed_keys err_ids (dq_ids req)\<rparr>;
               Some (replied (if err_ids \<noteq> []
                              then resp1\<lparr>dp_code := 103, dp_msg := ''There is some id that failed to be deleted. failed ids :''\<rparr>
                              else resp1\<lparr>dp_code := 0, dp_msg := ''''\<rparr>),
                     rt)
             })
   }"

text \<open>The mock handlers have no body: the closure is never run.\<close>

definition Router_MockUpsert :: "'r \<Rightarrow> 'r reply" where
  "Router_MockUpsert resp = \<lparr>re_resp = resp, re_done = False\<rparr>"

definition Router_MockGet :: "mock_get_response \<Rightarrow> mock_get_response reply" where
  "Router_MockGet resp = \<lparr>re_resp = resp, re_done = False\<rparr>"

subsection \<open>A router that can serve\<close>

definition servable :: "pb_space \<Rightarrow> bool" where
  "servable space \<longleftrightarrow> list_all partition_wf (sp_partitions space) \<and> 0 < int32_of (sp_partition_num space) \<and>
     int32_of (sp_partition_num space) \<le> int (length (sp_partitions space))"

definition serv_ok :: "space_connection \<Rightarrow> bool" where
  "serv_ok sc \<longleftrightarrow> space_ok sc \<and> sc_space_key sc = key_of (sc_pb_space sc) \<and> 0 < PartitionNum sc \<and>
     PartitionNum sc \<le> int (length (sc_partition_list sc))"

definition rt_ok :: "'w router_lib \<Rightarrow> 'w router \<Rightarrow> bool" where
  "rt_ok lib rt \<longleftrightarrow> sm_ok lib (rt_manager rt) \<and> (\<forall>k c. served lib (rt_manager rt) k = Some c \<longrightarrow> serv_ok c)"

lemma PartitionNum_int32: "is_int32 (PartitionNum sc)"
  by (simp add: PartitionNum_def is_int32_of)

lemma home_in_range:
  assumes "serv_ok sc"
  shows "in_range sc (home lib (PartitionNum sc) key)"
  using assms partition_id_home(2,3) [OF _ PartitionNum_int32, of sc lib key] by (auto simp: in_range_def serv_ok_def)

lemma find_served:
  assumes "sm_ok lib (rt_manager rt)" and "1 < length key"
  shows "GetSpaceConn lib key '''' (rt_manager rt) =
    Some (case served lib (rt_manager rt) key of
            Some c \<Rightarrow> (Some c, '''') | None \<Rightarrow> (None, ''db_name and space_name ['' @ key @ ''] is not exist''))"
  using GetSpaceConn_result [OF assms(1), of key "''''"] assms(2) by simp

lemma std_map_ok_map_of: "std_map_ok m \<Longrightarrow> (i, x) \<in> set m \<longleftrightarrow> map_of m i = Some x"
  using std_map_ok_distinct by fastforce

lemma disjoint_groups_by:
  "distinct (map fst grps) \<Longrightarrow> \<forall>(i, ks) \<in> set grps. \<forall>k \<in> set ks. f k = i \<Longrightarrow> disjoint_groups grps"
proof (induction grps)
  case Nil
  then show ?case by simp
next
  case (Cons g grps)
  obtain i ks where g: "g = (i, ks)" by fastforce
  have "set ks \<inter> set ks' = {}" if "(j, ks') \<in> set grps" for j ks'
  proof -
    have "j \<noteq> i" using Cons.prems(1) that by (force simp: g)
    moreover have "\<forall>k \<in> set ks. f k = i" "\<forall>k \<in> set ks'. f k = j" using Cons.prems(2) that g by auto
    ultimately show ?thesis by auto
  qed
  with Cons g show ?case by auto
qed

text \<open>The groups of a list of ids fit the space, and hold exactly these ids.\<close>

lemma HashKeys_usable:
  assumes "serv_ok sc"
  obtains grps where "HashKeys lib ids (PartitionNum sc) = Some grps" and "\<forall>(i, keys) \<in> set grps. in_range sc i"
    and "disjoint_groups grps" and "(\<Union>(i, keys) \<in> set grps. set keys) = set ids"
proof -
  let ?n = "PartitionNum sc"
  have n: "0 < ?n" using assms by (simp add: serv_ok_def)
  from hash_keys_groups [OF n PartitionNum_int32, of "[]" lib ids] obtain grps where g: "HashKeys lib ids ?n = Some grps" "std_map_ok grps"
    "\<And>i. map_of grps i = (if keys_at lib ?n ids i = [] then None else Some (keys_at lib ?n ids i))"
    by (auto simp: HashKeys_def)
  have mem: "(i, ks) \<in> set grps \<longleftrightarrow> ks = keys_at lib ?n ids i \<and> ks \<noteq> []" for i ks
    using std_map_ok_map_of [OF g(2), of i ks] g(3) [of i] by auto
  have home: "home lib ?n k = i \<and> k \<in> set ids" if "(i, ks) \<in> set grps" "k \<in> set ks" for i ks k
    using that mem by (auto simp: keys_at_def)
  have "in_range sc i" if "(i, ks) \<in> set grps" for i ks
  proof -
    have "ks \<noteq> []" using mem that by blast
    then obtain k where "k \<in> set ks" using list.set_sel(1) by blast
    with home [OF that] home_in_range [OF assms, of lib k] show ?thesis by simp
  qed
  moreover have "disjoint_groups grps"
    by (rule disjoint_groups_by [of _ "home lib ?n"]) (use g(2) home std_map_ok_distinct in auto)
  moreover have "(home lib ?n k, keys_at lib ?n ids (home lib ?n k)) \<in> set grps \<and> k \<in> set (keys_at lib ?n ids (home lib ?n k))"
    if "k \<in> set ids" for k
  proof -
    have "k \<in> set (keys_at lib ?n ids (home lib ?n k))" using that by (simp add: keys_at_def)
    then show ?thesis unfolding mem by (metis empty_iff list.set(1))
  qed
  then have "set ids \<subseteq> (\<Union>(i, keys) \<in> set grps. set keys)" by blast
  moreover have "(\<Union>(i, keys) \<in> set grps. set keys) \<subseteq> set ids" using home by blast
  ultimately show thesis by (intro that [OF g(1)]) auto
qed

subsection \<open>Reading answers every id\<close>

lemma answer_ids_result:
  "distinct keys \<Longrightarrow> set keys \<subseteq> dom (map_of errs) \<union> dom (map_of found) \<Longrightarrow>
   answer_ids lib keys errs found resp =
     resp\<lparr>gp_failed_docs := gp_failed_docs resp @ map (\<lambda>k. failed_doc k (the (map_of errs k))) (filter (\<lambda>k. k \<in> dom (map_of errs)) keys),
          gp_documents := gp_documents resp @ map (\<lambda>k. the (map_of found k)) (filter (\<lambda>k. k \<notin> dom (map_of errs)) keys)\<rparr>"
proof (induction keys arbitrary: found resp)
  case Nil
  then show ?case by simp
next
  case (Cons k keys)
  show ?case
  proof (cases "map_of errs k")
    case (Some m)
    with Cons show ?thesis by (simp add: domI)
  next
    case None
    with Cons.prems(2) obtain d where d: "map_of found k = Some d" by auto
    have "map (\<lambda>k'. the (map_of (std_map_set k (rl_moved lib d) found) k')) (filter (\<lambda>k. k \<notin> dom (map_of errs)) keys) =
        map (\<lambda>k. the (map_of found k)) (filter (\<lambda>k. k \<notin> dom (map_of errs)) keys)"
      using Cons.prems(1) by (intro map_cong) auto
    moreover have "set keys \<subseteq> dom (map_of errs) \<union> dom (map_of (std_map_set k (rl_moved lib d) found))"
      using Cons.prems(2) by auto
    ultimately show ?thesis using Cons None d by (simp add: domIff)
  qed
qed

lemma CheckPbIds_distinct: "CheckPbIds ids space = '''' \<Longrightarrow> distinct ids"
  by (simp add: CheckPbIds_def check_ids_empty_iff)

lemma Router_Get_result:
  fixes rt :: "'w router"
  defines "key req \<equiv> GenSpaceKey (gq_db_name req) (gq_space_name req)"
  assumes "rand_spec (rl_net lib)" and "rt_ok lib rt" and "1 < length (key req)"
    and "served lib (rt_manager rt) (key req) = Some sc" and "CheckPbIds (gq_ids req) (sc_pb_space sc) = ''''"
  obtains resp' w errs found where "Router_Get lib req empty_get_response rt = Some (replied resp', rt\<lparr>rt_world := w\<rparr>)"
    and "answered (set (gq_ids req)) errs found"
    and "gp_documents resp' = map (\<lambda>k. the (map_of found k)) (filter (\<lambda>k. k \<notin> dom (map_of errs)) (gq_ids req))"
    and "gp_failed_docs resp' = map (\<lambda>k. failed_doc k (the (map_of errs k))) (filter (\<lambda>k. k \<in> dom (map_of errs)) (gq_ids req))"
    and "gp_code resp' = (if errs = [] then 0 else 103)"
proof -
  have sc: "serv_ok sc" "space_ok sc" using assms(3,5) by (auto simp: rt_ok_def serv_ok_def)
  obtain grps where g: "HashKeys lib (gq_ids req) (PartitionNum sc) = Some grps" "\<forall>(i, keys) \<in> set grps. in_range sc i"
    "disjoint_groups grps" "(\<Union>(i, keys) \<in> set grps. set keys) = set (gq_ids req)"
    by (rule HashKeys_usable [OF sc(1)])
  have "answered {} [] []" by (simp add: answered_def)
  from SpaceConnection_GetDocs_answered [OF assms(2) sc(2) g(2,3) this, of "rt_world rt"] g(4)
  obtain errs found w where d: "SpaceConnection_GetDocs (rl_net lib) grps [] [] sc (rt_world rt) = Some (errs, found, w)"
    "answered (set (gq_ids req)) errs found" by auto
  have find: "GetSpaceConn lib (key req) '''' (rt_manager rt) = Some (Some sc, '''')"
    using find_served [OF _ assms(4), of lib rt] assms(3,5) by (simp add: rt_ok_def)
  have "set (gq_ids req) \<subseteq> dom (map_of errs) \<union> dom (map_of found)" using d(2) by (simp add: answered_def)
  note ans = answer_ids_result [OF CheckPbIds_distinct [OF assms(6)] this, of lib empty_get_response]
  define r where "r = answer_ids lib (gq_ids req) errs found empty_get_response"
  let ?r1 = "if errs \<noteq> [] then r\<lparr>gp_code := 103, gp_msg := ''There is some id that failed to get. failed ids :''\<rparr>
    else r\<lparr>gp_code := 0, gp_msg := ''''\<rparr>"
  have "Router_Get lib req empty_get_response rt = Some (replied ?r1, rt\<lparr>rt_world := w\<rparr>)"
    using find g(1) d(1) assms(6) by (simp add: Router_Get_def Let_def key_def r_def)
  moreover have
    "gp_documents r = map (\<lambda>k. the (map_of found k)) (filter (\<lambda>k. k \<notin> dom (map_of errs)) (gq_ids req))"
    "gp_failed_docs r = map (\<lambda>k. failed_doc k (the (map_of errs k))) (filter (\<lambda>k. k \<in> dom (map_of errs)) (gq_ids req))"
    unfolding r_def ans by (simp_all add: empty_get_response_def)
  ultimately show thesis
    by (intro that [OF _ d(2)]) (assumption, simp_all)
qed

text \<open>C12: a read of ids that fit a space served by the router, whose hash the partitions cover, is answered:
  every id is in the answer once, as the document with that id or as a failed one, in the order of
  the request, and the code is zero exactly when none failed.\<close>

theorem Router_Get_answers:
  fixes rt :: "'w router"
  assumes "rand_spec (rl_net lib)" and "rt_ok lib rt" and "1 < length (GenSpaceKey (gq_db_name req) (gq_space_name req))"
    and "served lib (rt_manager rt) (GenSpaceKey (gq_db_name req) (gq_space_name req)) = Some sc"
    and "CheckPbIds (gq_ids req) (sc_pb_space sc) = ''''"
  shows "\<exists>resp' w found. Router_Get lib req empty_get_response rt = Some (replied resp', rt\<lparr>rt_world := w\<rparr>) \<and>
    map (str_or \<circ> doc_id) (gp_documents resp') = filter found (gq_ids req) \<and>
    map ds_id (gp_failed_docs resp') = filter (\<lambda>k. \<not> found k) (gq_ids req) \<and>
    gp_code resp' = (if gp_failed_docs resp' = [] then 0 else 103)"
proof -
  obtain resp' w errs docs where r: "Router_Get lib req empty_get_response rt = Some (replied resp', rt\<lparr>rt_world := w\<rparr>)"
    "answered (set (gq_ids req)) errs docs"
    "gp_documents resp' = map (\<lambda>k. the (map_of docs k)) (filter (\<lambda>k. k \<notin> dom (map_of errs)) (gq_ids req))"
    "gp_failed_docs resp' = map (\<lambda>k. failed_doc k (the (map_of errs k))) (filter (\<lambda>k. k \<in> dom (map_of errs)) (gq_ids req))"
    "gp_code resp' = (if errs = [] then 0 else 103)"
    by (rule Router_Get_result [OF assms])
  have doc: "str_or (doc_id (the (map_of docs k))) = k" if k: "k \<in> set (filter (\<lambda>k. k \<notin> dom (map_of errs)) (gq_ids req))" for k
  proof -
    have "k \<in> dom (map_of docs)" using r(2) k unfolding answered_def by auto
    then obtain d where "map_of docs k = Some d" by blast
    with r(2) map_of_SomeD [OF this] show ?thesis by (auto simp: answered_def)
  qed
  have "map (str_or \<circ> doc_id) (gp_documents resp') = filter (\<lambda>k. k \<notin> dom (map_of errs)) (gq_ids req)"
    unfolding r(3) map_map by (rule map_idI) (use doc in \<open>simp add: comp_def\<close>)
  moreover have "map ds_id (gp_failed_docs resp') = filter (\<lambda>k. \<not> k \<notin> dom (map_of errs)) (gq_ids req)"
    unfolding r(4) map_map by (simp add: comp_def failed_doc_def)
  moreover have "gp_code resp' = (if gp_failed_docs resp' = [] then 0 else 103)"
  proof -
    have "dom (map_of errs) \<subseteq> set (gq_ids req)" using r(2) unfolding answered_def by blast
    then have "dom (map_of errs) = {} \<longleftrightarrow> filter (\<lambda>k. k \<in> dom (map_of errs)) (gq_ids req) = []"
      unfolding filter_empty_conv by blast
    then have "errs = [] \<longleftrightarrow> gp_failed_docs resp' = []" using r(4) by (simp add: dom_map_of_conv_image_fst)
    with r(5) show ?thesis by simp
  qed
  ultimately show ?thesis using r(1) by blast
qed


subsection \<open>Requests that are refused\<close>

text \<open>C37: a request on documents of a space that is not served is refused with code 101 and the same message for
  every id, and one whose ids or documents do not fit the space with code 102; in both cases nothing is
  sent and the router stays as it is.\<close>

theorem Router_refuses:
  fixes rt :: "'w router"
  assumes "sm_ok lib (rt_manager rt)" and "1 < length (GenSpaceKey db sp)"
  shows "(served lib (rt_manager rt) (GenSpaceKey db sp) = None \<longrightarrow>
      (\<exists>m. m \<noteq> '''' \<and>
        Router_Get lib \<lparr>gq_db_name = db, gq_space_name = sp, gq_ids = ids\<rparr> resp rt = Some (replied (get_fail ids 101 m resp), rt) \<and>
        Router_Upsert lib \<lparr>uq_db_name = db, uq_space_name = sp, uq_documents = ds\<rparr> uresp rt = Some (replied (upsert_fail ds m 101 m uresp), rt) \<and>
        Router_Delete lib \<lparr>dq_db_name = db, dq_space_name = sp, dq_ids = ids\<rparr> dresp rt = Some (replied (delete_fail ids 101 m dresp), rt))) \<and>
    (\<forall>sc. served lib (rt_manager rt) (GenSpaceKey db sp) = Some sc \<longrightarrow>
      (CheckPbIds ids (sc_pb_space sc) \<noteq> '''' \<longrightarrow>
        Router_Get lib \<lparr>gq_db_name = db, gq_space_name = sp, gq_ids = ids\<rparr> resp rt =
          Some (replied (get_fail ids 102 (CheckPbIds ids (sc_pb_space sc)) resp), rt) \<and>
        Router_Delete lib \<lparr>dq_db_name = db, dq_space_name = sp, dq_ids = ids\<rparr> dresp rt =
          Some (replied (delete_fail ids 102 (CheckPbIds ids (sc_pb_space sc)) dresp), rt)) \<and>
      (check_docs (sc_pb_space sc) ds \<noteq> '''' \<longrightarrow>
        Router_Upsert lib \<lparr>uq_db_name = db, uq_space_name = sp, uq_documents = ds\<rparr> uresp rt =
          Some (replied (upsert_fail ds ''has doc format error'' 102 (check_docs (sc_pb_space sc) ds) uresp), rt)))"
  using find_served [OF assms] by (auto simp: Router_Get_def Router_Upsert_def Router_Delete_def Let_def)

subsection \<open>Writing\<close>

lemma std_map_single:
  assumes "std_map_ok m" and "\<And>i. map_of m i = (if i = k then Some v else None)"
  shows "m = [(k, v)]"
proof (cases m)
  case Nil
  with assms(2) [of k] show ?thesis by simp
next
  case (Cons p rest)
  obtain i x where p: "p = (i, x)" by fastforce
  have mem: "(j, y) \<in> set m \<longleftrightarrow> j = k \<and> y = v" for j y
    using std_map_ok_map_of [OF assms(1), of j y] assms(2) [of j] by auto
  have "p \<in> set m" using Cons by simp
  then have "p = (k, v)" using mem [of i x] p by simp
  moreover have "rest = []"
  proof (rule ccontr)
    assume "rest \<noteq> []"
    then obtain q rest' where q: "rest = q # rest'" by (cases rest) auto
    then have "q \<in> set m" using Cons by simp
    then have "q = (k, v)" using mem [of "fst q" "snd q"] by (metis prod.collapse)
    with std_map_ok_distinct [OF assms(1)] \<open>p = (k, v)\<close> q Cons show False by simp
  qed
  ultimately show ?thesis using Cons by simp
qed

lemma zip_blank_keys: "zip (blank_keys ds) ds = map (Pair '''') ds"
  by (induction ds) (simp_all add: blank_keys_def)

lemma docs_at_blank: "docs_at lib n (map (Pair k) ds) i = (if i = home lib n k then map (Pair k) ds else [])"
  by (induction ds) (auto simp: docs_at_def)

text \<open>All documents of a request fall in one group, that of the partition of the empty key.\<close>

lemma HashDocs_blank:
  assumes "0 < n" and "is_int32 n" and "ds \<noteq> []"
  shows "HashDocs lib ds (blank_keys ds) n =
    Some [(home lib n '''', \<lparr>dg_partition_id = home lib n '''', dg_pb_doc_infos = map (Pair '''') ds\<rparr>)]"
proof -
  have len: "length (blank_keys ds) = length ds" by (simp add: blank_keys_def)
  from HashDocs_result [OF assms(1,2) len] obtain grps where g: "HashDocs lib ds (blank_keys ds) n = Some grps" "std_map_ok grps"
    "\<And>i. map_of grps i = (let infos = docs_at lib n (map (Pair '''') ds) i
       in if infos = [] then None else Some \<lparr>dg_partition_id = i, dg_pb_doc_infos = infos\<rparr>)"
    unfolding zip_blank_keys by blast
  have "map_of grps i = (if i = home lib n '''' then
      Some \<lparr>dg_partition_id = home lib n '''', dg_pb_doc_infos = map (Pair '''') ds\<rparr> else None)" for i
    using assms(3) by (simp add: g(3) docs_at_blank Let_def)
  from std_map_single [OF g(2) this] g(1) show ?thesis by simp
qed

lemma put_served:
  assumes "rt_ok lib rt" and "served lib (rt_manager rt) key = Some sc" and "serv_ok sc1" and "sc_space_key sc1 = sc_space_key sc"
  obtains sm where "put_conn key lib sc1 (rt_manager rt) = Some sm" and "sm_ok lib sm"
    and "served lib sm = (served lib (rt_manager rt))(key \<mapsto> sc1)"
proof -
  have ok: "sm_ok lib (rt_manager rt)" using assms(1) by (simp add: rt_ok_def)
  have "sc_space_key sc1 = key" using served_key [OF ok assms(2)] assms(4) by simp
  from put_conn_result [OF ok assms(2) this] that show thesis .
qed

lemma serv_ok_upserted:
  assumes "serv_ok sc" and "space_ok sc1" and "SpaceConnection_UpsertDocs pb net grps errs sc w = Some (errs', sc1, w')"
  shows "serv_ok sc1" and "sc_space_key sc1 = sc_space_key sc"
  using assms SpaceConnection_UpsertDocs_fields [OF assms(3)] by (simp_all add: serv_ok_def PartitionNum_def)

lemma Router_Upsert_result:
  fixes rt :: "'w router"
  defines "key req \<equiv> GenSpaceKey (uq_db_name req) (uq_space_name req)"
  assumes "rt_ok lib rt" and "1 < length (key req)" and "served lib (rt_manager rt) (key req) = Some sc"
    and "check_docs (sc_pb_space sc) (uq_documents req) = ''''"
  obtains grps errs sc1 w sm resp' where
    "HashDocs lib (uq_documents req) (blank_keys (uq_documents req)) (PartitionNum sc) = Some grps"
    and "SpaceConnection_UpsertDocs (rl_protobuf lib) (rl_net lib) grps [] sc (rt_world rt) = Some (errs, sc1, w)"
    and "Router_Upsert lib req resp rt = Some (replied resp', rt\<lparr>rt_manager := sm, rt_world := w\<rparr>)"
    and "up_code resp' = (if uq_documents req = [] then 0 else 103)"
    and "sm_ok lib sm" and "serv_ok sc1" and "served lib sm = (served lib (rt_manager rt))(key req \<mapsto> sc1)"
proof -
  have sc: "serv_ok sc" "space_ok sc" "0 < PartitionNum sc" using assms(2,4) by (auto simp: rt_ok_def serv_ok_def)
  let ?ds = "uq_documents req"
  have find: "GetSpaceConn lib (key req) '''' (rt_manager rt) = Some (Some sc, '''')"
    using find_served [OF _ assms(3), of lib rt] assms(2,4) by (simp add: rt_ok_def)
  obtain grps where g: "HashDocs lib ?ds (blank_keys ?ds) (PartitionNum sc) = Some grps" "\<forall>(i, grp) \<in> set grps. in_range sc i"
  proof (cases "?ds = []")
    case True
    then have "HashDocs lib ?ds (blank_keys ?ds) (PartitionNum sc) = Some []" by (simp add: HashDocs_def blank_keys_def)
    with that show thesis by simp
  next
    case False
    with HashDocs_blank [OF sc(3) PartitionNum_int32, of ?ds lib] home_in_range [OF sc(1), of lib] that show thesis by simp
  qed
  from SpaceConnection_UpsertDocs_result [OF sc(2) g(2), of "rl_protobuf lib" "rl_net lib" "[]" "rt_world rt"]
  obtain errs sc1 w where u: "SpaceConnection_UpsertDocs (rl_protobuf lib) (rl_net lib) grps [] sc (rt_world rt) = Some (errs, sc1, w)" "space_ok sc1"
    by blast
  note sc1 = serv_ok_upserted [OF sc(1) u(2,1)]
  obtain sm where sm: "put_conn (key req) lib sc1 (rt_manager rt) = Some sm" "sm_ok lib sm"
    "served lib sm = (served lib (rt_manager rt))(key req \<mapsto> sc1)"
    by (rule put_served [OF assms(2,4) sc1])
  let ?resp = "resp\<lparr>up_failed_docs := up_failed_docs resp @ failed_keys errs (blank_keys ?ds)\<rparr>"
  let ?resp' = "if ?ds = [] then ?resp\<lparr>up_code := 0\<rparr> else ?resp\<lparr>up_code := 103, up_msg := ''upsert exist fail, failed id:''\<rparr>"
  have "Router_Upsert lib req resp rt = Some (replied ?resp', rt\<lparr>rt_manager := sm, rt_world := w\<rparr>)"
    using find g(1) u(1) sm(1) assms(5) by (simp add: Router_Upsert_def Let_def key_def blank_keys_def)
  with g(1) u(1) sm(2,3) sc1(1) show thesis by (intro that) (assumption, assumption, assumption, simp_all)
qed

text \<open>Writing documents that fit a space it serves, the router sends them all to the same partition under the
  empty key, because the keys it groups by are never filled, and answers code 103 whatever the
  partition answered.\<close>

lemma Router_Upsert_blank:
  fixes rt :: "'w router"
  assumes "rt_ok lib rt" and "1 < length (GenSpaceKey (uq_db_name req) (uq_space_name req))"
    and "served lib (rt_manager rt) (GenSpaceKey (uq_db_name req) (uq_space_name req)) = Some sc"
    and "check_docs (sc_pb_space sc) (uq_documents req) = ''''" and "uq_documents req \<noteq> []"
  shows "\<exists>errs sc1 w sm resp'.
    SpaceConnection_UpsertDocs (rl_protobuf lib) (rl_net lib)
      [(home lib (PartitionNum sc) '''', \<lparr>dg_partition_id = home lib (PartitionNum sc) '''', dg_pb_doc_infos = map (Pair '''') (uq_documents req)\<rparr>)]
      [] sc (rt_world rt) = Some (errs, sc1, w) \<and>
    Router_Upsert lib req resp rt = Some (replied resp', rt\<lparr>rt_manager := sm, rt_world := w\<rparr>) \<and> up_code resp' = 103"
proof -
  have n: "0 < PartitionNum sc" using assms(1,3) by (auto simp: rt_ok_def serv_ok_def)
  show ?thesis
    by (rule Router_Upsert_result [OF assms(1-4), of resp])
      (use HashDocs_blank [OF n PartitionNum_int32 assms(5), of lib] assms(5) in \<open>auto\<close>)
qed

subsection \<open>Deleting documents\<close>

lemma SpaceConnection_DeleteDocs_empty:
  "space_ok sc \<Longrightarrow> \<forall>(i, keys) \<in> set grps. in_range sc i \<Longrightarrow> SpaceConnection_DeleteDocs grps errs sc = Some errs"
proof (induction grps arbitrary: errs)
  case Nil
  then show ?case by simp
next
  case (Cons g grps)
  obtain idx keys where g: "g = (idx, keys)" by fastforce
  obtain cn where "partition_at sc idx = Some cn"
    by (rule partition_at_ok [OF Cons.prems(1), of idx]) (use Cons.prems(2) g in auto)
  with Cons g show ?case by (simp add: PartitionConnetion_DeleteDocs_def)
qed

lemma Router_Delete_result:
  fixes rt :: "'w router"
  defines "key req \<equiv> GenSpaceKey (dq_db_name req) (dq_space_name req)"
  assumes "rt_ok lib rt" and "1 < length (key req)" and "served lib (rt_manager rt) (key req) = Some sc"
    and "CheckPbIds (dq_ids req) (sc_pb_space sc) = ''''"
  shows "Router_Delete lib req resp rt = Some (replied (resp\<lparr>dp_code := 0, dp_msg := ''''\<rparr>), rt)"
proof -
  have sc: "serv_ok sc" "space_ok sc" using assms(2,4) by (auto simp: rt_ok_def serv_ok_def)
  have find: "GetSpaceConn lib (key req) '''' (rt_manager rt) = Some (Some sc, '''')"
    using find_served [OF _ assms(3), of lib rt] assms(2,4) by (simp add: rt_ok_def)
  have none: "failed_keys [] ids = []" for ids by (induction ids) (simp_all add: failed_keys_def)
  obtain grps where g: "HashKeys lib (dq_ids req) (PartitionNum sc) = Some grps" "\<forall>(i, keys) \<in> set grps. in_range sc i"
    by (rule HashKeys_usable [OF sc(1)])
  from SpaceConnection_DeleteDocs_empty [OF sc(2) g(2), of "[]"] g(1) find assms(5) none show ?thesis
    by (simp add: Router_Delete_def Let_def key_def)
qed

text \<open>Deleting ids that fit a space it serves, the router answers that all were deleted, without having asked
  any partition: neither the manager nor the network changed.\<close>

lemma Router_Delete_nothing:
  fixes rt :: "'w router"
  assumes "rt_ok lib rt" and "1 < length (GenSpaceKey (dq_db_name req) (dq_space_name req))"
    and "served lib (rt_manager rt) (GenSpaceKey (dq_db_name req) (dq_space_name req)) = Some sc"
    and "CheckPbIds (dq_ids req) (sc_pb_space sc) = ''''"
  shows "Router_Delete lib req resp rt = Some (replied (resp\<lparr>dp_code := 0, dp_msg := ''''\<rparr>), rt)"
  by (rule Router_Delete_result [OF assms])


subsection \<open>Runs of the router\<close>

datatype request =
  Add_space pb_space | Drop_space delete_space_request | Read_docs get_request | Write_docs upsert_request | Remove_docs delete_request

fun handle :: "'w router_lib \<Rightarrow> request \<Rightarrow> 'w router \<Rightarrow> 'w router ub" where
  "handle lib (Add_space space) rt = map_option snd (Router_AddSpace lib space rt)"
| "handle lib (Drop_space req) rt = map_option snd (Router_DeleteSpace lib req rt)"
| "handle lib (Read_docs req) rt = map_option snd (Router_Get lib req empty_get_response rt)"
| "handle lib (Write_docs req) rt =
     map_option snd (Router_Upsert lib req \<lparr>up_code = 0, up_msg = '''', up_failed_docs = []\<rparr> rt)"
| "handle lib (Remove_docs req) rt =
     map_option snd (Router_Delete lib req \<lparr>dp_code = 0, dp_msg = '''', dp_failed_docs = []\<rparr> rt)"

fun request_ok :: "request \<Rightarrow> bool" where
  "request_ok (Add_space space) = servable space"
| "request_ok _ = True"

inductive router_run :: "'w router_lib \<Rightarrow> 'w router \<Rightarrow> 'w router \<Rightarrow> bool" for lib and rt where
  router_start: "router_run lib rt rt"
| router_step: "router_run lib rt rt1 \<Longrightarrow> request_ok req \<Longrightarrow> handle lib req rt1 = Some rt2 \<Longrightarrow> router_run lib rt rt2"

lemma rt_ok_update:
  assumes "rt_ok lib rt" and "sm_ok lib sm" and "served lib sm = (served lib (rt_manager rt))(k := c)"
    and "\<And>sc. c = Some sc \<Longrightarrow> serv_ok sc" and "rt_manager rt' = sm"
  shows "rt_ok lib rt'"
  using assms by (auto simp: rt_ok_def)

lemma Add_safe:
  fixes rt :: "'w router"
  assumes "rt_ok lib rt" and "servable space"
  shows "\<exists>rt'. handle lib (Add_space space) rt = Some rt' \<and> rt_ok lib rt'"
proof -
  have wf: "list_all partition_wf (sp_partitions space)" using assms(2) by (simp add: servable_def)
  obtain m0 conn w where init: "SpaceConnection_Init (rl_net lib) space new_space_connection (rt_world rt) = Some (m0, conn, w)"
    and conn: "space_ok conn" "sc_pb_space conn = space" "sc_space_key conn = GenSpaceKey (sp_db_name space) (sp_space_name space)"
      "length (sc_partition_list conn) = length (sp_partitions space)"
    by (rule SpaceConnection_Init_ok [OF wf])
  have serv: "serv_ok conn" using conn assms(2) by (simp add: serv_ok_def servable_def key_of_def PartitionNum_def)
  have ok: "sm_ok lib (rt_manager rt)" using assms(1) by (simp add: rt_ok_def)
  obtain m rt' where add: "SpaceManager_AddSpace lib space rt = Some (m, rt')" "sm_ok lib (rt_manager rt')"
    and srv: "served lib (rt_manager rt') =
      (if m = '''' \<and> accepts lib (rt_manager rt) (sc_space_key conn)
       then (served lib (rt_manager rt))(sc_space_key conn \<mapsto> conn) else served lib (rt_manager rt))"
    by (rule SpaceManager_AddSpace_result [OF ok init])
  have "rt_ok lib rt'"
    unfolding rt_ok_def
  proof (intro conjI allI impI add(2))
    fix k c assume "served lib (rt_manager rt') k = Some c"
    then have "served lib (rt_manager rt) k = Some c \<or> c = conn" unfolding srv by (auto split: if_splits)
    with assms(1) serv show "serv_ok c" by (auto simp: rt_ok_def)
  qed
  with add(1) show ?thesis by (simp add: Router_AddSpace_def)
qed

lemma Drop_safe:
  fixes rt :: "'w router"
  assumes "rt_ok lib rt"
  shows "\<exists>rt'. handle lib (Drop_space req) rt = Some rt' \<and> rt_ok lib rt'"
proof -
  let ?key = "GenSpaceKey (str_or (dsq_db_name req)) (str_or (dsq_space_name req))"
  have ok: "sm_ok lib (rt_manager rt)" using assms by (simp add: rt_ok_def)
  obtain m sm where del: "SpaceManager_DeleteSpace lib ?key (rt_manager rt) = Some (m, sm)" "sm_ok lib sm"
    "served lib sm = (served lib (rt_manager rt))(?key := None)"
    by (rule SpaceManager_DeleteSpace_result [OF ok])
  let ?rt = "(save_local lib (snd (LocalSpaces_DeleteSpace (str_or (dsq_db_name req)) (str_or (dsq_space_name req)) (rt_local rt))) rt)
    \<lparr>rt_manager := sm\<rparr>"
  have "handle lib (Drop_space req) rt = Some ?rt"
    using del(1) by (simp add: Router_DeleteSpace_def Let_def save_local_def)
  moreover have "rt_ok lib ?rt" by (rule rt_ok_update [OF assms del(2,3)]) simp_all
  ultimately show ?thesis by blast
qed

lemma rt_ok_world: "rt_ok lib (rt\<lparr>rt_world := w\<rparr>) = rt_ok lib rt"
  by (simp add: rt_ok_def)

text \<open>The requests on documents: the space is looked up first, and every outcome of that is safe.\<close>

lemma no_space:
  assumes "rt_ok lib rt"
  obtains (gone) m where "GetSpaceConn lib key '''' (rt_manager rt) = Some (None, m)"
  | (found) sc where "GetSpaceConn lib key '''' (rt_manager rt) = Some (Some sc, '''')" and "1 < length key"
      and "served lib (rt_manager rt) key = Some sc"
proof (cases "1 < length key")
  case True
  show thesis
    using find_served [OF _ True, of lib rt] assms gone found [OF _ True] by (cases "served lib (rt_manager rt) key") (auto simp: rt_ok_def)
next
  case False
  then show thesis using GetSpaceConn_result [of lib "rt_manager rt" key "''''"] assms gone by (simp add: rt_ok_def)
qed

lemma Read_safe:
  fixes rt :: "'w router"
  assumes "rand_spec (rl_net lib)" and "rt_ok lib rt"
  shows "\<exists>rt'. handle lib (Read_docs req) rt = Some rt' \<and> rt_ok lib rt'"
  using assms(2)
proof (cases rule: no_space [where key = "GenSpaceKey (gq_db_name req) (gq_space_name req)"])
  case (gone m)
  with assms(2) show ?thesis by (auto simp: Router_Get_def)
next
  case (found sc)
  show ?thesis
  proof (cases "CheckPbIds (gq_ids req) (sc_pb_space sc) = ''''")
    case True
    show ?thesis
      by (rule Router_Get_result [OF assms found(2,3) True]) (use assms(2) in \<open>simp add: rt_ok_world\<close>)
  next
    case False
    with found(1) assms(2) show ?thesis by (simp add: Router_Get_def Let_def)
  qed
qed

lemma Write_safe:
  fixes rt :: "'w router"
  assumes "rt_ok lib rt"
  shows "\<exists>rt'. handle lib (Write_docs req) rt = Some rt' \<and> rt_ok lib rt'"
  using assms
proof (cases rule: no_space [where key = "GenSpaceKey (uq_db_name req) (uq_space_name req)"])
  case (gone m)
  with assms show ?thesis by (auto simp: Router_Upsert_def)
next
  case (found sc)
  show ?thesis
  proof (cases "check_docs (sc_pb_space sc) (uq_documents req) = ''''")
    case True
    obtain sc1 w sm resp' where
      r: "Router_Upsert lib req \<lparr>up_code = 0, up_msg = '''', up_failed_docs = []\<rparr> rt = Some (replied resp', rt\<lparr>rt_manager := sm, rt_world := w\<rparr>)"
      and sm: "sm_ok lib sm" "served lib sm = (served lib (rt_manager rt))(GenSpaceKey (uq_db_name req) (uq_space_name req) \<mapsto> sc1)"
      and sc1: "serv_ok sc1"
      by (rule Router_Upsert_result [OF assms found(2,3) True])
    have "rt_ok lib (rt\<lparr>rt_manager := sm, rt_world := w\<rparr>)" by (rule rt_ok_update [OF assms sm]) (simp_all add: sc1)
    with r show ?thesis by simp
  next
    case False
    with found(1) assms show ?thesis by (simp add: Router_Upsert_def Let_def)
  qed
qed

lemma Remove_safe:
  fixes rt :: "'w router"
  assumes "rt_ok lib rt"
  shows "\<exists>rt'. handle lib (Remove_docs req) rt = Some rt' \<and> rt_ok lib rt'"
  using assms
proof (cases rule: no_space [where key = "GenSpaceKey (dq_db_name req) (dq_space_name req)"])
  case (gone m)
  with assms show ?thesis by (auto simp: Router_Delete_def)
next
  case (found sc)
  show ?thesis
  proof (cases "CheckPbIds (dq_ids req) (sc_pb_space sc) = ''''")
    case True
    from Router_Delete_result [OF assms found(2,3) True] assms show ?thesis by simp
  next
    case False
    with found(1) assms show ?thesis by (simp add: Router_Delete_def Let_def)
  qed
qed

lemma handle_safe:
  assumes "rand_spec (rl_net lib)" and "rt_ok lib rt" and "request_ok req"
  shows "\<exists>rt'. handle lib req rt = Some rt' \<and> rt_ok lib rt'"
  using Add_safe [OF assms(2)] Drop_safe [OF assms(2)] Read_safe [OF assms(1,2)] Write_safe [OF assms(2)] Remove_safe [OF assms(2)] assms(3)
  by (cases req) (simp_all del: handle.simps)



subsection \<open>A concrete run\<close>

definition demo_room :: "string router" where
  "demo_room = demo_router\<lparr>rt_manager := new_space_manager\<lparr>sm_capacity := 10\<rparr>\<rparr>"

lemma demo_room_ok: "rt_ok demo_router_lib demo_room" and demo_room_empty: "served demo_router_lib (rt_manager demo_room) = Map.empty"
  using new_space_manager_ok [of demo_router_lib] new_space_manager_serves [of demo_router_lib]
  by (simp_all add: rt_ok_def demo_room_def sm_ok_def served_def new_space_manager_def)

lemma demo_servable: "servable demo_space"
  using demo_space_wf by (simp add: servable_def demo_space_def empty_space_def int32_of_id is_int32_def)

lemma demo_rand: "rand_spec (rl_net demo_router_lib)"
  by (simp add: demo_router_lib_def demo_net_rand)

lemma demo_serving:
  obtains rt sc where "handle demo_router_lib (Add_space demo_space) demo_room = Some rt" and "rt_ok demo_router_lib rt"
    and "served demo_router_lib (rt_manager rt) ''db-sp'' = Some sc" and "sc_pb_space sc = demo_space"
proof -
  let ?lib = demo_router_lib
  obtain m0 conn w where init: "SpaceConnection_Init (rl_net ?lib) demo_space new_space_connection (rt_world demo_room) = Some (m0, conn, w)"
    and conn: "sc_pb_space conn = demo_space" "sc_space_key conn = GenSpaceKey (sp_db_name demo_space) (sp_space_name demo_space)"
    by (rule SpaceConnection_Init_ok [OF demo_space_wf])
  have key: "sc_space_key conn = ''db-sp''" using conn(2) by (simp add: demo_space_def GenSpaceKey_def)
  have ok: "sm_ok ?lib (rt_manager demo_room)" using demo_room_ok by (simp add: rt_ok_def)
  have slot: "has_slot (rt_manager demo_room)" "accepts ?lib (rt_manager demo_room) k" for k
    using demo_room_empty by (simp_all add: has_slot_def demo_room_def new_space_manager_def accepts_def)
  obtain m rt where add: "SpaceManager_AddSpace ?lib demo_space demo_room = Some (m, rt)"
    and m: "m = '''' \<longleftrightarrow> served ?lib (rt_manager demo_room) (sc_space_key conn) = None \<and> has_slot (rt_manager demo_room)"
    and srv: "served ?lib (rt_manager rt) = (if m = '''' \<and> accepts ?lib (rt_manager demo_room) (sc_space_key conn)
        then (served ?lib (rt_manager demo_room))(sc_space_key conn \<mapsto> conn) else served ?lib (rt_manager demo_room))"
    by (rule SpaceManager_AddSpace_result [OF ok init])
  have "served ?lib (rt_manager rt) ''db-sp'' = Some conn" using m srv slot demo_room_empty key by simp
  moreover have "handle ?lib (Add_space demo_space) demo_room = Some rt" using add by (simp add: Router_AddSpace_def)
  moreover have "rt_ok ?lib rt" using Add_safe [OF demo_room_ok demo_servable] calculation(2) by (simp del: handle.simps)
  ultimately show thesis using that conn(1) by blast
qed

definition demo_get :: get_request where
  "demo_get = \<lparr>gq_db_name = ''db'', gq_space_name = ''sp'', gq_ids = [''1'', ''22'']\<rparr>"

lemma demo_ids: "CheckPbIds [''1'', ''22''] demo_space = ''''"
  by code_simp

theorem Router_Get_answers_witness:
  "\<exists>rt resp' w found. handle demo_router_lib (Add_space demo_space) demo_room = Some rt \<and>
     Router_Get demo_router_lib demo_get empty_get_response rt = Some (replied resp', rt\<lparr>rt_world := w\<rparr>) \<and>
     map ds_id (gp_failed_docs resp') = filter (\<lambda>k. \<not> found k) [''1'', ''22'']"
proof -
  obtain rt sc where rt: "handle demo_router_lib (Add_space demo_space) demo_room = Some rt" "rt_ok demo_router_lib rt"
    "served demo_router_lib (rt_manager rt) ''db-sp'' = Some sc" "sc_pb_space sc = demo_space"
    by (rule demo_serving)
  have get: "GenSpaceKey (gq_db_name demo_get) (gq_space_name demo_get) = ''db-sp''" "gq_ids demo_get = [''1'', ''22'']"
    by (simp_all add: demo_get_def GenSpaceKey_def)
  have "1 < length ''db-sp''" "CheckPbIds [''1'', ''22''] (sc_pb_space sc) = ''''" using rt(4) demo_ids by simp_all
  with Router_Get_answers [OF demo_rand rt(2), of demo_get sc, unfolded get] rt(1,3) show ?thesis by blast
qed

theorem Router_refuses_witness:
  "\<exists>m. m \<noteq> '''' \<and>
     Router_Get demo_router_lib \<lparr>gq_db_name = ''db'', gq_space_name = ''sp'', gq_ids = [''1'']\<rparr> empty_get_response demo_room =
       Some (replied (get_fail [''1''] 101 m empty_get_response), demo_room)"
  using Router_refuses [of demo_router_lib demo_room "''db''" "''sp''" "[''1'']" empty_get_response "[]"
      "\<lparr>up_code = 0, up_msg = '''', up_failed_docs = []\<rparr>" "\<lparr>dp_code = 0, dp_msg = '''', dp_failed_docs = []\<rparr>"]
    demo_room_ok demo_room_empty
  by (auto simp: rt_ok_def GenSpaceKey_def)

lemma Router_Delete_nothing_witness:
  "\<exists>rt. handle demo_router_lib (Add_space demo_space) demo_room = Some rt \<and>
     Router_Delete demo_router_lib \<lparr>dq_db_name = ''db'', dq_space_name = ''sp'', dq_ids = [''1'', ''22'']\<rparr>
       \<lparr>dp_code = 5, dp_msg = ''x'', dp_failed_docs = []\<rparr> rt = Some (replied \<lparr>dp_code = 0, dp_msg = '''', dp_failed_docs = []\<rparr>, rt)"
proof -
  obtain rt sc where rt: "handle demo_router_lib (Add_space demo_space) demo_room = Some rt" "rt_ok demo_router_lib rt"
    "served demo_router_lib (rt_manager rt) ''db-sp'' = Some sc" "sc_pb_space sc = demo_space"
    by (rule demo_serving)
  from Router_Delete_nothing [OF rt(2), of "\<lparr>dq_db_name = ''db'', dq_space_name = ''sp'', dq_ids = [''1'', ''22'']\<rparr>" sc
      "\<lparr>dp_code = 5, dp_msg = ''x'', dp_failed_docs = []\<rparr>"] rt(1,3,4) demo_ids
  show ?thesis by (intro exI [of _ rt]) (simp add: GenSpaceKey_def del: handle.simps)
qed

definition demo_upsert :: upsert_request where
  "demo_upsert = \<lparr>uq_db_name = ''db'', uq_space_name = ''sp'', uq_documents = [empty_document\<lparr>doc_id := Some ''1'', doc_longs := [(ID_FIELD, 1)]\<rparr>]\<rparr>"

lemma demo_docs_fit: "check_docs demo_space (uq_documents demo_upsert) = ''''"
  by code_simp

lemma Router_Upsert_blank_witness:
  "\<exists>rt sm w resp'. handle demo_router_lib (Add_space demo_space) demo_room = Some rt \<and>
     Router_Upsert demo_router_lib demo_upsert \<lparr>up_code = 0, up_msg = '''', up_failed_docs = []\<rparr> rt =
       Some (replied resp', rt\<lparr>rt_manager := sm, rt_world := w\<rparr>) \<and> up_code resp' = 103"
proof -
  obtain rt sc where rt: "handle demo_router_lib (Add_space demo_space) demo_room = Some rt" "rt_ok demo_router_lib rt"
    "served demo_router_lib (rt_manager rt) ''db-sp'' = Some sc" "sc_pb_space sc = demo_space"
    by (rule demo_serving)
  have "GenSpaceKey (uq_db_name demo_upsert) (uq_space_name demo_upsert) = ''db-sp''" "uq_documents demo_upsert \<noteq> []"
    by (simp_all add: demo_upsert_def GenSpaceKey_def)
  with Router_Upsert_blank [OF rt(2), of demo_upsert sc "\<lparr>up_code = 0, up_msg = '''', up_failed_docs = []\<rparr>"] rt(1,3,4) demo_docs_fit
  show ?thesis by (auto simp del: handle.simps)
qed


end
