(* ===== verification/Server_Lib.thy ===== *)
theory Server_Lib
  imports Rpc_Clients Config
begin

text \<open>
  What the two server processes use of brpc: a server to which services are added before it is
  started, and the wait for the signal to quit. The wait asks \<open>IsAskedToQuit\<close> once a second
  and may never end: it is a partial function, and \<open>None\<close> is the wait that does not return.
\<close>

record 'w server_lib =
  add_service :: "string \<Rightarrow> string \<Rightarrow> 'w \<Rightarrow> int \<times> 'w"
  add_raft_service :: "int \<Rightarrow> 'w \<Rightarrow> int \<times> 'w"
  server_start :: "int \<Rightarrow> 'w \<Rightarrow> int \<times> 'w"
  server_stop :: "'w \<Rightarrow> 'w"
  server_join :: "'w \<Rightarrow> 'w"

text \<open>What the two \<open>main\<close> functions take from outside, and their command line flags.\<close>

record ('v, 'w) process_lib =
  pl_toml :: "'v toml_lib"
  pl_butil :: butil
  pl_ifaddrs :: "interface list option"
  pl_server :: "'w server_lib"
  pl_thread_started :: bool

record flags =
  fl_ip :: string
  fl_port :: string
  fl_conf :: string

partial_function (option) wait_quit :: "'w network \<Rightarrow> 'w \<Rightarrow> 'w option" where
  "wait_quit net w = (if IsAskedToQuit net w then Some w else wait_quit net (sleep net 1 w))"

text \<open>The world after \<open>n\<close> seconds of waiting.\<close>

definition after_wait :: "'w network \<Rightarrow> nat \<Rightarrow> 'w \<Rightarrow> 'w" where
  "after_wait net n = (sleep net 1 ^^ n)"

lemma after_wait_simps [simp]: "after_wait net 0 w = w" "after_wait net (Suc n) w = after_wait net n (sleep net 1 w)"
  by (simp_all add: after_wait_def funpow_swap1)

definition first_quit :: "'w network \<Rightarrow> 'w \<Rightarrow> nat \<Rightarrow> bool" where
  "first_quit net w n \<longleftrightarrow> IsAskedToQuit net (after_wait net n w) \<and> (\<forall>m < n. \<not> IsAskedToQuit net (after_wait net m w))"

lemma wait_quit_first: "first_quit net w n \<Longrightarrow> wait_quit net w = Some (after_wait net n w)"
proof (induction n arbitrary: w)
  case 0
  then show ?case by (simp add: first_quit_def wait_quit.simps)
next
  case (Suc n)
  then have "\<not> IsAskedToQuit net w" by (auto simp: first_quit_def)
  moreover have "first_quit net (sleep net 1 w) n"
    using Suc.prems unfolding first_quit_def by (metis Suc_less_eq after_wait_simps(2))
  ultimately show ?case using Suc.IH by (simp add: wait_quit.simps [of net w])
qed

lemma wait_quit_result: "wait_quit (net :: 'w network) w = Some w' \<Longrightarrow> \<exists>n. w' = after_wait net n w \<and> IsAskedToQuit net w'"
proof (erule wait_quit.raw_induct [of "\<lambda>net w w'. \<exists>n. w' = after_wait net n w \<and> IsAskedToQuit net w'", rotated])
  fix wait :: "'w network \<Rightarrow> 'w \<Rightarrow> 'w option" and net :: "'w network" and w w'
  assume IH: "\<And>net w w'. wait net w = Some w' \<Longrightarrow> \<exists>n. w' = after_wait net n w \<and> IsAskedToQuit net w'"
    and run: "(if IsAskedToQuit net w then Some w else wait net (sleep net 1 w)) = Some w'"
  show "\<exists>n. w' = after_wait net n w \<and> IsAskedToQuit net w'"
  proof (cases "IsAskedToQuit net w")
    case True
    with run show ?thesis by (intro exI [of _ 0]) simp
  next
    case False
    with run IH obtain n where "w' = after_wait net n (sleep net 1 w)" "IsAskedToQuit net w'" by (metis (full_types))
    then show ?thesis by (intro exI [of _ "Suc n"]) simp
  qed
qed

text \<open>The wait returns exactly when the process is asked to quit at some time.\<close>

lemma wait_quit_returns_iff: "wait_quit net w \<noteq> None \<longleftrightarrow> (\<exists>n. IsAskedToQuit net (after_wait net n w))"
proof
  assume "\<exists>n. IsAskedToQuit net (after_wait net n w)"
  then have "\<exists>n. first_quit net w n"
    unfolding first_quit_def using exists_least_iff [of "\<lambda>n. IsAskedToQuit net (after_wait net n w)"] by blast
  then show "wait_quit net w \<noteq> None" using wait_quit_first by fastforce
qed (use wait_quit_result [of net w] in blast)

end
