(* ===== verification/Router_Server.thy ===== *)
theory Router_Server
  imports Router_Rpc Server_Lib Config
begin

text \<open>
  The router process: its registration with etcd (\<open>service/router/router_register.cc\<close>), its brpc
  server (\<open>service/router/router_server.cc\<close>) and \<open>main\<close> (\<open>service/router_main.cc\<close>). While \<open>main\<close> waits
  for the signal to quit, the requests are those of theory \<open>Router_Rpc\<close>; setting up the log is left out.
\<close>

subsection \<open>Registration\<close>

record router_register =
  rg_etcd_cli :: etcd_client
  rg_ip :: string
  rg_port :: int
  rg_node_K :: string
  rg_node_V :: string

definition new_router_register :: router_register where
  "new_router_register = \<lparr>rg_etcd_cli = new_etcd_client, rg_ip = '''', rg_port = 0, rg_node_K = '''', rg_node_V = ''''\<rparr>"

definition RouterRegister_Init :: "'w network \<Rightarrow> toml_config \<Rightarrow> string \<Rightarrow> int \<Rightarrow> router_register \<Rightarrow> 'w
    \<Rightarrow> int \<times> router_register \<times> 'w" where
  "RouterRegister_Init net toml ip port rg w =
     (let rg1 = rg\<lparr>rg_ip := ip, rg_port := port, rg_node_V := to_string port, rg_node_K := GenRouterNodeKey ip port\<rparr>;
          (ok, ec, w1) = EtcdClient_Init net (GetMasterIpPorts toml) ''rr'' (rg_etcd_cli rg1) w
      in (if \<not> ok then - 1 else 0, rg1\<lparr>rg_etcd_cli := ec\<rparr>, w1))"

definition RouterRegister_LaunchRegister :: "bool \<Rightarrow> toml_config \<Rightarrow> router_register \<Rightarrow> keep_alive_args option \<times> router_register" where
  "RouterRegister_LaunchRegister started toml rg =
     (let (_, args, ec) = RegisterNodeWithKeepAlive started (rg_node_K rg) (rg_node_V rg) (rc_hearbeat_interval_s (tc_router toml)) (rg_etcd_cli rg)
      in (args, rg\<lparr>rg_etcd_cli := ec\<rparr>))"

subsection \<open>The brpc server\<close>

definition space_mappings :: string where
  "space_mappings = ''/space/add_space => AddSpace, '' @ ''/space/list => SpaceList, '' @ ''/space/delete_space => DeleteSpace, ''"

definition doc_mappings :: string where
  "doc_mappings = ''/document/get => Get, '' @ ''/document/search => Search, '' @ ''/document/upsert => Upsert, '' @
     ''/document/delete => Delete, '' @ ''/document/mock/upsert => MockUpsert, '' @ ''/document/mock/get => MockGet, ''"

text \<open>The result is a \<open>bool\<close>: the \<open>-1\<close> of a failure becomes \<open>true\<close> and the \<open>0\<close> of a success \<open>false\<close>.\<close>

definition RouterServer_Start :: "'w server_lib \<Rightarrow> int \<Rightarrow> 'w \<Rightarrow> bool \<times> 'w" where
  "RouterServer_Start sv port w =
     (let (r, w1) = add_service sv ''RouterSpaceRpcImpl'' space_mappings w
      in if r \<noteq> 0 then (True, w1)
         else let (r, w2) = add_service sv ''RouterDocRpcImpl'' doc_mappings w1
              in if r \<noteq> 0 then (True, w2)
                 else let (r, w3) = server_start sv port w2
                      in if r \<noteq> 0 then (True, w3) else (False, w3))"

definition RouterServer_WaitBrpcStop :: "'w network \<Rightarrow> 'w server_lib \<Rightarrow> 'w \<Rightarrow> 'w ub" where
  "RouterServer_WaitBrpcStop net sv w = do {
     w1 \<leftarrow> wait_quit net w;
     Some (server_join sv (server_stop sv w1))
   }"

subsection \<open>The process\<close>

definition router_main :: "('v, 'w) process_lib \<Rightarrow> 'w router_lib \<Rightarrow> flags \<Rightarrow> conf \<Rightarrow> 'w router
    \<Rightarrow> (int \<times> keep_alive_args option \<times> 'w router) ub" where
  "router_main pl lib fl cf0 rt = do {
     (_, cf, fs) \<leftarrow> InitConfig (pl_toml pl) (pl_butil pl) (pl_ifaddrs pl) (fl_ip fl) '''' (fl_port fl) (fl_conf fl) ''./logs'' cf0 (rt_fs rt);
     let port = rc_port (tc_router (cf_toml cf));
     let (_, ls, fs1) = LocalSpaces_Init (pl_butil pl) (cf_router_store_dir cf) ''local_spaces.json'' (rt_local rt) fs;
     let (_, rg, w1) = RouterRegister_Init (rl_net lib) (cf_toml cf) (cf_cur_IP cf) port new_router_register (rt_world rt);
     let (failed, w2) = RouterServer_Start (pl_server pl) port w1;
     let rt1 = rt\<lparr>rt_local := ls, rt_fs := fs1, rt_world := w2\<rparr>;
     if failed then Some (- 1, None, rt1)
     else do {
       (m, rt2) \<leftarrow> SpaceManager_Init lib 1000 (rg_etcd_cli rg) rt1;
       if m \<noteq> '''' then Some (- 1, None, rt2)
       else do {
         let (args, rg1) = RouterRegister_LaunchRegister (pl_thread_started pl) (cf_toml cf) rg;
         w3 \<leftarrow> RouterServer_WaitBrpcStop (rl_net lib) (pl_server pl) (rt_world rt2);
         Some (0, args, rt2\<lparr>rt_world := w3\<rparr>)
       }
     }
   }"

subsection \<open>Stopping\<close>

text \<open>The server stops when, and only when, the process is asked to quit at some time; otherwise the
  wait never ends.\<close>

lemma RouterServer_WaitBrpcStop_returns_iff:
  "(\<exists>w'. RouterServer_WaitBrpcStop net sv w = Some w') \<longleftrightarrow> (\<exists>n. IsAskedToQuit net (after_wait net n w))"
  using wait_quit_returns_iff [of net w] by (cases "wait_quit net w") (auto simp: RouterServer_WaitBrpcStop_def)

subsection \<open>Starting\<close>

lemma RouterRegister_Init_fields:
  assumes "RouterRegister_Init net toml ip port rg w = (r, rg', w')"
  shows "rg_node_K rg' = GenRouterNodeKey ip port" and "rg_node_V rg' = to_string port"
  using assms by (auto simp: RouterRegister_Init_def Let_def split: prod.splits)

text \<open>The result of registering is not looked at: when the channel to the only etcd server cannot be made,
  the client keeps a null channel, and reading the spaces from etcd dereferences it.\<close>

lemma RouterRegister_null_channel:
  assumes "rand_spec (rl_net lib)" and "GetMasterIpPorts toml = [master]" and "0 \<le> max_space_num"
    and "http_init (rl_net lib) (etcd_url master) ''rr'' w = (False, w1)"
    and "fst (rl_range_to lib range_of_spaces)"
    and "RouterRegister_Init (rl_net lib) toml ip port new_router_register w = (r, rg, w1)"
  shows "r = - 1 \<and> SpaceManager_Init lib max_space_num (rg_etcd_cli rg) rt = None"
proof -
  have chan: "ec_chan_list (rg_etcd_cli rg) = [None]" and r: "r = - 1"
    using assms(2,4,6) by (auto simp: RouterRegister_Init_def EtcdClient_Init_def new_router_register_def new_etcd_client_def Let_def)
  obtain v w2 where v: "random_int (rl_net lib) 1 1 (rt_world rt) = Some (v, w2)" "v = 1"
    using random_int_range [OF assms(1), of 1 1 "rt_world rt"] by auto
  obtain out where out: "rl_range_to lib range_of_spaces = (True, out)" using assms(5) by (cases "rl_range_to lib range_of_spaces") auto
  have "EtcdClient_Range (rl_net lib) (rl_range_to lib) (rl_range_from lib) range_of_spaces \<lparr>rr_kvs = []\<rparr> (rg_etcd_cli rg) (rt_world rt) = None"
    using v out by (simp add: EtcdClient_Range_def EtcdOp_def chan GetChannel_def at_ub_def)
  with r show ?thesis by (simp add: SpaceManager_Init_def Let_def)
qed

definition demo_router_conf :: toml_config where
  "demo_router_conf =
     \<lparr>tc_global = \<lparr>gc_name = ''s'', gc_data = [''d''], gc_level = '''', gc_signkey = '''', gc_skip_auth = True\<rparr>,
      tc_masters = [\<lparr>mc_name = ''m'', mc_address = ''h'', mc_api_port = 1, mc_etcd_port = 2, mc_etcd_peer_port = 3, mc_etcd_client_port = 4\<rparr>],
      tc_router = \<lparr>rc_port = 80, rc_skip_auth = True, rc_hearbeat_interval_s = 5\<rparr>,
      tc_ps = \<lparr>pc_rpc_port = 81, pc_raft_election_timeout_ms = 1, pc_raft_snap_interval_s = 1, pc_hearbeat_interval_s = 5\<rparr>,
      tc_master_urls = [''B'']\<rparr>"

definition demo_cut_lib :: "string router_lib" where
  "demo_cut_lib = demo_router_lib\<lparr>rl_net := demo_net\<lparr>http_init := (\<lambda>_ _ w. (False, w))\<rparr>\<rparr>"

lemma RouterRegister_null_channel_witness:
  "\<exists>rg. RouterRegister_Init (rl_net demo_cut_lib) demo_router_conf ''h'' 80 new_router_register ''A'' = (- 1, rg, ''A'') \<and>
     SpaceManager_Init demo_cut_lib 1000 (rg_etcd_cli rg) demo_router = None"
proof -
  have rand: "rand_spec (rl_net demo_cut_lib)" using demo_net_rand by (simp add: demo_cut_lib_def rand_spec_def)
  have ports: "GetMasterIpPorts demo_router_conf = [(''h'', 4)]" by (simp add: GetMasterIpPorts_def demo_router_conf_def)
  have cut: "http_init (rl_net demo_cut_lib) (etcd_url (''h'', 4)) ''rr'' ''A'' = (False, ''A'')" "fst (rl_range_to demo_cut_lib range_of_spaces)"
    by (simp_all add: demo_cut_lib_def demo_router_lib_def)
  obtain r rg where init: "RouterRegister_Init (rl_net demo_cut_lib) demo_router_conf ''h'' 80 new_router_register ''A'' = (r, rg, ''A'')"
    using ports cut(1) by (auto simp: RouterRegister_Init_def EtcdClient_Init_def Let_def)
  from RouterRegister_null_channel [OF rand ports _ cut init, of 1000 demo_router] init show ?thesis by auto
qed


end
