(* ===== verification/Local_Mata.thy ===== *)
theory Local_Mata
  imports Config Engine Common Local_Spaces
begin

text \<open>
  What a partition server keeps of itself on its disk: \<open>service/ps/local_mata.h\<close>,
  \<open>service/ps/local_mata.cc\<close> (the node, and the request that created its space) and
  \<open>service/ps/local_storager.h\<close>, \<open>service/ps/local_storager.cc\<close> (the id of the node, which the
  master hands out once). The JSON converters are the record \<open>mata_codec\<close>.
\<close>

subsection \<open>State\<close>

record mata_codec =
  mk_info_to :: "ps_node_info to_json"
  mk_info_from :: "ps_node_info from_json"
  mk_req_to :: "create_space_request to_json"
  mk_req_from :: "create_space_request from_json"

record node_mata =
  nm_dir_path :: string
  nm_node_info_file :: string
  nm_space_schema_file :: string
  nm_ps_node_info :: ps_node_info
  nm_space_req :: create_space_request
  nm_has_space :: bool

definition new_node_mata :: node_mata where
  "new_node_mata = \<lparr>nm_dir_path = '''', nm_node_info_file = '''', nm_space_schema_file = '''',
     nm_ps_node_info = empty_node_info, nm_space_req = empty_create_space_request, nm_has_space = False\<rparr>"

definition DbName :: "node_mata \<Rightarrow> string" where
  "DbName nm = sp_db_name (cs_space (nm_space_req nm))"

definition SpaceName :: "node_mata \<Rightarrow> string" where
  "SpaceName nm = sp_space_name (cs_space (nm_space_req nm))"

definition mata_SpaceKey :: "node_mata \<Rightarrow> string" where
  "mata_SpaceKey nm = GenSpaceKey (DbName nm) (SpaceName nm)"

subsection \<open>Loading\<close>

definition load_space :: "mata_codec \<Rightarrow> node_mata \<Rightarrow> file_system \<Rightarrow> bool \<times> node_mata" where
  "load_space co nm fs =
     (case ifstream_read (nm_space_schema_file nm) fs of
        None \<Rightarrow> (True, nm)
      | Some space_json \<Rightarrow>
          let (parsed, req) = mk_req_from co space_json (nm_space_req nm);
              nm1 = nm\<lparr>nm_space_req := req\<rparr>
          in if \<not> parsed then (False, nm1) else (True, nm1\<lparr>nm_has_space := True\<rparr>))"

definition NodeMata_Init :: "butil \<Rightarrow> mata_codec \<Rightarrow> string \<Rightarrow> node_mata \<Rightarrow> file_system \<Rightarrow> bool \<times> node_mata \<times> file_system" where
  "NodeMata_Init bu co dir_path nm fs =
     (let nm1 = nm\<lparr>nm_dir_path := dir_path, nm_node_info_file := dir_path @ ''/node_info.json'',
                   nm_space_schema_file := dir_path @ ''/create_space_req.json''\<rparr>
      in if \<not> PathExists bu dir_path fs then
           (let (created, fs1) = CreateDirectory bu dir_path fs
            in if \<not> created then (True, nm1, fs1) else (True, nm1, fs1))
         else case ifstream_read (nm_node_info_file nm1) fs of
           None \<Rightarrow> (True, nm1, fs)
         | Some json_content \<Rightarrow>
             let (parsed, info) = mk_info_from co json_content (nm_ps_node_info nm1);
                 nm2 = nm1\<lparr>nm_ps_node_info := info\<rparr>
             in if \<not> parsed then (False, nm2, fs)
                else let (ok, nm3) = load_space co nm2 fs in (ok, nm3, fs))"

definition IsLoadFromFile :: "node_mata \<Rightarrow> bool" where
  "IsLoadFromFile nm \<longleftrightarrow> ni_ps_id (nm_ps_node_info nm) > 0 \<and> length (ni_ps_ip (nm_ps_node_info nm)) > 0"

subsection \<open>Dumping and changing\<close>

definition DumpCreateSpaceReq :: "mata_codec \<Rightarrow> node_mata \<Rightarrow> file_system \<Rightarrow> msg \<times> file_system" where
  "DumpCreateSpaceReq co nm fs =
     (if DbName nm \<noteq> '''' then
        (let (converted, json_str) = mk_req_to co (nm_space_req nm)
         in if \<not> converted then (''Failed to convert protobuf to JSON. json_str:'' @ json_str, fs)
            else case ofstream_open (nm_space_schema_file nm) fs of
              None \<Rightarrow> (''Failed to open create_space_req: '' @ nm_space_schema_file nm @ '' json_str:'' @ json_str, fs)
            | Some fs1 \<Rightarrow> ('''', ofstream_put (nm_space_schema_file nm) json_str fs1))
      else (''space is not set. not dump CreateSpaceReq'', fs))"

definition DumpNodeInfo :: "mata_codec \<Rightarrow> node_mata \<Rightarrow> file_system \<Rightarrow> msg \<times> file_system" where
  "DumpNodeInfo co nm fs =
     (if ni_ps_id (nm_ps_node_info nm) \<le> 0 then (''_ps_node_info is not null or id is not set. skip'', fs)
      else
        (let (converted, json_str) = mk_info_to co (nm_ps_node_info nm)
         in if \<not> converted then (''Failed to convert protobuf to JSON. json_str:'' @ json_str, fs)
            else case ofstream_open (nm_node_info_file nm) fs of
              None \<Rightarrow> (''Failed to open file, node_info_file: '' @ nm_node_info_file nm @ '' json_str:'' @ json_str, fs)
            | Some fs1 \<Rightarrow> ('''', ofstream_put (nm_node_info_file nm) json_str fs1)))"

text \<open>The flag is set when the request has a name; a request without one does not clear it.\<close>

definition SetCreateSapceReq :: "create_space_request \<Rightarrow> node_mata \<Rightarrow> node_mata" where
  "SetCreateSapceReq space_req nm =
     (let nm1 = nm\<lparr>nm_space_req := space_req\<rparr> in if DbName nm1 \<noteq> '''' then nm1\<lparr>nm_has_space := True\<rparr> else nm1)"

definition SetPsId :: "int \<Rightarrow> node_mata \<Rightarrow> node_mata" where
  "SetPsId ps_node_id nm = nm\<lparr>nm_ps_node_info := (nm_ps_node_info nm)\<lparr>ni_ps_id := ps_node_id\<rparr>\<rparr>"

definition SetPsPort :: "int \<Rightarrow> node_mata \<Rightarrow> node_mata" where
  "SetPsPort port nm = nm\<lparr>nm_ps_node_info := (nm_ps_node_info nm)\<lparr>ni_ps_port := port\<rparr>\<rparr>"

definition SetPsIP :: "string \<Rightarrow> node_mata \<Rightarrow> node_mata" where
  "SetPsIP ip nm = nm\<lparr>nm_ps_node_info := (nm_ps_node_info nm)\<lparr>ni_ps_ip := ip\<rparr>\<rparr>"

definition NodeMata_DeleteSpace :: "butil \<Rightarrow> node_mata \<Rightarrow> file_system \<Rightarrow> node_mata \<times> file_system" where
  "NodeMata_DeleteSpace bu nm fs =
     (nm\<lparr>nm_space_req := empty_create_space_request, nm_has_space := False\<rparr>,
      snd (DeleteFile bu (nm_space_schema_file nm) False fs))"

definition DeleteNodeInfo :: "butil \<Rightarrow> node_mata \<Rightarrow> file_system \<Rightarrow> node_mata \<times> file_system" where
  "DeleteNodeInfo bu nm fs =
     (nm\<lparr>nm_ps_node_info := empty_node_info\<rparr>, snd (DeleteFile bu (nm_node_info_file nm) False fs))"

subsection \<open>The local storager\<close>

record gen_id_response =
  gi_code :: int
  gi_msg :: string
  gi_id :: int

record gen_id_codec =
  gk_to :: "int to_json"
  gk_from :: "gen_id_response from_json"

definition GetNodeIdByQueryApi :: "'w network \<Rightarrow> gen_id_codec \<Rightarrow> toml_config \<Rightarrow> int \<Rightarrow> 'w \<Rightarrow> (int \<times> 'w) ub" where
  "GetNodeIdByQueryApi net gk toml max_retry w = do {
     (ok, resp, w1) \<leftarrow> HttpPost net (gk_to gk) (gk_from gk) (tc_master_urls toml) ''/api/gen_id'' (- 1)
       \<lparr>gi_code = 0, gi_msg = '''', gi_id = 0\<rparr> max_retry w;
     Some (if ok = 0 \<and> gi_id resp \<ge> 0 \<and> gi_code resp = 0 then gi_id resp else - 1, w1)
   }"

definition CreateOrLoadNodeMata :: "butil \<Rightarrow> mata_codec \<Rightarrow> gen_id_codec \<Rightarrow> 'w network \<Rightarrow> conf \<Rightarrow> string \<Rightarrow> node_mata \<Rightarrow> file_system \<Rightarrow> 'w
    \<Rightarrow> (int \<times> node_mata \<times> file_system \<times> 'w) ub" where
  "CreateOrLoadNodeMata bu co gk net cf dir_path nm fs w =
     (let (ok, nm1, fs1) = NodeMata_Init bu co dir_path nm fs
      in if \<not> ok then Some (- 1, nm1, fs1, w)
         else if \<not> IsLoadFromFile nm1 then do {
           let nm2 = SetPsPort (pc_rpc_port (tc_ps (cf_toml cf))) (SetPsIP (cf_cur_IP cf) nm1);
           (node_id, w1) \<leftarrow> GetNodeIdByQueryApi net gk (cf_toml cf) 4 w;
           if node_id \<ge> 0 then
             (let nm3 = SetPsId node_id nm2;
                  (m, fs2) = DumpNodeInfo co nm3 fs1
              in Some (if m = '''' then node_id else - 1, nm3, fs2, w1))
           else Some (- 1, nm2, fs1, w1)
         } else Some (ni_ps_id (nm_ps_node_info nm1), nm1, fs1, w))"

definition LocalStorager_DeleteSpace :: "butil \<Rightarrow> string \<Rightarrow> string \<Rightarrow> node_mata \<Rightarrow> file_system \<Rightarrow> msg \<times> node_mata \<times> file_system" where
  "LocalStorager_DeleteSpace bu db_name space_name nm fs =
     (if db_name = DbName nm \<and> space_name = SpaceName nm then
        (let (nm1, fs1) = NodeMata_DeleteSpace bu nm fs in ('''', nm1, fs1))
      else (''Incorrect db_name or space_name'', nm, fs))"

definition GetRaftRoot :: "conf \<Rightarrow> node_mata \<Rightarrow> string" where
  "GetRaftRoot cf nm =
     (if \<not> nm_has_space nm then ''''
      else cf_raft_root_dir cf @ ''/'' @ pt_group_name (cs_cur_partition (nm_space_req nm)))"

text \<open>The parameters are out arguments: without a space they stay as the caller had them.\<close>

definition GetRaftParams :: "conf \<Rightarrow> node_mata \<Rightarrow> string \<times> string \<times> string \<times> int \<Rightarrow> bool \<times> (string \<times> string \<times> string \<times> int)" where
  "GetRaftParams cf nm params =
     (if \<not> nm_has_space nm then (False, params)
      else (True, (GetRaftRoot cf nm, pt_group_name (cs_cur_partition (nm_space_req nm)),
                   GetRaftConf (cs_cur_partition (nm_space_req nm)), pc_rpc_port (tc_ps (cf_toml cf)))))"

subsection \<open>Files that were written\<close>

lemma ofstream_frame:
  assumes "fs_ok fs" and "ofstream_open p fs = Some fs1" and "q \<noteq> p"
  shows "ifstream_read q (ofstream_put p t fs1) = ifstream_read q fs" and "node_at (ofstream_put p t fs1) q = node_at fs q"
proof -
  show node: "node_at (ofstream_put p t fs1) q = node_at fs q"
    using assms(2,3)
    by (auto simp: ofstream_open_def ofstream_put_def create_file_def node_at_def update_conv' Let_def
        split: if_splits option.splits node.splits)
  have data: "fs_data (ofstream_put p t fs1) n = fs_data fs n" if "node_at fs q = Some (Regular n)" for n
  proof -
    have "n < fs_next fs" "node_at fs p \<noteq> Some (Regular n)" using assms(1,3) that by (auto simp: fs_ok_def)
    then show ?thesis
      using assms(2)
      by (auto simp: ofstream_open_def ofstream_put_def create_file_def node_at_def update_conv' Let_def
          split: if_splits option.splits node.splits)
  qed
  have "fs_denied (ofstream_put p t fs1) = fs_denied fs"
    using assms(2)
    by (auto simp: ofstream_open_def ofstream_put_def create_file_def Let_def split: if_splits option.splits node.splits)
  with node data show "ifstream_read q (ofstream_put p t fs1) = ifstream_read q fs"
    by (simp add: ifstream_read_def split: option.split node.split)
qed

lemma DumpNodeInfo_written:
  assumes "DumpNodeInfo co nm fs = ('''', fs')"
  obtains fs1 where "ofstream_open (nm_node_info_file nm) fs = Some fs1"
    and "fs' = ofstream_put (nm_node_info_file nm) (snd (mk_info_to co (nm_ps_node_info nm))) fs1"
  using assms that by (auto simp: DumpNodeInfo_def split: if_splits prod.splits option.splits)

lemma DumpCreateSpaceReq_written:
  assumes "DumpCreateSpaceReq co nm fs = ('''', fs')"
  obtains fs1 where "ofstream_open (nm_space_schema_file nm) fs = Some fs1"
    and "fs' = ofstream_put (nm_space_schema_file nm) (snd (mk_req_to co (nm_space_req nm))) fs1" and "DbName nm \<noteq> ''''"
  using assms that by (auto simp: DumpCreateSpaceReq_def split: if_splits prod.splits option.splits)

definition at_dir :: "string \<Rightarrow> node_mata \<Rightarrow> bool" where
  "at_dir dir nm \<longleftrightarrow> nm_dir_path nm = dir \<and> nm_node_info_file nm = dir @ ''/node_info.json'' \<and>
     nm_space_schema_file nm = dir @ ''/create_space_req.json''"

definition info_reads_back :: "mata_codec \<Rightarrow> ps_node_info \<Rightarrow> bool" where
  "info_reads_back co info \<longleftrightarrow> mk_info_from co (snd (mk_info_to co info)) empty_node_info = (True, info)"

definition req_reads_back :: "mata_codec \<Rightarrow> create_space_request \<Rightarrow> bool" where
  "req_reads_back co req \<longleftrightarrow> mk_req_from co (snd (mk_req_to co req)) empty_create_space_request = (True, req)"

text \<open>A partition server that dumped its node information and then the request of its space finds both
  when it starts again on the same directory, and knows that it has a space, provided the JSON forms
  read back, the disk had room for them, and files share no data.\<close>

lemma NodeMata_restart:
  assumes "butil_spec bu" and "info_reads_back co (nm_ps_node_info nm)" and "req_reads_back co (nm_space_req nm)" and "at_dir dir nm"
    and "DumpNodeInfo co nm fs = ('''', fs1)" and "length (snd (mk_info_to co (nm_ps_node_info nm))) \<le> fs_room fs"
    and "fs_ok fs1" and "node_at fs1 dir \<noteq> None"
    and "DumpCreateSpaceReq co nm fs1 = ('''', fs2)" and "length (snd (mk_req_to co (nm_space_req nm))) \<le> fs_room fs1"
  shows "NodeMata_Init bu co dir new_node_mata fs2 = (True, nm\<lparr>nm_has_space := True\<rparr>, fs2)"
proof -
  let ?info = "dir @ ''/node_info.json''" and ?req = "dir @ ''/create_space_req.json''"
  have files: "nm_node_info_file nm = ?info" "nm_space_schema_file nm = ?req" "nm_dir_path nm = dir"
    using assms(4) by (simp_all add: at_dir_def)
  obtain fa where fa: "ofstream_open ?info fs = Some fa" "fs1 = ofstream_put ?info (snd (mk_info_to co (nm_ps_node_info nm))) fa"
    using assms(5) unfolding files(1) [symmetric] by (rule DumpNodeInfo_written)
  obtain fb where fb: "ofstream_open ?req fs1 = Some fb" "fs2 = ofstream_put ?req (snd (mk_req_to co (nm_space_req nm))) fb"
    using assms(9) unfolding files(2) [symmetric] by (rule DumpCreateSpaceReq_written)
  have "ifstream_read ?info fs2 = ifstream_read ?info fs1" "node_at fs2 dir = node_at fs1 dir"
    using ofstream_frame [OF assms(7) fb(1)] fb(2) by simp_all
  moreover have "ifstream_read ?info fs1 = Some (snd (mk_info_to co (nm_ps_node_info nm)))"
    using ofstream_rewrite [OF fa(1) assms(6)] fa(2) by simp
  moreover have "ifstream_read ?req fs2 = Some (snd (mk_req_to co (nm_space_req nm)))"
    using ofstream_rewrite [OF fb(1) assms(10)] fb(2) by simp
  moreover have "PathExists bu dir fs2" using butil_exists(1) [OF assms(1)] assms(8) calculation(2) by simp
  ultimately show ?thesis
    using assms(2,3) files
    by (simp add: NodeMata_Init_def load_space_def new_node_mata_def info_reads_back_def req_reads_back_def Let_def)
qed

subsection \<open>The id of the node\<close>

lemma NodeMata_Init_fields:
  "NodeMata_Init bu co dir nm fs = (ok, nm1, fs1) \<Longrightarrow>
     nm_dir_path nm1 = dir \<and> nm_node_info_file nm1 = dir @ ''/node_info.json'' \<and> nm_space_schema_file nm1 = dir @ ''/create_space_req.json''"
  by (auto simp: NodeMata_Init_def load_space_def Let_def split: if_splits option.splits prod.splits)

lemma NodeMata_Init_loaded:
  assumes "NodeMata_Init bu co dir new_node_mata fs = (True, nm, fs1)" and "IsLoadFromFile nm"
  shows "fs1 = fs"
  using assms
  by (auto simp: NodeMata_Init_def IsLoadFromFile_def new_node_mata_def empty_node_info_def Let_def split: if_splits option.splits prod.splits)

text \<open>C38: the id of a partition server is handed out once. When a start ended with a positive id, a later start
  on the disk it left has the same id and the same address, and does not ask the master: the network is
  not used. The server is a fresh one or one without a space, and it had an address.\<close>

theorem CreateOrLoadNodeMata_stable:
  assumes "butil_spec bu" and "info_reads_back co (nm_ps_node_info nm)" and "cf_cur_IP cf \<noteq> ''''"
    and "CreateOrLoadNodeMata bu co gk net cf dir new_node_mata fs w = Some (node_id, nm, fs', w')" and "0 < node_id"
    and "length (snd (mk_info_to co (nm_ps_node_info nm))) \<le> fs_room (snd (snd (NodeMata_Init bu co dir new_node_mata fs)))"
    and "node_at fs' dir \<noteq> None" and "ifstream_read (dir @ ''/create_space_req.json'') fs' = None"
  shows "\<exists>nm'. CreateOrLoadNodeMata bu co gk' net' cf' dir new_node_mata fs' w2 = Some (node_id, nm', fs', w2) \<and>
    nm_ps_node_info nm' = nm_ps_node_info nm"
proof -
  obtain ok nm1 fs1 where init: "NodeMata_Init bu co dir new_node_mata fs = (ok, nm1, fs1)" by (rule prod_cases3)
  have ok: "ok" using assms(4,5) init by (cases ok) (simp_all add: CreateOrLoadNodeMata_def)
  show ?thesis
  proof (cases "IsLoadFromFile nm1")
    case True
    then have "fs1 = fs" using NodeMata_Init_loaded [of bu co dir fs nm1 fs1] init ok by simp
    with True init ok assms(4) show ?thesis by (auto simp: CreateOrLoadNodeMata_def)
  next
    case False
    let ?nm = "SetPsId node_id (SetPsPort (pc_rpc_port (tc_ps (cf_toml cf))) (SetPsIP (cf_cur_IP cf) nm1))"
    have nm: "nm = ?nm" and dump: "DumpNodeInfo co ?nm fs1 = ('''', fs')"
      using assms(4,5) init ok False
      by (auto simp: CreateOrLoadNodeMata_def Let_def bind_eq_Some_conv split: if_splits prod.splits)
    have fpath: "nm_node_info_file nm = dir @ ''/node_info.json''"
      using NodeMata_Init_fields [OF init] nm by (simp add: SetPsId_def SetPsPort_def SetPsIP_def)
    have info: "ni_ps_id (nm_ps_node_info nm) = node_id" "ni_ps_ip (nm_ps_node_info nm) = cf_cur_IP cf"
      using nm by (simp_all add: SetPsId_def SetPsPort_def SetPsIP_def)
    obtain fa where fa: "ofstream_open (nm_node_info_file nm) fs1 = Some fa"
      "fs' = ofstream_put (nm_node_info_file nm) (snd (mk_info_to co (nm_ps_node_info nm))) fa"
      using dump unfolding nm by (rule DumpNodeInfo_written)
    have "ifstream_read (dir @ ''/node_info.json'') fs' = Some (snd (mk_info_to co (nm_ps_node_info nm)))"
      using ofstream_rewrite [OF fa(1)] fa(2) fpath assms(6) init by simp
    moreover have "PathExists bu dir fs'" using butil_exists(1) [OF assms(1)] assms(7) by simp
    ultimately have "\<exists>nm'. NodeMata_Init bu co dir new_node_mata fs' = (True, nm', fs') \<and> nm_ps_node_info nm' = nm_ps_node_info nm"
      using assms(2,8) by (simp add: NodeMata_Init_def load_space_def new_node_mata_def info_reads_back_def Let_def)
    then show ?thesis using info assms(3,5) by (auto simp: CreateOrLoadNodeMata_def IsLoadFromFile_def)
  qed
qed


subsection \<open>A concrete server\<close>

definition demo_info :: ps_node_info where
  "demo_info = \<lparr>ni_ps_id = 7, ni_ps_ip = ''h'', ni_ps_port = 81, ni_msg = ''''\<rparr>"

definition demo_create_req :: create_space_request where
  "demo_create_req = \<lparr>cs_space = empty_space\<lparr>sp_db_name := ''db'', sp_space_name := ''sp''\<rparr>,
     cs_cur_partition = empty_partition\<lparr>pt_group_name := ''g''\<rparr>\<rparr>"

definition demo_mata_codec :: mata_codec where
  "demo_mata_codec = \<lparr>mk_info_to = (\<lambda>_. (True, ''i'')), mk_info_from = (\<lambda>_ _. (True, demo_info)),
     mk_req_to = (\<lambda>_. (True, ''r'')), mk_req_from = (\<lambda>_ _. (True, demo_create_req))\<rparr>"

definition demo_gen_id :: gen_id_codec where
  "demo_gen_id = \<lparr>gk_to = (\<lambda>_. (True, ''q'')), gk_from = (\<lambda>_ _. (True, \<lparr>gi_code = 0, gi_msg = '''', gi_id = 7\<rparr>))\<rparr>"

definition demo_ps_toml :: toml_config where
  "demo_ps_toml =
     \<lparr>tc_global = \<lparr>gc_name = ''s'', gc_data = [''d''], gc_level = '''', gc_signkey = '''', gc_skip_auth = True\<rparr>,
      tc_masters = [empty_master], tc_router = \<lparr>rc_port = 80, rc_skip_auth = True, rc_hearbeat_interval_s = 5\<rparr>,
      tc_ps = \<lparr>pc_rpc_port = 81, pc_raft_election_timeout_ms = 1, pc_raft_snap_interval_s = 1, pc_hearbeat_interval_s = 5\<rparr>,
      tc_master_urls = [''B'']\<rparr>"

definition demo_conf :: conf where
  "demo_conf = \<lparr>cf_toml = demo_ps_toml, cf_cur_IP = ''h'', cf_data_dir = ''d'', cf_router_store_dir = ''r'', cf_ps_storage_dir = ''s'',
     cf_raft_root_dir = ''d'', cf_engine_data_dir = ''e'', cf_log_dir = ''l''\<rparr>"

definition demo_mata :: node_mata where
  "demo_mata = \<lparr>nm_dir_path = ''s'', nm_node_info_file = ''s/node_info.json'', nm_space_schema_file = ''s/create_space_req.json'',
     nm_ps_node_info = demo_info, nm_space_req = demo_create_req, nm_has_space = False\<rparr>"

lemma demo_fs_dir: "node_at demo_fs ''s'' = Some Directory" "node_at demo_fs ''s/node_info.json'' = None"
  "node_at demo_fs ''s/create_space_req.json'' = None" "dirname ''s/node_info.json'' = ''s''" "dirname ''s/create_space_req.json'' = ''s''"
  "\<And>p. fs_denied demo_fs p = False" "fs_room demo_fs = 1000" "fs_next demo_fs = 1"
  by (simp_all add: demo_fs_def node_at_def dirname_def)

definition demo_info_fs :: file_system where
  "demo_info_fs = ofstream_put ''s/node_info.json'' ''i'' (create_file ''s/node_info.json'' demo_fs)"

lemma demo_open_info: "ofstream_open ''s/node_info.json'' demo_fs = Some (create_file ''s/node_info.json'' demo_fs)"
  by (simp add: ofstream_open_def demo_fs_dir is_dir_def)

lemma demo_info_fs_nodes: "fs_nodes demo_info_fs = [(''d'', Directory), (''d/x'', Regular 0), (''s'', Directory), (''s/node_info.json'', Regular 1)]"
  "fs_next demo_info_fs = 2" "fs_room demo_info_fs = 999" "\<And>p. fs_denied demo_info_fs p = False"
  by (simp_all add: demo_info_fs_def ofstream_put_def create_file_def demo_fs_def node_at_def Let_def)

lemma NodeMata_restart_witness:
  "\<exists>fs1 fs2. DumpNodeInfo demo_mata_codec demo_mata demo_fs = ('''', fs1) \<and> DumpCreateSpaceReq demo_mata_codec demo_mata fs1 = ('''', fs2) \<and>
     NodeMata_Init demo_butil demo_mata_codec ''s'' new_node_mata fs2 = (True, demo_mata\<lparr>nm_has_space := True\<rparr>, fs2)"
proof -
  have reads: "info_reads_back demo_mata_codec (nm_ps_node_info demo_mata)" "req_reads_back demo_mata_codec (nm_space_req demo_mata)"
    "at_dir ''s'' demo_mata"
    by (simp_all add: info_reads_back_def req_reads_back_def demo_mata_codec_def demo_mata_def at_dir_def)
  have info: "DumpNodeInfo demo_mata_codec demo_mata demo_fs = ('''', demo_info_fs)"
    using demo_open_info by (simp add: DumpNodeInfo_def demo_mata_def demo_info_def demo_mata_codec_def demo_info_fs_def)
  have ok: "fs_ok demo_info_fs" "node_at demo_info_fs ''s'' \<noteq> None" "fs_room demo_info_fs = 999"
    by (auto simp: fs_ok_def node_at_def demo_info_fs_nodes split: if_splits)
  have "\<exists>fs2. DumpCreateSpaceReq demo_mata_codec demo_mata demo_info_fs = ('''', fs2)"
    using demo_fs_dir(5)
    by (simp add: DumpCreateSpaceReq_def DbName_def demo_mata_def demo_create_req_def demo_mata_codec_def ofstream_open_def node_at_def
        is_dir_def demo_info_fs_nodes)
  then obtain fs2 where req: "DumpCreateSpaceReq demo_mata_codec demo_mata demo_info_fs = ('''', fs2)" ..
  from NodeMata_restart [OF demo_butil_spec reads info _ ok(1,2) req] info req ok(3) show ?thesis
    by (simp add: demo_mata_codec_def demo_fs_dir)
qed

theorem CreateOrLoadNodeMata_stable_witness:
  "\<exists>nm fs' w'. CreateOrLoadNodeMata demo_butil demo_mata_codec demo_gen_id demo_net demo_conf ''s'' new_node_mata demo_fs ''A'' = Some (7, nm, fs', w') \<and>
     (\<exists>nm'. CreateOrLoadNodeMata demo_butil demo_mata_codec demo_gen_id demo_net demo_conf ''s'' new_node_mata fs' ''C'' = Some (7, nm', fs', ''C''))"
proof -
  let ?nm = "new_node_mata\<lparr>nm_dir_path := ''s'', nm_node_info_file := ''s/node_info.json'', nm_space_schema_file := ''s/create_space_req.json'',
    nm_ps_node_info := demo_info\<rparr>"
  have id: "GetNodeIdByQueryApi demo_net demo_gen_id (cf_toml demo_conf) 4 ''A'' = Some (7, ''A'')"
    by (simp add: GetNodeIdByQueryApi_def HttpPost_def random_int_def GenRandomInt_def demo_conf_def demo_ps_toml_def demo_gen_id_def at_ub_def
        eval_nat_numeral)
  have init: "NodeMata_Init demo_butil demo_mata_codec ''s'' new_node_mata demo_fs =
      (True, ?nm\<lparr>nm_ps_node_info := empty_node_info\<rparr>, demo_fs)"
    by (simp add: NodeMata_Init_def demo_butil_def demo_fs_dir ifstream_read_def new_node_mata_def)
  have run: "CreateOrLoadNodeMata demo_butil demo_mata_codec demo_gen_id demo_net demo_conf ''s'' new_node_mata demo_fs ''A'' = Some (7, ?nm, demo_info_fs, ''A'')"
    using id init demo_open_info
    by (simp add: CreateOrLoadNodeMata_def IsLoadFromFile_def empty_node_info_def SetPsId_def SetPsPort_def SetPsIP_def DumpNodeInfo_def
        demo_conf_def demo_ps_toml_def demo_info_def demo_mata_codec_def demo_info_fs_def Let_def)
  have "node_at demo_info_fs ''s'' \<noteq> None" "ifstream_read (''s'' @ ''/create_space_req.json'') demo_info_fs = None"
    by (simp_all add: node_at_def ifstream_read_def demo_info_fs_nodes)
  note dir = this
  have "info_reads_back demo_mata_codec (nm_ps_node_info ?nm)" "cf_cur_IP demo_conf \<noteq> ''''" "(0 :: int) < 7"
    "length (snd (mk_info_to demo_mata_codec (nm_ps_node_info ?nm))) \<le> fs_room (snd (snd (NodeMata_Init demo_butil demo_mata_codec ''s'' new_node_mata demo_fs)))"
    unfolding init by (simp_all add: info_reads_back_def demo_mata_codec_def demo_conf_def demo_fs_dir)
  from CreateOrLoadNodeMata_stable [OF demo_butil_spec this(1,2) run this(3,4) dir, of demo_gen_id demo_net demo_conf "''C''"] run
  show ?thesis by blast
qed


end
