(* ===== verification/Ps_Rpc.thy ===== *)
theory Ps_Rpc
  imports Local_Mata Raft_Store
begin

text \<open>
  The requests a partition server answers: \<open>service/ps/ps_rpc.cc\<close> (the space of the server) and
  \<open>service/ps/raft_rpc.cc\<close> (writes and reads of the replicated store). A server holds at most one
  space. Its state is what the singletons of the process hold: the node (\<open>LocalStorager\<close>), the
  block (\<open>RaftManager\<close>), the gamma engine, the file-backed \<open>Engine\<close>, and the disk. Every handler
  runs its closure, except that a write handed to braft leaves that to the closure of the task.
\<close>

subsection \<open>State\<close>

record ('n, 'g) ps_lib =
  sl_butil :: butil
  sl_braft :: "'n braft"
  sl_gamma :: "'g gamma"
  sl_mata :: mata_codec
  sl_protobuf :: protobuf
  sl_order :: net_order

record ('n, 'g) ps =
  ps_mata :: node_mata
  ps_block :: "'n block option"
  ps_gamma :: 'g
  ps_engine :: engine
  ps_fs :: file_system

definition status :: "int \<Rightarrow> msg \<Rightarrow> resp_status" where
  "status code m = \<lparr>rs_code = Some code, rs_msg = Some m\<rparr>"

subsection \<open>The space of the server\<close>

fun mock_get_docs :: "string list \<Rightarrow> engine \<Rightarrow> file_system \<Rightarrow> (mock_doc list \<times> file_system) ub" where
  "mock_get_docs [] en fs = Some ([], fs)"
| "mock_get_docs (k # keys) en fs = do {
     int_key \<leftarrow> atoi k;
     (val, fs1) \<leftarrow> Engine_Get en int_key fs;
     (docs, fs2) \<leftarrow> mock_get_docs keys en fs1;
     Some (\<lparr>md_key = Some k, md_val = Some val, md_msg = ''''\<rparr> # docs, fs2)
   }"

definition Ps_MockGet :: "mock_get_request \<Rightarrow> mock_get_response \<Rightarrow> ('n, 'g) ps \<Rightarrow> (mock_get_response \<times> ('n, 'g) ps) ub" where
  "Ps_MockGet req resp ps = do {
     (docs, fs1) \<leftarrow> mock_get_docs (mg_keys req) (ps_engine ps) (ps_fs ps);
     Some (\<lparr>mr_code = Some 0, mr_msg = Some '''', mr_docs = mr_docs resp @ docs\<rparr>, ps\<lparr>ps_fs := fs1\<rparr>)
   }"

definition Ps_Ping :: resp_status where
  "Ps_Ping = status 0 ''success''"

definition Ps_CreateSpace :: "('n, 'g) ps_lib \<Rightarrow> conf \<Rightarrow> create_space_request \<Rightarrow> ('n, 'g) ps \<Rightarrow> resp_status \<times> ('n, 'g) ps" where
  "Ps_CreateSpace lib cf req ps =
     (if nm_has_space (ps_mata ps) then (status 201 (''Space has exist, space_name:'' @ SpaceName (ps_mata ps)), ps)
      else
        let mata = SetCreateSapceReq req (ps_mata ps);
            no_mata = SetCreateSapceReq empty_create_space_request mata;
            (_, root_path, grp, conf, port) = GetRaftParams cf mata ('''', '''', '''', 0);
            g1 = InitEngine (sl_gamma lib) (cf_engine_data_dir cf) (SpaceName mata) (ps_gamma ps);
            ((code, m), g2) = CreateTable (sl_gamma lib) (GetGammaTable (cs_space (nm_space_req mata))) g1
        in if code \<noteq> 0 then
             (status code (''Engine create table failed, msg:'' @ m), ps\<lparr>ps_mata := no_mata, ps_gamma := g2\<rparr>)
           else
             let (_, block, fs1) = CreateBlock (sl_butil lib) (ps_block ps) (ps_fs ps);
                 (m, block1, fs2) = StartRaftServer (sl_butil lib) (sl_braft lib) (cf_toml cf) root_path grp conf
                   (ni_ps_ip (nm_ps_node_info mata)) port (cs_space req) block fs1;
                 ps1 = ps\<lparr>ps_mata := mata, ps_gamma := g2, ps_block := block1, ps_fs := fs2\<rparr>
             in if m \<noteq> '''' then (status 202 m, ps1\<lparr>ps_mata := no_mata\<rparr>)
                else
                  let (m, fs3) = DumpCreateSpaceReq (sl_mata lib) mata fs2
                  in if m \<noteq> '''' then (status 203 m, ps1\<lparr>ps_mata := no_mata, ps_fs := fs3\<rparr>)
                     else (status 0 '''', ps1\<lparr>ps_fs := fs3\<rparr>))"

definition Ps_DeleteSpace :: "('n, 'g) ps_lib \<Rightarrow> conf \<Rightarrow> delete_space_request \<Rightarrow> ('n, 'g) ps \<Rightarrow> resp_status \<times> ('n, 'g) ps" where
  "Ps_DeleteSpace lib cf req ps =
     (if DbName (ps_mata ps) \<noteq> str_or (dsq_db_name req) \<or> SpaceName (ps_mata ps) \<noteq> str_or (dsq_space_name req) then
        (status 201 ''db_name and space_name is not exist.'', ps)
      else
        let (_, block, fs1) = DeleteBlock (sl_butil lib) (ps_block ps) (ps_fs ps);
            fs2 = snd (DeleteFile (sl_butil lib) (cf_engine_data_dir cf) True fs1);
            (_, mata, fs3) = LocalStorager_DeleteSpace (sl_butil lib) (str_or (dsq_db_name req)) (str_or (dsq_space_name req)) (ps_mata ps) fs2
        in (status 0 '''',
            ps\<lparr>ps_block := block, ps_gamma := gamma_Close (sl_gamma lib) (ps_gamma ps), ps_mata := mata, ps_fs := fs3\<rparr>))"

text \<open>The two requests a router sends to read documents answer nothing.\<close>

definition Ps_Get :: "get_request \<Rightarrow> get_response \<Rightarrow> get_response" where
  "Ps_Get req resp = resp"

definition Ps_Search :: "search_response \<Rightarrow> search_response" where
  "Ps_Search resp = resp"

subsection \<open>The replicated store\<close>

definition no_space_msg :: msg where
  "no_space_msg = [CHR 0xE4, CHR 0xB8, CHR 0x8D, CHR 0xE5, CHR 0xAD, CHR 0x98, CHR 0xE5, CHR 0x9C, CHR 0xA8, CHR 0xE8, CHR 0xBF, CHR 0x99,
     CHR 0xE4, CHR 0xB8, CHR 0xAA] @ ''space, '' @ [CHR 0xE6, CHR 0x88, CHR 0x96, CHR 0xE8, CHR 0x80, CHR 0x85] @ ''space has error and not run''"

definition RaftRpc_write :: "('n, 'g) ps_lib \<Rightarrow> block_request \<Rightarrow> block_response \<Rightarrow> string \<Rightarrow> ('n, 'g) ps \<Rightarrow> write_result ub" where
  "RaftRpc_write lib request response attachment ps =
     (case ps_block ps of
        None \<Rightarrow> Some (Answered (response\<lparr>resp_success := Some False, resp_msg := no_space_msg\<rparr>))
      | Some b \<Rightarrow> Block_write (sl_order lib) (sl_protobuf lib) (sl_braft lib) request response attachment b)"

text \<open>The test for a null block does not return: the block is dereferenced all the same.\<close>

definition RaftRpc_read :: "('n, 'g) ps_lib \<Rightarrow> block_request \<Rightarrow> block_response \<Rightarrow> string \<Rightarrow> ('n, 'g) ps \<Rightarrow> (block_response \<times> string) ub" where
  "RaftRpc_read lib request response attachment ps =
     (let response1 = (if ps_block ps = None then response\<lparr>resp_success := Some False, resp_msg := no_space_msg\<rparr> else response)
      in do {
        b \<leftarrow> ps_block ps;
        Block_read (sl_gamma lib) (sl_protobuf lib) (sl_braft lib) request response1 attachment b (ps_gamma ps)
      })"

subsection \<open>Outcomes of creating a space\<close>

lemma SetCreateSapceReq_fields [simp]:
  "nm_space_req (SetCreateSapceReq req nm) = req"
  "nm_has_space (SetCreateSapceReq req nm) \<longleftrightarrow> nm_has_space nm \<or> sp_db_name (cs_space req) \<noteq> ''''"
  "nm_dir_path (SetCreateSapceReq req nm) = nm_dir_path nm"
  "nm_node_info_file (SetCreateSapceReq req nm) = nm_node_info_file nm"
  "nm_space_schema_file (SetCreateSapceReq req nm) = nm_space_schema_file nm"
  "nm_ps_node_info (SetCreateSapceReq req nm) = nm_ps_node_info nm"
  by (simp_all add: SetCreateSapceReq_def DbName_def Let_def)

lemma empty_request_names [simp]: "sp_db_name (cs_space empty_create_space_request) = ''''" "sp_space_name (cs_space empty_create_space_request) = ''''"
  by (simp_all add: empty_create_space_request_def empty_space_def)

text \<open>A block that was started: the replica of the space, with its node.\<close>

definition runs :: "conf \<Rightarrow> create_space_request \<Rightarrow> 'n block \<Rightarrow> bool" where
  "runs cf req b \<longleftrightarrow> bl_node b \<noteq> None \<and> bl_space b = cs_space req \<and> bl_group b = pt_group_name (cs_cur_partition req) \<and>
     bl_root_path b = cf_raft_root_dir cf @ ''/'' @ pt_group_name (cs_cur_partition req)"

lemma Block_start_done:
  assumes "Block_start bu br tc root_path grp conf my_ip port space b fs = (rc, b', fs')"
  shows "bl_space b' = space \<and> bl_group b' = grp \<and> bl_root_path b' = root_path \<and> bl_leader_term b' = bl_leader_term b \<and>
    (rc = 0 \<longrightarrow> bl_node b' \<noteq> None)"
  using assms by (auto simp: Block_start_def Let_def split: if_splits prod.splits option.splits)

lemma StartRaftServer_done:
  assumes "StartRaftServer bu br tc root_path grp conf my_ip port space (Some b) fs = (m, block, fs')"
  obtains b' where "block = Some b'" "bl_space b' = space" "bl_group b' = grp" "bl_root_path b' = root_path"
    "bl_leader_term b' = bl_leader_term b" "m = '''' \<longrightarrow> bl_node b' \<noteq> None"
  using assms Block_start_done by (fastforce simp: StartRaftServer_def Let_def split: if_splits prod.splits)

lemma CreateBlock_new: "\<exists>fs'. CreateBlock bu block fs = ('''', Some new_block, fs')"
  by (cases "DeleteBlock bu block fs") (simp add: CreateBlock_def)

text \<open>
  Creating a space answers 0 exactly when nothing failed; the server then has the space and runs its
  replica. Any other answer to a server without a space leaves the empty request.
\<close>

lemma Ps_CreateSpace_success:
  assumes "Ps_CreateSpace lib cf req ps = (st, ps')" and "rs_code st = Some 0"
  obtains b fs where "\<not> nm_has_space (ps_mata ps)" "ps_mata ps' = SetCreateSapceReq req (ps_mata ps)" "ps_block ps' = Some b" "runs cf req b"
    "bl_leader_term b = - 1" "DumpCreateSpaceReq (sl_mata lib) (ps_mata ps') fs = ('''', ps_fs ps')" "sp_db_name (cs_space req) \<noteq> ''''"
proof -
  have no: "\<not> nm_has_space (ps_mata ps)" using assms by (auto simp: Ps_CreateSpace_def status_def)
  let ?mata = "SetCreateSapceReq req (ps_mata ps)"
  obtain ok root grp conf port where params: "GetRaftParams cf ?mata ('''', '''', '''', 0) = (ok, root, grp, conf, port)" by (rule prod_cases5)
  obtain code m g2 where table: "CreateTable (sl_gamma lib) (GetGammaTable (cs_space req))
      (InitEngine (sl_gamma lib) (cf_engine_data_dir cf) (SpaceName ?mata) (ps_gamma ps)) = ((code, m), g2)" by (metis prod.collapse)
  obtain m0 fs1 where create: "CreateBlock (sl_butil lib) (ps_block ps) (ps_fs ps) = (m0, Some new_block, fs1)"
    using CreateBlock_new by blast
  obtain m1 block fs2 where start: "StartRaftServer (sl_butil lib) (sl_braft lib) (cf_toml cf) root grp conf (ni_ps_ip (nm_ps_node_info ?mata)) port
      (cs_space req) (Some new_block) fs1 = (m1, block, fs2)" by (rule prod_cases3)
  obtain m2 fs3 where dump: "DumpCreateSpaceReq (sl_mata lib) ?mata fs2 = (m2, fs3)" by (rule prod.exhaust)
  have ok0: "code = 0" "m1 = ''''" "m2 = ''''" and ps': "ps' = ps\<lparr>ps_mata := ?mata, ps_gamma := g2, ps_block := block, ps_fs := fs3\<rparr>"
    using assms no params table create start dump by (auto simp: Ps_CreateSpace_def status_def Let_def split: if_splits)
  have db: "sp_db_name (cs_space req) \<noteq> ''''" using dump ok0 by (auto simp: DumpCreateSpaceReq_def DbName_def split: if_splits)
  obtain b where b: "block = Some b" "bl_space b = cs_space req" "bl_group b = grp" "bl_root_path b = root"
    "bl_leader_term b = bl_leader_term (new_block :: 'a block)" "bl_node b \<noteq> None"
    using StartRaftServer_done [OF start] ok0 by metis
  have "runs cf req b"
    using b params db by (auto simp: runs_def GetRaftParams_def GetRaftRoot_def)
  then show ?thesis using that [of b fs2] no ps' b(1,5) dump ok0 db by (simp add: new_block_def)
qed


lemma Ps_CreateSpace_failure:
  assumes "Ps_CreateSpace lib cf req ps = (st, ps')" and "rs_code st \<noteq> Some 0" and "\<not> nm_has_space (ps_mata ps)"
  shows "ps_mata ps' = SetCreateSapceReq empty_create_space_request (SetCreateSapceReq req (ps_mata ps))"
  using assms by (auto simp: Ps_CreateSpace_def status_def Let_def split: if_splits prod.splits)

lemma Ps_CreateSpace_block:
  assumes "Ps_CreateSpace lib cf req ps = (st, ps')"
  shows "ps_block ps' = ps_block ps \<or> (\<exists>b. ps_block ps' = Some b \<and> bl_leader_term b = - 1)"
proof -
  obtain fs1 where "CreateBlock (sl_butil lib) (ps_block ps) (ps_fs ps) = ('''', Some new_block, fs1)" using CreateBlock_new by blast
  with assms have "ps_block ps' = ps_block ps \<or> (\<exists>tc root grp conf ip port space m fs2.
      StartRaftServer (sl_butil lib) (sl_braft lib) tc root grp conf ip port space (Some new_block) fs1 = (m, ps_block ps', fs2))"
    by (fastforce simp: Ps_CreateSpace_def Let_def split: if_splits prod.splits)
  then show ?thesis by (auto elim!: StartRaftServer_done simp: new_block_def)
qed

subsection \<open>Runs of a server\<close>

text \<open>
  One step of a server: a request that changes it, or a call braft makes on the state machine of a node
  that was started. Requests and calls come in any order.
\<close>

inductive ps_step :: "('n, 'g) ps_lib \<Rightarrow> conf \<Rightarrow> ('n, 'g) ps \<Rightarrow> ('n, 'g) ps \<Rightarrow> bool" for lib cf where
  create: "ps_step lib cf ps ps'" if "Ps_CreateSpace lib cf req ps = (st, ps')"
| delete: "ps_step lib cf ps ps'" if "Ps_DeleteSpace lib cf dreq ps = (st, ps')"
| mock_get: "ps_step lib cf ps ps'" if "Ps_MockGet mreq resp ps = Some (resp', ps')"
| elected: "ps_step lib cf ps (ps\<lparr>ps_block := Some (on_leader_start tm b)\<rparr>)" if "ps_block ps = Some b" "bl_node b \<noteq> None" "0 < tm"
| stepped_down: "ps_step lib cf ps (ps\<lparr>ps_block := Some (on_leader_stop b)\<rparr>)" if "ps_block ps = Some b"
| applied: "ps_step lib cf ps (ps\<lparr>ps_gamma := g\<rparr>)"
    if "ps_block ps = Some b" "on_apply (sl_order lib) (sl_protobuf lib) (sl_gamma lib) (bl_space b) es (ps_gamma ps) = Some (ok, rs, g)"
| snapshot_loaded: "ps_step lib cf ps (ps\<lparr>ps_engine := en, ps_fs := fs\<rparr>)"
    if "ps_block ps = Some b" "on_snapshot_load (sl_butil lib) path b (ps_engine ps) (ps_fs ps) = Some (rc, en, fs)"

inductive ps_reachable :: "('n, 'g) ps_lib \<Rightarrow> conf \<Rightarrow> ('n, 'g) ps \<Rightarrow> bool" for lib cf where
  fresh: "ps_reachable lib cf ps" if "ps_block ps = None" "\<not> nm_has_space (ps_mata ps)" "DbName (ps_mata ps) = ''''"
| later: "ps_reachable lib cf ps'" if "ps_reachable lib cf ps" "ps_step lib cf ps ps'"

definition ps_inv :: "conf \<Rightarrow> ('n, 'g) ps \<Rightarrow> bool" where
  "ps_inv cf ps \<longleftrightarrow>
     (DbName (ps_mata ps) \<noteq> '''' \<longrightarrow> nm_has_space (ps_mata ps) \<and> (\<exists>b. ps_block ps = Some b \<and> runs cf (nm_space_req (ps_mata ps)) b)) \<and>
     (\<forall>b. ps_block ps = Some b \<longrightarrow> leader_ok b)"

lemma Ps_CreateSpace_inv:
  assumes "ps_inv cf ps" and "Ps_CreateSpace lib cf req ps = (st, ps')"
  shows "ps_inv cf ps'"
proof -
  have leader: "\<forall>b. ps_block ps' = Some b \<longrightarrow> leader_ok b"
    using Ps_CreateSpace_block [OF assms(2)] assms(1) by (auto simp: ps_inv_def leader_ok_def)
  consider "nm_has_space (ps_mata ps)" | "rs_code st = Some 0" | "\<not> nm_has_space (ps_mata ps)" "rs_code st \<noteq> Some 0" by blast
  then show ?thesis
  proof cases
    case 1
    with assms show ?thesis by (auto simp: Ps_CreateSpace_def)
  next
    case 2
    then show ?thesis
      by (rule Ps_CreateSpace_success [OF assms(2)]) (use leader in \<open>auto simp: ps_inv_def\<close>)
  next
    case 3
    from Ps_CreateSpace_failure [OF assms(2) 3(2,1)] leader show ?thesis by (simp add: ps_inv_def DbName_def)
  qed
qed

lemma Ps_DeleteSpace_inv:
  assumes "ps_inv cf ps" and "Ps_DeleteSpace lib cf req ps = (st, ps')"
  shows "ps_inv cf ps'"
  using assms
  by (auto simp: Ps_DeleteSpace_def ps_inv_def LocalStorager_DeleteSpace_def NodeMata_DeleteSpace_def DeleteBlock_def DbName_def Let_def
      split: if_splits option.splits)

lemma ps_step_inv: "ps_step lib cf ps ps' \<Longrightarrow> ps_inv cf ps \<Longrightarrow> ps_inv cf ps'"
proof (induction rule: ps_step.induct)
  case (create req ps st ps')
  then show ?case using Ps_CreateSpace_inv by blast
next
  case (delete dreq ps st ps')
  then show ?case using Ps_DeleteSpace_inv by blast
next
  case (mock_get mreq resp ps resp' ps')
  then show ?case by (auto simp: Ps_MockGet_def bind_eq_Some_conv ps_inv_def)
qed (auto simp: ps_inv_def runs_def on_leader_start_def on_leader_stop_def leader_ok_def)

lemma ps_reachable_inv: "ps_reachable lib cf ps \<Longrightarrow> ps_inv cf ps"
proof (induction rule: ps_reachable.induct)
  case (fresh ps)
  then show ?case by (simp add: ps_inv_def)
qed (rule ps_step_inv)



subsection \<open>Failed creations\<close>

text \<open>C40: a creation that failed is not undone. The server keeps claiming a space: it refuses every later
  creation, and it refuses to delete the space by its name.\<close>

theorem Ps_CreateSpace_failure_sticks:
  assumes "\<not> nm_has_space (ps_mata ps)" and "sp_db_name (cs_space req) \<noteq> ''''"
    and "Ps_CreateSpace lib cf req ps = (st, ps')" and "rs_code st \<noteq> Some 0"
  shows "Ps_CreateSpace lib cf req' ps' = (status 201 ''Space has exist, space_name:'', ps') \<and>
    (str_or (dsq_db_name dreq) \<noteq> '''' \<longrightarrow> Ps_DeleteSpace lib cf dreq ps' = (status 201 ''db_name and space_name is not exist.'', ps'))"
  using Ps_CreateSpace_failure [OF assms(3,4,1)] assms(2)
  by (simp add: Ps_CreateSpace_def Ps_DeleteSpace_def DbName_def SpaceName_def)

subsection \<open>Deleting\<close>

text \<open>C7: deleting the space that was created undoes the creation: the server has no replica and no space,
  the engine was closed, the node is what it was, and a space can be created again.\<close>

theorem Ps_create_delete:
  assumes "Ps_CreateSpace lib cf req ps = (st, ps1)" and "rs_code st = Some 0"
    and "str_or (dsq_db_name dreq) = sp_db_name (cs_space req)" and "str_or (dsq_space_name dreq) = sp_space_name (cs_space req)"
  shows "\<exists>ps2. Ps_DeleteSpace lib cf dreq ps1 = (status 0 '''', ps2) \<and> ps_block ps2 = None \<and>
    ps_mata ps2 = (ps_mata ps)\<lparr>nm_space_req := empty_create_space_request\<rparr> \<and>
    ps_gamma ps2 = gamma_Close (sl_gamma lib) (ps_gamma ps1) \<and> \<not> nm_has_space (ps_mata ps2)"
proof -
  have no: "\<not> nm_has_space (ps_mata ps)" and mata: "ps_mata ps1 = SetCreateSapceReq req (ps_mata ps)"
    by (rule Ps_CreateSpace_success [OF assms(1,2)], simp)+
  have "DbName (ps_mata ps1) = str_or (dsq_db_name dreq)" "SpaceName (ps_mata ps1) = str_or (dsq_space_name dreq)"
    using assms(3,4) mata by (simp_all add: DbName_def SpaceName_def)
  moreover have "(ps_mata ps1)\<lparr>nm_space_req := empty_create_space_request, nm_has_space := False\<rparr> =
      (ps_mata ps)\<lparr>nm_space_req := empty_create_space_request\<rparr>"
    using no mata by (simp add: SetCreateSapceReq_def Let_def)
  moreover obtain fs where "DeleteBlock (sl_butil lib) (ps_block ps1) (ps_fs ps1) = ('''', None, fs)"
    by (cases "ps_block ps1") (simp_all add: DeleteBlock_def)
  ultimately show ?thesis
    using no by (simp add: Ps_DeleteSpace_def LocalStorager_DeleteSpace_def NodeMata_DeleteSpace_def)
qed

subsection \<open>Restarting\<close>

lemma ofstream_put_room:
  assumes "ofstream_open p fs = Some fs1" and "0 < fs_room (ofstream_put p t fs1)"
  shows "ifstream_read p (ofstream_put p t fs1) = Some t"
  using assms
  by (auto simp: ofstream_open_def ofstream_put_def ifstream_read_def create_file_def node_at_def update_conv' Let_def min_def
      split: if_splits option.splits node.splits)

text \<open>What a later start needs of the disk: the file with the information on the node, and room left.\<close>

definition restartable :: "('n, 'g) ps_lib \<Rightarrow> string \<Rightarrow> ('n, 'g) ps \<Rightarrow> bool" where
  "restartable lib dir ps \<longleftrightarrow> at_dir dir (ps_mata ps) \<and> node_at (ps_fs ps) dir \<noteq> None \<and> 0 < fs_room (ps_fs ps) \<and>
     (case ifstream_read (dir @ ''/node_info.json'') (ps_fs ps) of
        None \<Rightarrow> False
      | Some json \<Rightarrow> mk_info_from (sl_mata lib) json empty_node_info = (True, nm_ps_node_info (ps_mata ps)))"

lemma Ps_CreateSpace_found:
  assumes "butil_spec (sl_butil lib)" and "req_reads_back (sl_mata lib) req" and "Ps_CreateSpace lib cf req ps = (st, ps1)"
    and "rs_code st = Some 0" and "restartable lib dir ps1"
  shows "NodeMata_Init (sl_butil lib) (sl_mata lib) dir new_node_mata (ps_fs ps1) = (True, ps_mata ps1, ps_fs ps1)"
proof -
  obtain fs where mata: "ps_mata ps1 = SetCreateSapceReq req (ps_mata ps)"
    and dump: "DumpCreateSpaceReq (sl_mata lib) (ps_mata ps1) fs = ('''', ps_fs ps1)" and db: "sp_db_name (cs_space req) \<noteq> ''''"
    by (rule Ps_CreateSpace_success [OF assms(3,4)])
  have req: "nm_space_req (ps_mata ps1) = req" "nm_has_space (ps_mata ps1)" using mata db by simp_all
  have files: "nm_node_info_file (ps_mata ps1) = dir @ ''/node_info.json''"
    "nm_space_schema_file (ps_mata ps1) = dir @ ''/create_space_req.json''" "nm_dir_path (ps_mata ps1) = dir"
    using assms(5) by (simp_all add: restartable_def at_dir_def)
  obtain json where json: "ifstream_read (dir @ ''/node_info.json'') (ps_fs ps1) = Some json"
    "mk_info_from (sl_mata lib) json empty_node_info = (True, nm_ps_node_info (ps_mata ps1))"
    using assms(5) by (auto simp: restartable_def split: option.splits)
  obtain fs1 where "ofstream_open (dir @ ''/create_space_req.json'') fs = Some fs1"
    "ps_fs ps1 = ofstream_put (dir @ ''/create_space_req.json'') (snd (mk_req_to (sl_mata lib) req)) fs1"
    using DumpCreateSpaceReq_written [OF dump] files req by auto
  then have "ifstream_read (dir @ ''/create_space_req.json'') (ps_fs ps1) = Some (snd (mk_req_to (sl_mata lib) req))"
    using ofstream_put_room assms(5) by (auto simp: restartable_def)
  moreover have "PathExists (sl_butil lib) dir (ps_fs ps1)" using butil_exists(1) [OF assms(1)] assms(5) by (simp add: restartable_def)
  ultimately show ?thesis
    using assms(2) json files req
    by (simp add: NodeMata_Init_def load_space_def new_node_mata_def req_reads_back_def Let_def)
qed


subsection \<open>A concrete server\<close>

definition demo_ps_lib :: "(unit, gamma_field list list) ps_lib" where
  "demo_ps_lib = \<lparr>sl_butil = demo_butil, sl_braft = demo_braft, sl_gamma = demo_gamma, sl_mata = demo_mata_codec, sl_protobuf = demo_pb, sl_order = demo_no\<rparr>"

lemma demo_ps_lib_simps [simp]:
  "sl_butil demo_ps_lib = demo_butil" "sl_braft demo_ps_lib = demo_braft" "sl_gamma demo_ps_lib = demo_gamma" "sl_mata demo_ps_lib = demo_mata_codec"
  "sl_protobuf demo_ps_lib = demo_pb" "sl_order demo_ps_lib = demo_no"
  by (simp_all add: demo_ps_lib_def)

definition demo_ps :: "(unit, gamma_field list list) ps" where
  "demo_ps = \<lparr>ps_mata = demo_mata\<lparr>nm_space_req := empty_create_space_request\<rparr>, ps_block = None, ps_gamma = [], ps_engine = new_engine, ps_fs = demo_info_fs\<rparr>"

definition demo_block_fs :: file_system where
  "demo_block_fs = snd (new_fd 2 (create_file ''d/g/data'' (demo_info_fs\<lparr>fs_nodes := AList.update ''d/g'' Directory (fs_nodes demo_info_fs)\<rparr>)))"

lemma demo_block_fs_nodes:
  "fs_nodes demo_block_fs = [(''d'', Directory), (''d/x'', Regular 0), (''s'', Directory), (''s/node_info.json'', Regular 1), (''d/g'', Directory), (''d/g/data'', Regular 2)]"
  "fs_next demo_block_fs = 3" "fs_room demo_block_fs = 999" "\<And>p. fs_denied demo_block_fs p = False" "fs_data demo_block_fs 1 = ''i''"
  by (simp_all add: demo_block_fs_def new_fd_def create_file_def demo_info_fs_nodes Let_def)
    (simp add: demo_info_fs_def ofstream_put_def create_file_def demo_fs_def node_at_def Let_def)

lemma demo_raft_started:
  "StartRaftServer demo_butil demo_braft (cf_toml demo_conf) ''d/g'' ''g'' (GetRaftConf p) ''h'' 81 space (Some new_block) demo_info_fs =
     ('''', Some (new_block\<lparr>bl_root_path := ''d/g'', bl_group := ''g'', bl_conf := GetRaftConf p, bl_port := 81, bl_check_term := True,
        bl_space := space, bl_fd := Some (lowest_fd (fs_fds demo_info_fs)), bl_node := Some ()\<rparr>), demo_block_fs)"
proof -
  have "fs_fds demo_info_fs = [(0, \<lparr>of_inode = 0, of_pos = 0\<rparr>)]" by (simp add: demo_info_fs_def ofstream_put_def create_file_def demo_fs_def node_at_def Let_def)
  then have "lowest_fd (fs_fds demo_info_fs) = 1" by (simp add: lowest_fd_def)
  then show ?thesis
    by (simp add: StartRaftServer_def Block_start_def demo_butil_def demo_braft_def sys_open_def node_at_def is_dir_def dirname_def
        demo_info_fs_nodes demo_block_fs_def new_fd_def create_file_def release_fd_def new_block_def Let_def)
qed

definition demo_created :: "(unit, gamma_field list list) ps" where
  "demo_created = snd (Ps_CreateSpace demo_ps_lib demo_conf demo_create_req demo_ps)"

lemma demo_create: "Ps_CreateSpace demo_ps_lib demo_conf demo_create_req demo_ps = (status 0 '''', demo_created)"
  "ps_fs demo_created = ofstream_put ''s/create_space_req.json'' ''r'' (create_file ''s/create_space_req.json'' demo_block_fs)"
  "ps_mata demo_created = SetCreateSapceReq demo_create_req (ps_mata demo_ps)"
proof -
  let ?mata = "SetCreateSapceReq demo_create_req (ps_mata demo_ps)"
  have has: "\<not> nm_has_space (ps_mata demo_ps)" "nm_has_space ?mata" "nm_space_req ?mata = demo_create_req" "DbName ?mata = ''db''"
    "nm_space_schema_file ?mata = ''s/create_space_req.json''" "ni_ps_ip (nm_ps_node_info ?mata) = ''h''"
    by (simp_all add: demo_ps_def demo_mata_def demo_create_req_def DbName_def demo_info_def)
  have params: "GetRaftParams demo_conf ?mata ('''', '''', '''', 0) = (True, ''d/g'', ''g'', GetRaftConf (cs_cur_partition demo_create_req), 81)"
    using has by (simp add: GetRaftParams_def GetRaftRoot_def demo_conf_def demo_ps_toml_def) (simp add: demo_create_req_def)
  have block: "CreateBlock demo_butil (ps_block demo_ps) (ps_fs demo_ps) = ('''', Some new_block, demo_info_fs)"
    by (simp add: CreateBlock_def DeleteBlock_def demo_ps_def)
  have dump: "DumpCreateSpaceReq demo_mata_codec ?mata demo_block_fs =
      ('''', ofstream_put ''s/create_space_req.json'' ''r'' (create_file ''s/create_space_req.json'' demo_block_fs))"
    using has demo_fs_dir(5)
    by (simp add: DumpCreateSpaceReq_def demo_mata_codec_def ofstream_open_def node_at_def is_dir_def demo_block_fs_nodes)
  show "Ps_CreateSpace demo_ps_lib demo_conf demo_create_req demo_ps = (status 0 '''', demo_created)"
    "ps_fs demo_created = ofstream_put ''s/create_space_req.json'' ''r'' (create_file ''s/create_space_req.json'' demo_block_fs)"
    "ps_mata demo_created = ?mata"
    using has params block demo_raft_started dump by (simp_all add: demo_created_def Ps_CreateSpace_def demo_gamma_def Let_def)
qed

lemma demo_ps_fresh: "ps_reachable demo_ps_lib demo_conf demo_ps"
  by (rule ps_reachable.fresh) (simp_all add: demo_ps_def demo_mata_def DbName_def)

lemma demo_created_reachable: "ps_reachable demo_ps_lib demo_conf demo_created"
  by (rule ps_reachable.later [OF demo_ps_fresh ps_step.create [OF demo_create(1)]])



definition demo_failing_lib :: "(unit, gamma_field list list) ps_lib" where
  "demo_failing_lib = demo_ps_lib\<lparr>sl_gamma := demo_gamma\<lparr>CreateTable := (\<lambda>_ g. ((1, ''no''), g))\<rparr>\<rparr>"

theorem Ps_CreateSpace_failure_sticks_witness:
  "\<exists>ps'. snd (Ps_CreateSpace demo_failing_lib demo_conf demo_create_req demo_ps) = ps' \<and>
     Ps_CreateSpace demo_failing_lib demo_conf demo_create_req ps' = (status 201 ''Space has exist, space_name:'', ps')"
proof -
  obtain st ps' where run: "Ps_CreateSpace demo_failing_lib demo_conf demo_create_req demo_ps = (st, ps')" by (rule prod.exhaust)
  have pre: "\<not> nm_has_space (ps_mata demo_ps)" "sp_db_name (cs_space demo_create_req) \<noteq> ''''"
    by (simp_all add: demo_ps_def demo_mata_def demo_create_req_def)
  have "rs_code st \<noteq> Some 0"
    using run pre(1) by (auto simp: Ps_CreateSpace_def demo_failing_lib_def status_def Let_def split: prod.splits)
  from Ps_CreateSpace_failure_sticks [OF pre run this] run show ?thesis by simp
qed

theorem Ps_create_delete_witness:
  "\<exists>ps2. Ps_DeleteSpace demo_ps_lib demo_conf \<lparr>dsq_db_name = Some ''db'', dsq_space_name = Some ''sp''\<rparr> demo_created = (status 0 '''', ps2) \<and>
     ps_block ps2 = None"
proof -
  have "rs_code (status 0 '''') = Some 0" by (simp add: status_def)
  from Ps_create_delete [OF demo_create(1) this, of "\<lparr>dsq_db_name = Some ''db'', dsq_space_name = Some ''sp''\<rparr>"]
  show ?thesis by (auto simp: demo_create_req_def)
qed

lemma demo_created_restartable: "restartable demo_ps_lib ''s'' demo_created" "IsLoadFromFile (ps_mata demo_created)"
proof -
  show "restartable demo_ps_lib ''s'' demo_created" "IsLoadFromFile (ps_mata demo_created)"
    by (simp_all add: restartable_def at_dir_def IsLoadFromFile_def demo_create(2,3) demo_info_def)
      (simp_all add: ofstream_put_def create_file_def node_at_def ifstream_read_def demo_block_fs_nodes demo_create(3) demo_ps_def demo_mata_def demo_mata_codec_def demo_info_def)
qed

end
