(* ===== verification/Ps_Register.thy ===== *)
theory Ps_Register
  imports Etcd_Client Config
begin

text \<open>
  The registration of a partition server, \<open>service/ps/ps_register.h\<close> and
  \<open>service/ps/ps_register.cc\<close>: the node asks the master for its key and then keeps that key alive
  in etcd. A node without a space waits for the outcome and gives up when it is refused; one with
  a space tries again every five seconds, in the background, until the master takes it. That loop
  may run forever: it is a partial function, and \<open>None\<close> is the run that does not end.
\<close>

subsection \<open>State\<close>

record register_request =
  rq_ip :: string
  rq_port :: int
  rq_id :: int

record register_response =
  rp_code :: int
  rp_text :: string
  rp_register_key :: string

record register_codec =
  rk_to :: "register_request to_json"
  rk_from :: "register_response from_json"

record ps_register =
  pr_etcd_cli :: etcd_client
  pr_ip :: string
  pr_port :: int
  pr_id :: int
  pr_node_K :: string
  pr_node_V :: string

definition new_ps_register :: ps_register where
  "new_ps_register = \<lparr>pr_etcd_cli = new_etcd_client, pr_ip = '''', pr_port = 0, pr_id = 0, pr_node_K = '''', pr_node_V = ''''\<rparr>"

record launch_args =
  la_has_space :: bool
  la_val :: string
  la_req :: register_request

definition PsRegister_Init :: "'w network \<Rightarrow> toml_config \<Rightarrow> string \<Rightarrow> int \<Rightarrow> int \<Rightarrow> ps_register \<Rightarrow> 'w \<Rightarrow> int \<times> ps_register \<times> 'w" where
  "PsRegister_Init net toml ip port node_id pr w =
     (let pr1 = pr\<lparr>pr_ip := ip, pr_port := port, pr_id := node_id, pr_node_V := to_string port\<rparr>;
          (ok, ec, w1) = EtcdClient_Init net (GetMasterIpPorts toml) ''rr'' (pr_etcd_cli pr1) w
      in (if \<not> ok then - 1 else 0, pr1\<lparr>pr_etcd_cli := ec\<rparr>, w1))"

subsection \<open>The thread\<close>

definition empty_register_response :: register_response where
  "empty_register_response = \<lparr>rp_code = 0, rp_text = '''', rp_register_key = ''''\<rparr>"

text \<open>One attempt: the key the master gave, or \<open>None\<close> when it was not reached or refused.\<close>

definition attempt :: "'w network \<Rightarrow> register_codec \<Rightarrow> toml_config \<Rightarrow> register_request \<Rightarrow> 'w \<Rightarrow> (string option \<times> 'w) ub" where
  "attempt net rk toml req w = do {
     (ok, resp, w1) \<leftarrow> HttpPost net (rk_to rk) (rk_from rk) (tc_master_urls toml) ''/api/register'' req empty_register_response
       (int (length (tc_master_urls toml)) * 2) w;
     Some (if ok = 0 \<and> rp_code resp = 0 then Some (rp_register_key resp) else None, w1)
   }"

text \<open>The loop: the key, or \<open>None\<close> for a node without a space that was refused.\<close>

partial_function (option) register_loop :: "'w network \<Rightarrow> register_codec \<Rightarrow> toml_config \<Rightarrow> launch_args \<Rightarrow> 'w \<Rightarrow> (string option \<times> 'w) option" where
  "register_loop net rk toml la w = do {
     (key, w1) \<leftarrow> attempt net rk toml (la_req la) w;
     if key \<noteq> None then Some (key, w1)
     else if \<not> la_has_space la then Some (None, w1)
     else register_loop net rk toml la (sleep net 5 w1)
   }"

text \<open>The result is the code, the arguments of the thread that keeps the key alive, and the changed object.\<close>

definition LaunchRegisterImpl :: "'w network \<Rightarrow> register_codec \<Rightarrow> bool \<Rightarrow> toml_config \<Rightarrow> launch_args \<Rightarrow> ps_register \<Rightarrow> 'w
    \<Rightarrow> (int \<times> keep_alive_args option \<times> ps_register \<times> 'w) ub" where
  "LaunchRegisterImpl net rk started toml la pr w = do {
     (key, w1) \<leftarrow> register_loop net rk toml la w;
     Some (case key of
       None \<Rightarrow> (- 100, None, pr, w1)
     | Some k \<Rightarrow>
         let (res_code, args, ec) = RegisterNodeWithKeepAlive started k (la_val la) (pc_hearbeat_interval_s (tc_ps toml)) (pr_etcd_cli pr)
         in (res_code, args, pr\<lparr>pr_node_K := k, pr_etcd_cli := ec\<rparr>, w1))
   }"

definition launch_args_of :: "bool \<Rightarrow> ps_register \<Rightarrow> launch_args" where
  "launch_args_of has_space pr =
     \<lparr>la_has_space = has_space, la_val = pr_node_V pr, la_req = \<lparr>rq_ip = pr_ip pr, rq_port = pr_port pr, rq_id = pr_id pr\<rparr>\<rparr>"

text \<open>
  Starting the thread. A node without a space joins it; otherwise the thread stays behind, and what
  it will do is \<open>LaunchRegisterImpl\<close> on the arguments returned (that \<open>bthread\<close> starts it is taken for granted,
  as the code does). The code of the thread is an
  \<open>int64_t\<close> returned as an \<open>int\<close>.
\<close>

definition PsRegister_LaunchRegister :: "'w network \<Rightarrow> register_codec \<Rightarrow> bool \<Rightarrow> toml_config \<Rightarrow> bool \<Rightarrow> ps_register \<Rightarrow> 'w
    \<Rightarrow> (int \<times> launch_args option \<times> keep_alive_args option \<times> ps_register \<times> 'w) ub" where
  "PsRegister_LaunchRegister net rk started toml has_space pr w =
     (let la = launch_args_of has_space pr
      in if \<not> has_space then do {
           (ret_code, args, pr1, w1) \<leftarrow> LaunchRegisterImpl net rk started toml la pr w;
           Some (int32_of ret_code, None, args, pr1, w1)
         } else Some (0, Some la, None, pr, w))"

subsection \<open>A node without a space\<close>

lemma LaunchRegister_refused:
  assumes "attempt net rk toml (la_req (launch_args_of False pr)) w = Some (None, w')"
  shows "PsRegister_LaunchRegister net rk started toml False pr w = Some (- 100, None, None, pr, w')"
proof -
  have "register_loop net rk toml (launch_args_of False pr) w = Some (None, w')"
    using assms by (simp add: register_loop.simps [of net rk toml "launch_args_of False pr"]) (simp add: launch_args_of_def)
  moreover have "int32_of (- 100) = - 100" by (simp add: width_simps is_int32_def)
  ultimately show ?thesis by (simp add: PsRegister_LaunchRegister_def LaunchRegisterImpl_def)
qed

lemma LaunchRegister_accepted:
  assumes "attempt net rk toml (la_req (launch_args_of False pr)) w = Some (Some k, w')"
  shows "PsRegister_LaunchRegister net rk True toml False pr w =
    Some (0, None, Some \<lparr>ka_key = k, ka_val = pr_node_V pr, ka_interval_sec = pc_hearbeat_interval_s (tc_ps toml)\<rparr>,
          pr\<lparr>pr_node_K := k, pr_etcd_cli := (pr_etcd_cli pr)\<lparr>ec_running := True\<rparr>\<rparr>, w')"
proof -
  have "register_loop net rk toml (launch_args_of False pr) w = Some (Some k, w')"
    using assms by (simp add: register_loop.simps [of net rk toml "launch_args_of False pr"])
  moreover have "int32_of 0 = 0" by (simp add: width_simps is_int32_def)
  ultimately show ?thesis
    by (simp add: PsRegister_LaunchRegister_def LaunchRegisterImpl_def RegisterNodeWithKeepAlive_def) (simp add: launch_args_of_def)
qed

subsection \<open>A node with a space\<close>

text \<open>The attempts that failed one after the other, and the world after the last of them.\<close>

inductive retried :: "'w network \<Rightarrow> register_codec \<Rightarrow> toml_config \<Rightarrow> register_request \<Rightarrow> nat \<Rightarrow> 'w \<Rightarrow> 'w \<Rightarrow> bool"
  for net rk toml req where
  retried_0: "retried net rk toml req 0 w w"
| retried_Suc: "attempt net rk toml req w = Some (None, w1) \<Longrightarrow> retried net rk toml req n (sleep net 5 w1) w2 \<Longrightarrow>
    retried net rk toml req (Suc n) w w2"

lemma register_loop_retried:
  assumes "retried net rk toml (la_req la) n w w2" and "la_has_space la"
  shows "register_loop net rk toml la w = register_loop net rk toml la w2"
  using assms
  by (induction rule: retried.induct) (simp_all add: register_loop.simps [of net rk toml la])

text \<open>C39: a node with a space keeps trying: whatever number of attempts fail, once the master takes it the loop
  ends, with the key the master gave, and keeps it alive.\<close>

theorem LaunchRegisterImpl_persists:
  assumes "la_has_space la" and "retried net rk toml (la_req la) n w w1" and "attempt net rk toml (la_req la) w1 = Some (Some k, w2)"
  shows "LaunchRegisterImpl net rk True toml la pr w =
    Some (0, Some \<lparr>ka_key = k, ka_val = la_val la, ka_interval_sec = pc_hearbeat_interval_s (tc_ps toml)\<rparr>,
          pr\<lparr>pr_node_K := k, pr_etcd_cli := (pr_etcd_cli pr)\<lparr>ec_running := True\<rparr>\<rparr>, w2)"
proof -
  have "register_loop net rk toml la w = Some (Some k, w2)"
    using register_loop_retried [OF assms(2,1)] assms(3) by (simp add: register_loop.simps [of net rk toml la w1])
  then show ?thesis by (simp add: LaunchRegisterImpl_def RegisterNodeWithKeepAlive_def)
qed

subsection \<open>A concrete registration\<close>

text \<open>A master that is down until the node has slept once.\<close>

definition demo_sleepy :: "nat network" where
  "demo_sleepy =
     \<lparr>channel_init = (\<lambda>_ w. (True, w)), rpc_get = (\<lambda>_ _ w. (Inl ''down'', w)), rpc_write = (\<lambda>_ _ _ w. (Inl ''down'', w)),
      rpc_search = (\<lambda>_ w. (Inl ''down'', w)), rpc_mock_get = (\<lambda>_ _ w. (Inl ''down'', w)), http_init = (\<lambda>_ _ w. (True, w)),
      http_call = (\<lambda>_ _ body w. (if w = 0 then Inl ''down'' else Inr body, w)), rand = (\<lambda>lo hi w. (lo, w)),
      sleep = (\<lambda>_ w. Suc w), select_leader = (\<lambda>_ w. None), refresh_leader = (\<lambda>_ w. (False, w)), update_leader = (\<lambda>_ _ w. w),
      update_configuration = (\<lambda>_ _ w. (0, w)), IsAskedToQuit = (\<lambda>_. False)\<rparr>"

definition demo_register_codec :: register_codec where
  "demo_register_codec = \<lparr>rk_to = (\<lambda>_. (True, ''q'')),
     rk_from = (\<lambda>_ _. (True, \<lparr>rp_code = 0, rp_text = '''', rp_register_key = ''/nodes/ps/1''\<rparr>))\<rparr>"

definition demo_one_master :: toml_config where
  "demo_one_master = empty_config\<lparr>tc_master_urls := [''B'']\<rparr>"

lemma demo_attempt:
  "attempt demo_sleepy demo_register_codec demo_one_master req 0 = Some (None, 0)"
  "attempt demo_sleepy demo_register_codec demo_one_master req (Suc 0) = Some (Some ''/nodes/ps/1'', Suc 0)"
  by (simp_all add: attempt_def HttpPost_def random_int_def GenRandomInt_def demo_sleepy_def demo_register_codec_def demo_one_master_def
      at_ub_def empty_config_def eval_nat_numeral)

theorem LaunchRegisterImpl_persists_witness:
  "\<exists>pr'. LaunchRegisterImpl demo_sleepy demo_register_codec True demo_one_master (launch_args_of True new_ps_register) new_ps_register 0 =
     Some (0, Some \<lparr>ka_key = ''/nodes/ps/1'', ka_val = '''', ka_interval_sec = pc_hearbeat_interval_s (tc_ps demo_one_master)\<rparr>, pr', Suc 0)"
proof -
  let ?la = "launch_args_of True new_ps_register"
  have "retried demo_sleepy demo_register_codec demo_one_master (la_req ?la) (Suc 0) 0 (Suc 0)"
    using retried.retried_Suc [OF demo_attempt(1) retried.retried_0] by (simp add: demo_sleepy_def)
  from LaunchRegisterImpl_persists [OF _ this demo_attempt(2), of new_ps_register] show ?thesis
    by (simp add: launch_args_of_def new_ps_register_def)
qed

end
