(* ===== verification/Ps_Server.thy ===== *)
theory Ps_Server
  imports Ps_Rpc Ps_Register Server_Lib
begin

text \<open>
  The process of a partition server: its brpc server (\<open>service/ps/brpc_server.cc\<close>) and \<open>main\<close>
  (\<open>service/ps_main.cc\<close>). While \<open>main\<close> waits for the signal to quit, the requests are those of theory
  \<open>Ps_Rpc\<close>; setting up the log is left out.
\<close>

subsection \<open>The brpc server\<close>

definition BrpcServer_Start :: "'w server_lib \<Rightarrow> int \<Rightarrow> 'w \<Rightarrow> msg \<times> 'w" where
  "BrpcServer_Start sv rpc_port w =
     (let (r, w1) = add_service sv ''PsRpcImpl'' '''' w
      in if r \<noteq> 0 then (''Fail to add PsRpcImpl service'', w1)
         else let (r, w2) = add_service sv ''RaftRpcImpl'' '''' w1
              in if r \<noteq> 0 then (''Fail to add RaftRpcImpl'', w2)
                 else let (r, w3) = add_raft_service sv rpc_port w2
                      in if r \<noteq> 0 then (''Fail to add raft service'', w3)
                         else let (r, w4) = server_start sv rpc_port w3
                              in if r \<noteq> 0 then (''Fail to start PrRpcImpl Server'', w4) else ('''', w4))"

definition BrpcServer_WaitBrpcStop :: "'w network \<Rightarrow> 'w server_lib \<Rightarrow> 'n braft \<Rightarrow> ('n, 'g) ps \<Rightarrow> 'w \<Rightarrow> (('n, 'g) ps \<times> 'w) ub" where
  "BrpcServer_WaitBrpcStop net sv br ps w = do {
     w1 \<leftarrow> wait_quit net w;
     let block1 = map_option (Block_shutdown br) (ps_block ps);
     let w2 = server_stop sv w1;
     let block2 = map_option (Block_join br) block1;
     Some (ps\<lparr>ps_block := block2\<rparr>, server_join sv w2)
   }"

subsection \<open>The process\<close>

text \<open>Loading the space the disk has: \<open>false\<close> is the exit of the process.\<close>

definition ps_load :: "('n, 'g) ps_lib \<Rightarrow> conf \<Rightarrow> ('n, 'g) ps \<Rightarrow> bool \<times> ('n, 'g) ps" where
  "ps_load lib cf ps =
     (let mata = ps_mata ps
      in if nm_has_space mata then
           let (r, g) = gamma_Load (sl_gamma lib) (InitEngine (sl_gamma lib) (cf_engine_data_dir cf) (SpaceName mata) (ps_gamma ps))
           in if r \<noteq> 0 then (False, ps\<lparr>ps_gamma := g\<rparr>)
              else
                let (_, block, fs1) = CreateBlock (sl_butil lib) (ps_block ps) (ps_fs ps);
                    (_, root_path, grp, conf, port) = GetRaftParams cf mata ('''', '''', '''', 0);
                    (_, block1, fs2) = StartRaftServer (sl_butil lib) (sl_braft lib) (cf_toml cf) root_path grp conf
                      (ni_ps_ip (nm_ps_node_info mata)) port (cs_space (nm_space_req mata)) block fs1
                in (True, ps\<lparr>ps_gamma := g, ps_block := block1, ps_fs := fs2\<rparr>)
         else (True, ps))"

definition ps_boot :: "('n, 'g) ps_lib \<Rightarrow> 'w network \<Rightarrow> 'w server_lib \<Rightarrow> gen_id_codec \<Rightarrow> conf \<Rightarrow> ('n, 'g) ps \<Rightarrow> 'w
    \<Rightarrow> (bool \<times> ('n, 'g) ps \<times> 'w) ub" where
  "ps_boot lib net sv gk cf ps w = do {
     (node_id, mata, fs, w1) \<leftarrow> CreateOrLoadNodeMata (sl_butil lib) (sl_mata lib) gk net cf (cf_ps_storage_dir cf) (ps_mata ps) (ps_fs ps) w;
     let ps1 = ps\<lparr>ps_mata := mata, ps_fs := fs\<rparr>;
     if node_id \<le> 0 then Some (False, ps1, w1)
     else
       let (m, w2) = BrpcServer_Start sv (pc_rpc_port (tc_ps (cf_toml cf))) w1
       in if m \<noteq> '''' then Some (False, ps1, w2)
          else let (ok, ps2) = ps_load lib cf ps1 in Some (ok, ps2, w2)
   }"

text \<open>The result is the exit code, what the two background threads were started with, the state and the world.\<close>

definition ps_main :: "('v, 'w) process_lib \<Rightarrow> ('n, 'g) ps_lib \<Rightarrow> 'w network \<Rightarrow> gen_id_codec \<Rightarrow> register_codec \<Rightarrow> flags \<Rightarrow> conf
    \<Rightarrow> ('n, 'g) ps \<Rightarrow> 'w \<Rightarrow> (int \<times> launch_args option \<times> keep_alive_args option \<times> ('n, 'g) ps \<times> 'w) ub" where
  "ps_main pl lib net gk rk fl cf0 ps w = do {
     (_, cf, fs) \<leftarrow> InitConfig (pl_toml pl) (pl_butil pl) (pl_ifaddrs pl) (fl_ip fl) (fl_port fl) '''' (fl_conf fl) ''./logs'' cf0 (ps_fs ps);
     (ok, ps1, w1) \<leftarrow> ps_boot lib net (pl_server pl) gk cf (ps\<lparr>ps_fs := fs\<rparr>) w;
     if \<not> ok then Some (- 1, None, None, ps1, w1)
     else do {
       let info = nm_ps_node_info (ps_mata ps1);
       let (_, regist, w2) = PsRegister_Init net (cf_toml cf) (ni_ps_ip info) (ni_ps_port info) (int32_of (ni_ps_id info)) new_ps_register w1;
       (ret_code, la, ka, _, w3) \<leftarrow>
         PsRegister_LaunchRegister net rk (pl_thread_started pl) (cf_toml cf) (nm_has_space (ps_mata ps1)) regist w2;
       if ret_code = 0 then do {
         (ps2, w4) \<leftarrow> BrpcServer_WaitBrpcStop net (pl_server pl) (sl_braft lib) ps1 w3;
         Some (0, la, ka, ps2, w4)
       } else
         let (mata, fs1) = DeleteNodeInfo (sl_butil lib) (ps_mata ps1) (ps_fs ps1)
         in Some (0, la, ka, ps1\<lparr>ps_mata := mata, ps_fs := fs1\<rparr>, w3)
     }
   }"

subsection \<open>A created space survives a restart\<close>

lemma ps_load_space:
  assumes "nm_has_space (ps_mata ps)"
    and "fst (gamma_Load (sl_gamma lib) (InitEngine (sl_gamma lib) (cf_engine_data_dir cf) (SpaceName (ps_mata ps)) (ps_gamma ps))) = 0"
  shows "\<exists>ps' b. ps_load lib cf ps = (True, ps') \<and> ps_mata ps' = ps_mata ps \<and> ps_block ps' = Some b \<and>
    bl_space b = cs_space (nm_space_req (ps_mata ps)) \<and> bl_group b = pt_group_name (cs_cur_partition (nm_space_req (ps_mata ps))) \<and>
    bl_root_path b = GetRaftRoot cf (ps_mata ps)"
proof -
  let ?m = "ps_mata ps" and ?p = "cs_cur_partition (nm_space_req (ps_mata ps))"
  obtain g where g: "gamma_Load (sl_gamma lib) (InitEngine (sl_gamma lib) (cf_engine_data_dir cf) (SpaceName ?m) (ps_gamma ps)) = (0, g)"
    using assms(2) by (metis prod.collapse)
  obtain fs1 where create: "CreateBlock (sl_butil lib) (ps_block ps) (ps_fs ps) = ('''', Some new_block, fs1)" using CreateBlock_new by blast
  have params: "GetRaftParams cf ?m ('''', '''', '''', 0) =
      (True, GetRaftRoot cf ?m, pt_group_name ?p, GetRaftConf ?p, pc_rpc_port (tc_ps (cf_toml cf)))"
    using assms(1) by (simp add: GetRaftParams_def)
  obtain m block fs2 where start: "StartRaftServer (sl_butil lib) (sl_braft lib) (cf_toml cf) (GetRaftRoot cf ?m) (pt_group_name ?p) (GetRaftConf ?p)
      (ni_ps_ip (nm_ps_node_info ?m)) (pc_rpc_port (tc_ps (cf_toml cf))) (cs_space (nm_space_req ?m)) (Some new_block) fs1 = (m, block, fs2)"
    by (rule prod_cases3)
  obtain b where "block = Some b" "bl_space b = cs_space (nm_space_req ?m)" "bl_group b = pt_group_name ?p" "bl_root_path b = GetRaftRoot cf ?m"
    by (rule StartRaftServer_done [OF start])
  then show ?thesis using assms(1) g create params start by (simp add: ps_load_def Let_def)
qed


subsection \<open>A refused server\<close>

text \<open>A server without a space that the master refuses does not wait for requests: it forgets its node
  information and removes the file with it, so that a later start asks the master for a new id.\<close>

lemma ps_main_refused:
  assumes "butil_spec (sl_butil lib)"
    and "InitConfig (pl_toml pl) (pl_butil pl) (pl_ifaddrs pl) (fl_ip fl) (fl_port fl) '''' (fl_conf fl) ''./logs'' cf0 (ps_fs ps) = Some (r, cf, fs)"
    and "ps_boot lib net (pl_server pl) gk cf (ps\<lparr>ps_fs := fs\<rparr>) w = Some (True, ps1, w1)" and "\<not> nm_has_space (ps_mata ps1)"
    and "PsRegister_Init net (cf_toml cf) (ni_ps_ip (nm_ps_node_info (ps_mata ps1))) (ni_ps_port (nm_ps_node_info (ps_mata ps1)))
           (int32_of (ni_ps_id (nm_ps_node_info (ps_mata ps1)))) new_ps_register w1 = (r', regist, w2)"
    and "attempt net rk (cf_toml cf) (la_req (launch_args_of False regist)) w2 = Some (None, w3)"
    and "is_file (ps_fs ps1) (nm_node_info_file (ps_mata ps1))"
  shows "\<exists>ps2. ps_main pl lib net gk rk fl cf0 ps w = Some (0, None, None, ps2, w3) \<and> \<not> IsLoadFromFile (ps_mata ps2) \<and>
    node_at (ps_fs ps2) (nm_node_info_file (ps_mata ps1)) = None"
proof -
  have "PsRegister_LaunchRegister net rk (pl_thread_started pl) (cf_toml cf) False regist w2 = Some (- 100, None, None, regist, w3)"
    using assms(6) by (rule LaunchRegister_refused)
  moreover have "DeleteFile (sl_butil lib) (nm_node_info_file (ps_mata ps1)) False (ps_fs ps1) =
      (True, (ps_fs ps1)\<lparr>fs_nodes := AList.delete (nm_node_info_file (ps_mata ps1)) (fs_nodes (ps_fs ps1))\<rparr>)"
    using assms(1,7) by (simp add: butil_spec_def delete_spec_def)
  ultimately show ?thesis
    using assms(2-5)
    by (simp add: ps_main_def DeleteNodeInfo_def IsLoadFromFile_def empty_node_info_def node_at_def delete_conv')
qed


subsection \<open>A concrete restart\<close>

definition demo_server :: "string server_lib" where
  "demo_server = \<lparr>add_service = (\<lambda>_ _ w. (0, w)), add_raft_service = (\<lambda>_ w. (0, w)), server_start = (\<lambda>_ w. (0, w)), server_stop = id, server_join = id\<rparr>"


end
