(* ===== verification/Dynamic_Resource.thy ===== *)
theory Dynamic_Resource
  imports Rpc_Clients
begin

text \<open>
  Resources that are refreshed in the background, \<open>clients/dynamic_resource.h\<close>:
  \<open>DynamicResource\<close> keeps the last value of a resource in two buffers,
  \<open>DynamicResourceManager\<close> finds them by name, again in two maps.

  A resource is an object of the caller with a method that may throw: \<open>fetch r w\<close> is what
  \<open>get_resource\<close> of \<open>r\<close> gives in the world \<open>w\<close>, \<open>None\<close> for an exception. An operation that
  lets the exception through returns \<open>None\<close>. The clock readings, in nanoseconds, are
  arguments. The two maps of the manager share their resources, so the manager has a heap and the
  maps hold addresses. An \<open>unordered_map\<close> is an association list.
\<close>

type_synonym dict = "(string \<times> string) list"
type_synonym ('r, 'w) fetch = "'r \<Rightarrow> 'w \<Rightarrow> dict option \<times> 'w"

subsection \<open>One resource\<close>

record 'r dynamic_resource =
  dr_resourcePtr :: 'r
  dr_flushInterval :: int
  dr_twoBuffer :: "dict list"
  dr_idx :: int
  dr_updateTime :: int

definition getResource :: "('r, 'w) fetch \<Rightarrow> 'r \<Rightarrow> 'w \<Rightarrow> dict \<times> 'w" where
  "getResource fetch r w = (case fetch r w of (None, w1) \<Rightarrow> ([], w1) | (Some d, w1) \<Rightarrow> (d, w1))"

definition new_DynamicResource :: "('r, 'w) fetch \<Rightarrow> 'r \<Rightarrow> int \<Rightarrow> int \<Rightarrow> 'w \<Rightarrow> 'r dynamic_resource \<times> 'w" where
  "new_DynamicResource fetch r flushInterval now w =
     (let (d0, w1) = getResource fetch r w; (d1, w2) = getResource fetch r w1
      in (\<lparr>dr_resourcePtr = r, dr_flushInterval = flushInterval, dr_twoBuffer = [d0, d1], dr_idx = 0,
           dr_updateTime = now\<rparr>, w2))"

definition expired :: "'r dynamic_resource \<Rightarrow> int \<Rightarrow> bool" where
  "expired dr now \<longleftrightarrow> (now - dr_updateTime dr) div 1000000000 > dr_flushInterval dr"

definition updateResource :: "('r, 'w) fetch \<Rightarrow> int \<Rightarrow> 'r dynamic_resource \<Rightarrow> 'w \<Rightarrow> ('r dynamic_resource \<times> 'w) option" where
  "updateResource fetch now dr w =
     (if expired dr now then
        case fetch (dr_resourcePtr dr) w of
          (None, w1) \<Rightarrow> None
        | (Some newRes, w1) \<Rightarrow>
            (let newIdx = (dr_idx dr + 1) mod 2
             in if newRes \<noteq> [] then
                  map_option (\<lambda>b. (dr\<lparr>dr_twoBuffer := b, dr_idx := newIdx, dr_updateTime := now\<rparr>, w1))
                    (update_ub (dr_twoBuffer dr) newIdx newRes)
                else Some (dr, w1))
      else Some (dr, w))"

text \<open>The time is read once before the lock and once under it.\<close>

definition getResourceWrapper :: "('r, 'w) fetch \<Rightarrow> int \<Rightarrow> int \<Rightarrow> 'r dynamic_resource \<Rightarrow> 'w
    \<Rightarrow> (dict \<times> 'r dynamic_resource \<times> 'w) option" where
  "getResourceWrapper fetch now1 now2 dr w = do {
     (dr1, w1) \<leftarrow> (if expired dr now1 then updateResource fetch now2 dr w else Some (dr, w));
     d \<leftarrow> at_ub (dr_twoBuffer dr1) (dr_idx dr1);
     Some (d, dr1, w1)
   }"

subsection \<open>The manager\<close>

record 'r manager =
  mg_idx :: int
  mg_resourceMap :: "(string \<times> nat) list list"
  mg_heap :: "'r dynamic_resource list"
  mg_lastAddedTime :: int

definition new_manager :: "int \<Rightarrow> 'r manager" where
  "new_manager now = \<lparr>mg_idx = 0, mg_resourceMap = [[], []], mg_heap = [], mg_lastAddedTime = now\<rparr>"

definition copy_missing :: "(string \<times> nat) list \<Rightarrow> (string \<times> nat) list \<Rightarrow> (string \<times> nat) list" where
  "copy_missing src dst = foldl (\<lambda>m (key, val). if map_of m key = None then AList.update key val m else m) dst src"

text \<open>The four readings of the clock: in the constructor, in the wrapper before and under the lock, and at
  the end. Another one only decides whether the caller waits a little.\<close>

definition addDynamicResource :: "('r, 'w) fetch \<Rightarrow> string \<Rightarrow> 'r \<Rightarrow> int \<Rightarrow> int \<times> int \<times> int \<times> int \<Rightarrow> 'r manager \<Rightarrow> 'w
    \<Rightarrow> (bool \<times> 'r manager \<times> 'w) option" where
  "addDynamicResource fetch name r flushInterval ts mg w = do {
     let (t0, t1, t2, t3) = ts;
     let (dynRes, w1) = new_DynamicResource fetch r flushInterval t0 w;
     (res, dynRes1, w2) \<leftarrow> getResourceWrapper fetch t1 t2 dynRes w1;
     if res \<noteq> [] then do {
       let newIdx = (mg_idx mg + 1) mod 2;
       newMap \<leftarrow> at_ub (mg_resourceMap mg) newIdx;
       oldMap \<leftarrow> at_ub (mg_resourceMap mg) (mg_idx mg);
       let newMap1 = copy_missing oldMap (AList.update name (length (mg_heap mg)) newMap);
       Some (True, \<lparr>mg_idx = newIdx, mg_resourceMap = (mg_resourceMap mg)[nat newIdx := newMap1],
                    mg_heap = mg_heap mg @ [dynRes1], mg_lastAddedTime = t3\<rparr>, w2)
     } else Some (False, mg, w2)
   }"

definition getDynamicResource :: "('r, 'w) fetch \<Rightarrow> string \<Rightarrow> int \<Rightarrow> int \<Rightarrow> 'r manager \<Rightarrow> 'w
    \<Rightarrow> (dict \<times> 'r manager \<times> 'w) option" where
  "getDynamicResource fetch name now1 now2 mg w = do {
     cur \<leftarrow> at_ub (mg_resourceMap mg) (mg_idx mg);
     case map_of cur name of
       None \<Rightarrow> Some ([], mg, w)
     | Some a \<Rightarrow> do {
         dr \<leftarrow> at_ub (mg_heap mg) (int a);
         (d, dr1, w1) \<leftarrow> getResourceWrapper fetch now1 now2 dr w;
         Some (d, mg\<lparr>mg_heap := (mg_heap mg)[a := dr1]\<rparr>, w1)
       }
   }"

definition MyResource_get_resource :: "int \<Rightarrow> dict" where
  "MyResource_get_resource t = [(''msg'', ''hello from MyResource''), (''time'', to_string t)]"

subsection \<open>Buffers of a resource\<close>

definition resource_ok :: "'r dynamic_resource \<Rightarrow> bool" where
  "resource_ok dr \<longleftrightarrow> length (dr_twoBuffer dr) = 2 \<and> dr_idx dr \<in> {0, 1}"

definition resource_slot :: "'r dynamic_resource \<Rightarrow> int \<Rightarrow> dict ub" where
  "resource_slot dr i = at_ub (dr_twoBuffer dr) i"

definition resource_update :: "('r, 'w) fetch \<times> int \<times> 'w \<Rightarrow> 'r dynamic_resource \<Rightarrow> 'r dynamic_resource \<Rightarrow> bool" where
  "resource_update x dr dr' \<longleftrightarrow> (case x of (fetch, now, w) \<Rightarrow> \<exists>w'. updateResource fetch now dr w = Some (dr', w'))"

text \<open>What an update can do: nothing, or publish a value that is not empty in the other buffer.\<close>

lemma updateResource_cases:
  assumes "updateResource fetch now dr w = Some (dr', w')" and "resource_ok dr"
  obtains (same) "dr' = dr"
  | (published) d where "d \<noteq> []" and "fst (fetch (dr_resourcePtr dr) w) = Some d"
      and "dr' = dr\<lparr>dr_twoBuffer := (dr_twoBuffer dr)[nat ((dr_idx dr + 1) mod 2) := d],
                   dr_idx := (dr_idx dr + 1) mod 2, dr_updateTime := now\<rparr>"
proof -
  let ?j = "(dr_idx dr + 1) mod 2"
  have upd: "update_ub (dr_twoBuffer dr) ?j d = Some ((dr_twoBuffer dr)[nat ?j := d])" for d
    using assms(2) by (auto simp: resource_ok_def update_ub_def)
  obtain res w1 where f: "fetch (dr_resourcePtr dr) w = (res, w1)" by fastforce
  show thesis
  proof (cases "expired dr now \<and> (\<exists>d. res = Some d \<and> d \<noteq> [])")
    case True
    then obtain d where d: "res = Some d" "d \<noteq> []" by blast
    with True assms(1) f show thesis by (intro published [of d]) (simp_all add: updateResource_def upd Let_def)
  next
    case False
    with assms(1) f show thesis by (intro same) (cases res; simp add: updateResource_def Let_def split: if_splits)
  qed
qed

interpretation resource_buffers: two_buffer dr_idx resource_slot resource_ok resource_update
proof
  fix dr dr' :: "'r dynamic_resource" and x :: "('r, 'w) fetch \<times> int \<times> 'w"
  assume ok: "resource_ok dr"
  then show "dr_idx dr \<in> {0, 1}" by (simp add: resource_ok_def)
  from ok show "resource_slot dr (dr_idx dr) \<noteq> None" by (auto simp: resource_ok_def resource_slot_def at_ub_def)
  assume "resource_update x dr dr'"
  then obtain fetch :: "('r, 'w) fetch" and now w w' where u: "updateResource fetch now dr w = Some (dr', w')"
    by (cases x) (auto simp: resource_update_def)
  from u ok show "resource_ok dr'" by (cases rule: updateResource_cases) (use ok in \<open>auto simp: resource_ok_def\<close>)
  from u ok show "resource_slot dr' (dr_idx dr) = resource_slot dr (dr_idx dr)"
    by (cases rule: updateResource_cases) (use ok in \<open>auto simp: resource_ok_def resource_slot_def at_ub_def\<close>)
  from u ok show "dr_idx dr' \<in> {dr_idx dr, (dr_idx dr + 1) mod 2}"
    by (cases rule: updateResource_cases) auto
qed

lemma new_DynamicResource_ok: "resource_ok (fst (new_DynamicResource fetch r fi now w))"
  by (simp add: new_DynamicResource_def resource_ok_def split: prod.splits)

text \<open>A reader that holds the active buffer keeps it through an update; and a refresh that brings an
  empty value changes nothing, so the value a reader gets is never replaced by an empty one.\<close>

lemma updateResource_safe:
  assumes "resource_ok dr" and "resource_slot dr (dr_idx dr) = Some d" and "updateResource fetch now dr w = Some (dr', w')"
  shows "resource_ok dr' \<and> resource_slot dr' (dr_idx dr) = Some d \<and>
    (\<exists>d'. resource_slot dr' (dr_idx dr') = Some d' \<and> (d' = [] \<longrightarrow> d = []))"
proof -
  have upd: "resource_update (fetch, now, w) dr dr'" using assms(3) by (auto simp: resource_update_def)
  have ok: "resource_ok dr'" using resource_buffers.update_valid [OF assms(1) upd] .
  have "\<exists>d'. resource_slot dr' (dr_idx dr') = Some d' \<and> (d' = [] \<longrightarrow> d = [])"
    using assms(3,1)
  proof (cases rule: updateResource_cases)
    case same
    with assms(2) show ?thesis by simp
  next
    case (published e)
    with assms(1) show ?thesis by (auto simp: resource_slot_def resource_ok_def at_ub_def)
  qed
  with ok resource_buffers.reader_keeps_slot [OF assms(1) upd assms(2)] show ?thesis by blast
qed

subsection \<open>Names in the manager\<close>

definition active_map :: "'r manager \<Rightarrow> (string \<times> nat) list" where
  "active_map mg = mg_resourceMap mg ! nat (mg_idx mg)"

definition standby_map :: "'r manager \<Rightarrow> (string \<times> nat) list" where
  "standby_map mg = mg_resourceMap mg ! nat ((mg_idx mg + 1) mod 2)"

definition manager_ok :: "'r manager \<Rightarrow> bool" where
  "manager_ok mg \<longleftrightarrow>
     length (mg_resourceMap mg) = 2 \<and> mg_idx mg \<in> {0, 1} \<and>
     (\<forall>dr \<in> set (mg_heap mg). resource_ok dr) \<and>
     (\<forall>a \<in> ran (map_of (active_map mg)) \<union> ran (map_of (standby_map mg)). a < length (mg_heap mg))"

lemma map_of_copy_missing: "map_of (copy_missing src dst) = map_of src ++ map_of dst"
proof (induction src arbitrary: dst)
  case Nil
  then show ?case by (simp add: copy_missing_def)
next
  case (Cons p src)
  obtain k v where p: "p = (k, v)" by fastforce
  let ?dst = "if map_of dst k = None then AList.update k v dst else dst"
  have "copy_missing (p # src) dst = copy_missing src ?dst" by (simp add: copy_missing_def p)
  then show ?case using Cons.IH [of ?dst] by (auto simp: p map_add_def fun_eq_iff update_conv' split: option.splits)
qed

lemma addDynamicResource_maps:
  assumes "manager_ok mg" and "addDynamicResource fetch name r fi ts mg w = Some (True, mg', w')"
  shows "map_of (active_map mg') = map_of (active_map mg) ++ (map_of (standby_map mg))(name \<mapsto> length (mg_heap mg))"
    and "standby_map mg' = active_map mg" and "length (mg_heap mg') = Suc (length (mg_heap mg))"
    and "\<exists>dr. mg_heap mg' = mg_heap mg @ [dr] \<and> resource_ok dr"
    and "length (mg_resourceMap mg') = 2" and "mg_idx mg' = (mg_idx mg + 1) mod 2"
proof -
  obtain t0 t1 t2 t3 where ts: "ts = (t0, t1, t2, t3)" by (cases ts)
  obtain dr w1 where new: "new_DynamicResource fetch r fi t0 w = (dr, w1)" by fastforce
  then have ok: "resource_ok dr" using new_DynamicResource_ok [of fetch r fi t0 w] by simp
  have idx: "mg_idx mg \<in> {0, 1}" "length (mg_resourceMap mg) = 2" using assms(1) by (simp_all add: manager_ok_def)
  then have at: "at_ub (mg_resourceMap mg) ((mg_idx mg + 1) mod 2) = Some (standby_map mg)"
    "at_ub (mg_resourceMap mg) (mg_idx mg) = Some (active_map mg)"
    by (auto simp: at_ub_def standby_map_def active_map_def)
  obtain res dr1 w2 where wrap: "getResourceWrapper fetch t1 t2 dr w1 = Some (res, dr1, w2)"
    using assms(2) new by (auto simp: addDynamicResource_def ts bind_eq_Some_conv)
  then obtain w3 where "dr1 = dr \<or> updateResource fetch t2 dr w1 = Some (dr1, w3)"
    by (auto simp: getResourceWrapper_def bind_eq_Some_conv split: if_splits)
  then have ok1: "resource_ok dr1"
    using ok resource_buffers.update_valid [OF ok, of "(fetch, t2, w1)" dr1] by (auto simp: resource_update_def)
  have mg': "mg' = \<lparr>mg_idx = (mg_idx mg + 1) mod 2,
      mg_resourceMap = (mg_resourceMap mg)[nat ((mg_idx mg + 1) mod 2) :=
        copy_missing (active_map mg) (AList.update name (length (mg_heap mg)) (standby_map mg))],
      mg_heap = mg_heap mg @ [dr1], mg_lastAddedTime = t3\<rparr>"
    using assms(2) new wrap at by (simp add: addDynamicResource_def ts Let_def split: if_splits)
  show "map_of (active_map mg') = map_of (active_map mg) ++ (map_of (standby_map mg))(name \<mapsto> length (mg_heap mg))"
    using idx by (auto simp: mg' active_map_def map_of_copy_missing update_conv' standby_map_def)
  show "standby_map mg' = active_map mg" using idx by (auto simp: mg' standby_map_def active_map_def)
  show "length (mg_heap mg') = Suc (length (mg_heap mg))" "length (mg_resourceMap mg') = 2" "mg_idx mg' = (mg_idx mg + 1) mod 2"
    using idx by (simp_all add: mg')
  show "\<exists>dr. mg_heap mg' = mg_heap mg @ [dr] \<and> resource_ok dr" using ok1 by (simp add: mg')
qed

lemma addDynamicResource_ok:
  assumes "manager_ok mg" and "addDynamicResource fetch name r fi ts mg w = Some (True, mg', w')"
  shows "manager_ok mg'"
proof -
  note m = addDynamicResource_maps [OF assms]
  have "a < length (mg_heap mg')" if "a \<in> ran (map_of (active_map mg')) \<union> ran (map_of (standby_map mg'))" for a
  proof -
    from that have "a \<in> ran (map_of (active_map mg)) \<union> ran (map_of (standby_map mg)) \<or> a = length (mg_heap mg)"
      unfolding m(1,2) by (auto simp: ran_def map_add_Some_iff split: if_splits)
    then show ?thesis using assms(1) m(3) by (auto simp: manager_ok_def less_Suc_eq)
  qed
  then show ?thesis using m assms(1) by (auto simp: manager_ok_def)
qed

text \<open>When the standby map holds nothing the active one does not, adding a resource under a new name
  makes it visible under that name and leaves every other name as it was, and the next add
  finds the maps in the same relation.\<close>

lemma addDynamicResource_fresh:
  assumes "manager_ok mg" and "map_of (standby_map mg) \<subseteq>\<^sub>m map_of (active_map mg)" and "name \<notin> dom (map_of (active_map mg))"
    and "addDynamicResource fetch name r fi ts mg w = Some (True, mg', w')"
  shows "manager_ok mg' \<and> map_of (active_map mg') = (map_of (active_map mg))(name \<mapsto> length (mg_heap mg)) \<and>
    map_of (standby_map mg') \<subseteq>\<^sub>m map_of (active_map mg')"
proof -
  note m = addDynamicResource_maps [OF assms(1,4)]
  have "map_of (active_map mg) ++ (map_of (standby_map mg))(name \<mapsto> length (mg_heap mg)) =
      (map_of (active_map mg))(name \<mapsto> length (mg_heap mg))"
    using assms(2) by (auto simp: fun_eq_iff map_add_def map_le_def split: option.splits) (metis domI option.inject)
  with m assms(3) addDynamicResource_ok [OF assms(1,4)] show ?thesis by (auto simp: map_le_def)
qed

lemma addDynamicResource_stale:
  assumes "manager_ok mg" and "map_of (standby_map mg) name = Some a"
    and "addDynamicResource fetch other r fi ts mg w = Some (True, mg', w')" and "other \<noteq> name"
  shows "map_of (active_map mg') name = Some a"
  using addDynamicResource_maps(1) [OF assms(1,3)] assms(2,4) by (simp add: map_add_def)

lemma new_manager_ok: "manager_ok (new_manager now)" "map_of (active_map (new_manager now)) = Map.empty"
    "map_of (standby_map (new_manager now)) = Map.empty" "mg_heap (new_manager now) = []"
  by (simp_all add: manager_ok_def new_manager_def active_map_def standby_map_def)

text \<open>A resource that is added again under its name is visible only until the next add: four adds from
  an empty manager, of \<open>A\<close>, of \<open>B\<close>, of \<open>A\<close> again and of \<open>C\<close>, leave the first \<open>A\<close> under that name,
  although the third add had replaced it.\<close>

lemma addDynamicResource_reverts:
  assumes "addDynamicResource fetch A r1 fi ts1 (new_manager now) w0 = Some (True, m1, w1)"
    and "addDynamicResource fetch B r2 fi ts2 m1 w1 = Some (True, m2, w2)"
    and "addDynamicResource fetch A r3 fi ts3 m2 w2 = Some (True, m3, w3)"
    and "addDynamicResource fetch C r4 fi ts4 m3 w3 = Some (True, m4, w4)"
    and "A \<noteq> B" and "A \<noteq> C"
  shows "map_of (active_map m3) A = Some 2 \<and> map_of (active_map m4) A = Some 0"
proof -
  note s1 = addDynamicResource_maps [OF new_manager_ok(1) assms(1)]
  note ok1 = addDynamicResource_ok [OF new_manager_ok(1) assms(1)]
  note s2 = addDynamicResource_maps [OF ok1 assms(2)] and ok2 = addDynamicResource_ok [OF ok1 assms(2)]
  note s3 = addDynamicResource_maps [OF ok2 assms(3)] and ok3 = addDynamicResource_ok [OF ok2 assms(3)]
  have a1: "map_of (active_map m1) A = Some 0" using s1(1) by (simp add: new_manager_ok)
  then have a2: "map_of (active_map m2) A = Some 0" using s2(1,2) s1(2) assms(5) by (simp add: map_add_def new_manager_ok)
  have len: "length (mg_heap m2) = 2" using s2(3) s1(3) by (simp add: new_manager_ok)
  have "map_of (active_map m3) A = Some 2" using s3(1) len by (simp add: map_add_def)
  moreover have "map_of (standby_map m3) A = Some 0" using s3(2) a2 by simp
  ultimately show ?thesis using addDynamicResource_stale [OF ok3 _ assms(4)] assms(6) by simp
qed

subsection \<open>A concrete resource\<close>

definition demo_fetch :: "(string, unit) fetch" where
  "demo_fetch r w = (Some [(''msg'', r)], w)"

definition demo_add :: "string \<Rightarrow> string \<Rightarrow> string manager \<Rightarrow> (bool \<times> string manager \<times> unit) option" where
  "demo_add name r mg = addDynamicResource demo_fetch name r 2 (0, 0, 0, 0) mg ()"

definition demo_manager :: "string manager" where
  "demo_manager = (case demo_add ''A'' ''r1'' (new_manager 0) of Some (_, mg, _) \<Rightarrow> mg | None \<Rightarrow> new_manager 0)"

lemmas demo_add_defs = demo_add_def addDynamicResource_def new_DynamicResource_def getResource_def demo_fetch_def
  getResourceWrapper_def expired_def new_manager_def at_ub_def copy_missing_def

lemma demo_manager_value:
  "demo_manager = \<lparr>mg_idx = 1, mg_resourceMap = [[], [(''A'', 0)]],
     mg_heap = [\<lparr>dr_resourcePtr = ''r1'', dr_flushInterval = 2, dr_twoBuffer = [[(''msg'', ''r1'')], [(''msg'', ''r1'')]],
       dr_idx = 0, dr_updateTime = 0\<rparr>], mg_lastAddedTime = 0\<rparr>"
  by (simp add: demo_manager_def demo_add_defs)

lemma addDynamicResource_fresh_witness:
  "\<exists>mg'. addDynamicResource demo_fetch ''B'' ''r2'' 2 (0, 0, 0, 0) demo_manager () = Some (True, mg', ()) \<and>
     map_of (active_map mg') = (map_of (active_map demo_manager))(''B'' \<mapsto> 1)"
proof -
  have ok: "manager_ok demo_manager"
    by (simp add: demo_manager_value manager_ok_def active_map_def standby_map_def resource_ok_def)
  have maps: "map_of (standby_map demo_manager) \<subseteq>\<^sub>m map_of (active_map demo_manager)" "''B'' \<notin> dom (map_of (active_map demo_manager))"
    by (simp_all add: demo_manager_value active_map_def standby_map_def)
  have "\<exists>mg'. addDynamicResource demo_fetch ''B'' ''r2'' 2 (0, 0, 0, 0) demo_manager () = Some (True, mg', ())"
    by (simp add: demo_manager_value demo_add_defs)
  then obtain mg' where a: "addDynamicResource demo_fetch ''B'' ''r2'' 2 (0, 0, 0, 0) demo_manager () = Some (True, mg', ())" ..
  from addDynamicResource_fresh [OF ok maps a] a show ?thesis by (simp add: demo_manager_value)
qed

lemma addDynamicResource_reverts_witness:
  "\<exists>m1 m2 m3 m4. demo_add ''A'' ''r1'' (new_manager 0) = Some (True, m1, ()) \<and> demo_add ''B'' ''r2'' m1 = Some (True, m2, ()) \<and>
     demo_add ''A'' ''r3'' m2 = Some (True, m3, ()) \<and> demo_add ''C'' ''r4'' m3 = Some (True, m4, ()) \<and>
     map_of (active_map m4) ''A'' = Some 0"
proof -
  have "\<exists>m1. demo_add ''A'' ''r1'' (new_manager 0) = Some (True, m1, ()) \<and> (\<exists>m2. demo_add ''B'' ''r2'' m1 = Some (True, m2, ()) \<and>
     (\<exists>m3. demo_add ''A'' ''r3'' m2 = Some (True, m3, ()) \<and> (\<exists>m4. demo_add ''C'' ''r4'' m3 = Some (True, m4, ()))))"
    by (simp add: demo_add_defs)
  then obtain m1 m2 m3 m4 where a: "demo_add ''A'' ''r1'' (new_manager 0) = Some (True, m1, ())"
    "demo_add ''B'' ''r2'' m1 = Some (True, m2, ())" "demo_add ''A'' ''r3'' m2 = Some (True, m3, ())"
    "demo_add ''C'' ''r4'' m3 = Some (True, m4, ())" by blast
  from addDynamicResource_reverts [OF a [unfolded demo_add_def]] have "map_of (active_map m4) ''A'' = Some 0" by simp
  with a show ?thesis by blast
qed

lemma updateResource_safe_witness:
  "\<exists>dr'. updateResource demo_fetch 5000000000 (mg_heap demo_manager ! 0) () = Some (dr', ()) \<and>
     resource_slot dr' 0 = Some [(''msg'', ''r1'')]"
proof -
  have ok: "resource_ok (mg_heap demo_manager ! 0)" by (simp add: demo_manager_value resource_ok_def)
  have s: "resource_slot (mg_heap demo_manager ! 0) (dr_idx (mg_heap demo_manager ! 0)) = Some [(''msg'', ''r1'')]"
    by (simp add: demo_manager_value resource_slot_def at_ub_def)
  have "\<exists>dr'. updateResource demo_fetch 5000000000 (mg_heap demo_manager ! 0) () = Some (dr', ())"
    by (simp add: demo_manager_value updateResource_def expired_def demo_fetch_def update_ub_def)
  then obtain dr' where u: "updateResource demo_fetch 5000000000 (mg_heap demo_manager ! 0) () = Some (dr', ())" ..
  from updateResource_safe [OF ok s u] u show ?thesis by (simp add: demo_manager_value)
qed

end
