(* ===== verification/Master_Entity.thy ===== *)
theory Master_Entity
  imports Common Numeric_Util "HOL-Library.AList"
begin

text \<open>
  The data of the master, a Go process: \<open>master/entity\<close>, \<open>master/common/common.go\<close> and the constants of
  \<open>master/config/config.go\<close>. A Go string is the string of its bytes, an \<open>int\<close> a 64-bit integer; a
  pointer that may be nil is an option, and an index out of range or a nil dereference, which panics, is
  \<open>None\<close>. A Go map is an association list with distinct keys; the order in which \<open>range\<close> visits its keys is
  a parameter. So are the JSON forms and the formats of \<open>fmt.Sprintf\<close> that contain data of the request.
\<close>

subsection \<open>Spaces\<close>

record hnsw =
  hn_metric_type :: "string option"
  hn_nlinks :: int
  hn_efConstruction :: int
  hn_efSearch :: int

record index_params =
  ip_metric_type :: string
  ip_training_threshold :: int
  ip_ncentroids :: int
  ip_nsubvector :: int
  ip_nlinks :: int
  ip_efConstruction :: int
  ip_efSearch :: int
  ip_thread_num :: int
  ip_hnsw :: "hnsw option"

record ivfpq =
  iv_metric_type :: string
  iv_training_threshold :: int
  iv_ncentroids :: int
  iv_nsubvector :: int
  iv_thread_num :: int
  iv_hnsw :: "hnsw option"

record api_index =
  ai_name :: string
  ai_type :: string
  ai_params :: "index_params option"

record inner_index =
  ii_name :: string
  ii_type :: string
  ii_params :: "string option"

record api_field =
  af_name :: string
  af_type :: string
  af_dimension :: int
  af_index :: "api_index option"

record inner_field =
  nf_name :: string
  nf_type :: string
  nf_dimension :: int
  nf_index :: "inner_index option"

record replica_node =
  rn_ps_id :: int
  rn_ps_ip :: string
  rn_ps_port :: int
  rn_is_leader :: int
  rn_node_status :: string
  rn_msg :: string

record partition_info =
  pi_partition_id :: int
  pi_group_name :: string
  pi_replicas :: "replica_node list"
  pi_ctime :: string
  pi_mtime :: string

record api_space =
  as_db_name :: string
  as_space_name :: string
  as_id :: int
  as_partition_num :: int
  as_replica_num :: int
  as_fields :: "api_field list"
  as_partitions :: "partition_info list"
  as_id_type :: string
  as_ctime :: string
  as_mtime :: string

record inner_space =
  ns_db_name :: string
  ns_space_name :: string
  ns_id :: int
  ns_partition_num :: int
  ns_replica_num :: int
  ns_fields :: "inner_field list"
  ns_partitions :: "partition_info list"
  ns_id_type :: string
  ns_ctime :: string
  ns_mtime :: string

definition zero_space :: inner_space where
  "zero_space = \<lparr>ns_db_name = '''', ns_space_name = '''', ns_id = 0, ns_partition_num = 0, ns_replica_num = 0, ns_fields = [],
     ns_partitions = [], ns_id_type = '''', ns_ctime = '''', ns_mtime = ''''\<rparr>"

text \<open>What the code takes from the Go libraries: JSON, formats with foreign text, and map order.\<close>

record go_lib =
  gl_ivfpq_json :: "ivfpq \<Rightarrow> string"
  gl_hnsw_json :: "hnsw \<Rightarrow> string"
  gl_space_json :: "inner_space \<Rightarrow> string"
  gl_space_unmarshal :: "string \<Rightarrow> inner_space \<Rightarrow> bool \<times> inner_space"
  gl_sprintf :: "string \<Rightarrow> string list list \<Rightarrow> string"
  gl_range :: "string list \<Rightarrow> string list"

type_synonym 'a go_map = "(string \<times> 'a) list"

definition range_map :: "go_lib \<Rightarrow> 'a go_map \<Rightarrow> (string \<times> 'a) list" where
  "range_map gl m = map (\<lambda>k. (k, the (map_of m k))) (gl_range gl (map fst m))"

subsection \<open>Configuration\<close>

definition PsNodesPrefix :: string where "PsNodesPrefix = ''/nodes'' @ ''/ps''"

definition RouterNodesPrefix :: string where "RouterNodesPrefix = ''/nodes'' @ ''/router''"

definition SpacesMataPrefix :: string where "SpacesMataPrefix = ''/spaces/mata''"

definition DeletedSpacesMataPrefix :: string where "DeletedSpacesMataPrefix = ''/deleted_spaces/mata''"

definition DdlLockKey :: string where "DdlLockKey = ''/ddl/lock''"

definition DdlDisabledKey :: string where "DdlDisabledKey = ''/cluster/ddl_disabled''"

definition ErrSpacesPrefix :: string where "ErrSpacesPrefix = ''/error/spaces''"

definition ErrPsNodesPrefix :: string where "ErrPsNodesPrefix = ''/error/nodes/ps''"

definition ErrLog :: string where "ErrLog = ''/error/log''"

definition EtcdValMaxLen :: int where "EtcdValMaxLen = 100"

definition ErrLogValMaxLen :: int where "ErrLogValMaxLen = 1024"

definition GenPsIdKey :: string where "GenPsIdKey = ''gen_ps_id''"

definition GenSpaceIdKey :: string where "GenSpaceIdKey = ''gen_space_id''"

definition IdBaseVal :: int where "IdBaseVal = 0"

text \<open>A \<open>time.Duration\<close> counts nanoseconds, and so does this constant where it is used.\<close>

definition PsNodeTTL :: int where "PsNodeTTL = 5"

definition DocKeyTypes :: "string list" where "DocKeyTypes = [''long'', ''string'']"

definition ScalarFieldTypes :: "string list" where
  "ScalarFieldTypes = [''int'', ''long'', ''float'', ''double'', ''string'', ''stringarray'']"

definition ScalarIndexTypes :: "string list" where "ScalarIndexTypes = [''SCALAR'']"

definition VectorFieldTypes :: "string list" where "VectorFieldTypes = [''vector'']"

definition VectorIndexTypes :: "string list" where
  "VectorIndexTypes = [''IVFPQ'', ''HNSW'', ''VEARCH'', ''IVFFLAT'', ''BINARYIVF'', ''FLAT'']"

definition MetricType :: "string list" where "MetricType = [''L2'', ''InnerProduct'']"

subsection \<open>Keys\<close>

definition GetSpaceEtcdKey :: "string \<Rightarrow> string \<Rightarrow> string" where
  "GetSpaceEtcdKey dbName spaceName = SpacesMataPrefix @ ''/'' @ dbName @ ''/'' @ spaceName"

definition GetDeletedSpaceEtcdKey :: "string \<Rightarrow> string \<Rightarrow> int \<Rightarrow> string" where
  "GetDeletedSpaceEtcdKey dbName spaceName spaceId = DeletedSpacesMataPrefix @ ''/'' @ dbName @ ''/'' @ spaceName @ ''/'' @ to_string spaceId"

definition GetPsNodeName :: "string \<Rightarrow> int \<Rightarrow> string" where
  "GetPsNodeName IP Port = '':'' @ IP @ '':'' @ to_string Port @ '':''"

definition GetPsRegisterKey :: "string \<Rightarrow> int \<Rightarrow> int \<Rightarrow> string" where
  "GetPsRegisterKey IP Port PsId = PsNodesPrefix @ ''/'' @ GetPsNodeName IP Port @ to_string PsId"

definition GetErrPsNodeEtcdKey :: "string \<Rightarrow> int \<Rightarrow> int \<Rightarrow> string" where
  "GetErrPsNodeEtcdKey IP Port PsId = ErrPsNodesPrefix @ ''/'' @ GetPsNodeName IP Port @ to_string PsId"

definition GetErrSpaceEtcdKey :: "string \<Rightarrow> string \<Rightarrow> int \<Rightarrow> string" where
  "GetErrSpaceEtcdKey dbName spaceName spaceId = ErrSpacesPrefix @ ''/'' @ dbName @ ''/'' @ spaceName @ ''/'' @ to_string spaceId"

definition GetPartitionGroupName :: "string \<Rightarrow> string \<Rightarrow> int \<Rightarrow> string" where
  "GetPartitionGroupName dbName spaceName partitionId = dbName @ '':'' @ spaceName @ '':'' @ to_string partitionId"

text \<open>\<open>strings.Split\<close> by one byte, and \<open>strconv.Atoi\<close> without its error: 0 for what is not a number, and the
  nearest \<open>int\<close> for a number out of range.\<close>

fun split_by :: "char \<Rightarrow> string \<Rightarrow> string list" where
  "split_by c [] = [[]]"
| "split_by c (x # xs) = (if x = c then [] # split_by c xs else (x # hd (split_by c xs)) # tl (split_by c xs))"

definition Atoi :: "string \<Rightarrow> int" where
  "Atoi s =
     (let neg = (s \<noteq> [] \<and> hd s = CHR ''-'');
          ds = (if s \<noteq> [] \<and> (hd s = CHR ''-'' \<or> hd s = CHR ''+'') then tl s else s)
      in if ds = [] \<or> \<not> list_all isdigit ds then 0
         else let v = (if neg then - int (dec_val ds) else int (dec_val ds)) in max (- (2 ^ 63)) (min v (2 ^ 63 - 1)))"

definition ParsePsRegisterKey :: "string \<Rightarrow> (string \<times> int \<times> int) ub" where
  "ParsePsRegisterKey key = do {
     let parts = split_by (CHR '':'') key;
     IP \<leftarrow> at_ub parts 1;
     PsId \<leftarrow> at_ub parts 3;
     Port \<leftarrow> at_ub parts 2;
     Some (IP, Atoi Port, Atoi PsId)
   }"

definition GetRouterNodeEtcdKey :: "string \<Rightarrow> (string \<times> int) ub" where
  "GetRouterNodeEtcdKey key = do {
     let parts = split_by (CHR '':'') key;
     IP \<leftarrow> at_ub parts 1;
     port \<leftarrow> at_ub parts 2;
     Some (IP, Atoi port)
   }"


subsection \<open>Names\<close>

text \<open>\<open>unicode.IsLetter\<close> on the rune of one byte.\<close>

definition IsLetter :: "char \<Rightarrow> bool" where
  "IsLetter c =
     (let n = (of_char c :: nat)
      in (65 \<le> n \<and> n \<le> 90) \<or> (97 \<le> n \<and> n \<le> 122) \<or> n = 0xAA \<or> n = 0xB5 \<or> n = 0xBA \<or>
         (0xC0 \<le> n \<and> n \<noteq> 0xD7 \<and> n \<noteq> 0xF7))"

definition name_char :: "char \<Rightarrow> bool" where
  "name_char c =
     (let n = (of_char c :: nat)
      in (65 \<le> n \<and> n \<le> 90) \<or> (97 \<le> n \<and> n \<le> 122) \<or> isdigit c \<or> c = CHR ''_'' \<or> c = CHR ''-'')"

definition too_short_msg :: msg where
  "too_short_msg = [CHR 0xE9, CHR 0x95, CHR 0xBF, CHR 0xE5, CHR 0xBA, CHR 0xA6, CHR 0xE5, CHR 0xBA, CHR 0x94, CHR 0xE8, CHR 0xAF,
     CHR 0xA5] @ '' > 5''"

definition first_letter_msg :: msg where
  "first_letter_msg = [CHR 0xE9, CHR 0xA6, CHR 0x96, CHR 0xE5, CHR 0xAD, CHR 0x97, CHR 0xE6, CHR 0xAF, CHR 0x8D, CHR 0xE5, CHR 0xBA,
     CHR 0x94, CHR 0xE8, CHR 0xAF, CHR 0xA5, CHR 0xE4, CHR 0xB8, CHR 0xBA, CHR 0xE5, CHR 0xA4, CHR 0xA7] @ ''/'' @
     [CHR 0xE5, CHR 0xB0, CHR 0x8F, CHR 0xE5, CHR 0x86, CHR 0x99, CHR 0xE5, CHR 0xAD, CHR 0x97, CHR 0xE6, CHR 0xAF, CHR 0x8D]"

definition characters_msg :: msg where
  "characters_msg = [CHR 0xE5, CHR 0xBA, CHR 0x94, CHR 0xE8, CHR 0xAF, CHR 0xA5, CHR 0xE5, CHR 0x8F, CHR 0xAA, CHR 0xE5, CHR 0x8C,
     CHR 0x85, CHR 0xE5, CHR 0x90, CHR 0xAB, CHR 0xE5, CHR 0xA4, CHR 0xA7, CHR 0xE5, CHR 0xB0, CHR 0x8F, CHR 0xE5, CHR 0xAD, CHR 0x97,
     CHR 0xE6, CHR 0xAF, CHR 0x8D, CHR 0xE3, CHR 0x80, CHR 0x81, CHR 0xE6, CHR 0x95, CHR 0xB0, CHR 0xE5, CHR 0xAD, CHR 0x97, CHR 0xE3,
     CHR 0x80, CHR 0x81, CHR 0x27] @ ''-'' @ [CHR 0x27, CHR 0x20, CHR 0xE6, CHR 0x88, CHR 0x96, CHR 0xE8, CHR 0x80, CHR 0x85, CHR 0x20,
     CHR 0x27] @ ''_'' @ [CHR 0x27]"

definition NameValidate :: "string \<Rightarrow> msg" where
  "NameValidate s =
     (if length s \<le> 5 then too_short_msg
      else if \<not> IsLetter (hd s) then first_letter_msg
      else if \<not> list_all name_char s then characters_msg
      else '''')"

subsection \<open>The check of a new space\<close>

text \<open>The verb \<open>%v\<close> for a slice of strings.\<close>

fun spaced :: "string list \<Rightarrow> string" where
  "spaced [] = ''''"
| "spaced [x] = x"
| "spaced (x # xs) = x @ '' '' @ spaced xs"

definition show_list :: "string list \<Rightarrow> string" where
  "show_list xs = ''['' @ spaced xs @ '']''"

definition InSlice :: "'a \<Rightarrow> 'a list \<Rightarrow> bool" where
  "InSlice target xs = list_ex (\<lambda>item. item = target) xs"

text \<open>The messages of the checks on the parameters of a vector index, by type.\<close>

definition check_index_params :: "string \<Rightarrow> index_params \<Rightarrow> msg" where
  "check_index_params type p =
     (if type = ''IVFPQ'' then
        if ip_ncentroids p < 2 \<or> ip_nsubvector p < 2 then ''IVFPQ index, ncentroids and nsubvector should be setted. ''
        else case ip_hnsw p of
          None \<Rightarrow> ''''
        | Some h \<Rightarrow>
            if hn_nlinks h < 2 \<or> hn_efConstruction h < 2 \<or> hn_efSearch h < 2
            then ''IVFPQ HNSW index, efSearch and nlinks and efConstruction should be setted. '' else ''''
      else if type = ''HNSW'' then
        if ip_nlinks p < 2 \<or> ip_efConstruction p < 2 \<or> ip_efSearch p < 2
        then ''HNSW index, efSearch and nlinks and efConstruction should be setted. '' else ''''
      else if type = ''IVFFLAT'' then
        if ip_ncentroids p < 2 then ''IVFFLAT index, ncentroids should be setted. '' else ''''
      else if type = ''VEARCH'' then
        if ip_ncentroids p < 2 \<or> ip_nsubvector p < 2 then ''VEARCH index, ncentroids and nsubvector should be setted. '' else ''''
      else if type = ''FLAT'' then ''''
      else if type = ''BINARYIVF'' then
        if ip_ncentroids p < 2 then ''BINARYIVF index, ncentroids should be setted. '' else ''''
      else ''vector index type errr, it is in [IVFPQ, HNSW, IVFFLAT, VEARCH, FLAT, BINARYIVF]; '')"

definition check_vector :: "go_lib \<Rightarrow> int \<Rightarrow> api_field \<Rightarrow> msg ub" where
  "check_vector gl vector_field_num f =
     (if vector_field_num > 1 then Some ''has 2 vector field, now only allow 1 vector field. ''
      else if af_dimension f < 1 \<or> af_dimension f > 65536 then Some ''vector Dimension, should in [1, 65536]. ''
      else case af_index f of
        None \<Rightarrow> Some ''please set vector index info. ''
      | Some idx \<Rightarrow>
          if \<not> InSlice (ai_type idx) VectorIndexTypes then
            Some (gl_sprintf gl (''vector index type:'' @ ai_type idx @ '' is failed, it should is %v. '') [VectorIndexTypes])
          else do {
            params \<leftarrow> ai_params idx;
            Some (if \<not> InSlice (ip_metric_type params) MetricType then ''metric_type should is '' @ show_list MetricType @ ''. ''
                  else check_index_params (ai_type idx) params)
          })"

definition check_typed :: "go_lib \<Rightarrow> api_field \<Rightarrow> int \<Rightarrow> (msg \<times> int) ub" where
  "check_typed gl f vector_field_num =
     (if InSlice (af_type f) ScalarFieldTypes then
        Some (case af_index f of
            None \<Rightarrow> ''''
          | Some idx \<Rightarrow>
              if \<not> InSlice (ai_type idx) ScalarIndexTypes
              then gl_sprintf gl (''scalar index type:'' @ ai_type idx @ '' is failed, it should is %v'') [ScalarIndexTypes] else '''',
          vector_field_num)
      else if InSlice (af_type f) VectorFieldTypes then do {
        m \<leftarrow> check_vector gl vector_field_num f;
        Some (m, if m = '''' then vector_field_num + 1 else vector_field_num)
      } else
        Some (gl_sprintf gl (''Field type:'' @ af_type f @ '' is error, it should is %v or %v. '') [ScalarFieldTypes, VectorFieldTypes],
              vector_field_num))"

text \<open>The loop over the fields: the names seen, the number of vector fields, and the message so far.\<close>

fun check_fields :: "go_lib \<Rightarrow> api_field list \<Rightarrow> string list \<Rightarrow> string list \<Rightarrow> int \<Rightarrow> msg \<Rightarrow> (int \<times> msg) ub" where
  "check_fields gl [] fieldNameMp indexNameMp n m = Some (n, m)"
| "check_fields gl (f # fs) fieldNameMp indexNameMp n m =
     (if af_name f = '''' then check_fields gl fs fieldNameMp indexNameMp n (m @ ''Field name is null. '')
      else if af_name f \<in> set fieldNameMp then
        check_fields gl fs fieldNameMp indexNameMp n (m @ ''Field name:'' @ af_name f @ '' is repeated. '')
      else
        let names = af_name f # fieldNameMp
        in case af_index f of
          None \<Rightarrow> do {
            (m1, n1) \<leftarrow> check_typed gl f n;
            check_fields gl fs names indexNameMp n1 (m @ m1)
          }
        | Some idx \<Rightarrow>
            if ai_name idx = '''' then check_fields gl fs names indexNameMp n (m @ ''Field Index name is null. '')
            else if ai_name idx \<in> set indexNameMp then
              check_fields gl fs names indexNameMp n (m @ ''index name:'' @ ai_name idx @ '' is repeated. '')
            else do {
              (m1, n1) \<leftarrow> check_typed gl f n;
              check_fields gl fs names (ai_name idx # indexNameMp) n1 (m @ m1)
            })"

definition db_format_msg :: msg where
  "db_format_msg = ''DbName '' @ [CHR 0xE6, CHR 0xA0, CHR 0xBC, CHR 0xE5, CHR 0xBC, CHR 0x8F, CHR 0xE9, CHR 0x94, CHR 0x99, CHR 0xE8, CHR 0xAF,
     CHR 0xAF, CHR 0xEF, CHR 0xBC, CHR 0x9A]"

definition space_format_msg :: msg where
  "space_format_msg = ''Space Name '' @ [CHR 0xE6, CHR 0xA0, CHR 0xBC, CHR 0xE5, CHR 0xBC, CHR 0x8F, CHR 0xE9, CHR 0x94, CHR 0x99, CHR 0xE8,
     CHR 0xAF, CHR 0xAF, CHR 0xEF, CHR 0xBC, CHR 0x9A]"

text \<open>\<open>%\<close> in Go takes the sign of the dividend, which is positive where it is reached.\<close>

definition CheckApiSpace :: "go_lib \<Rightarrow> api_space \<Rightarrow> msg ub" where
  "CheckApiSpace gl s =
     (if NameValidate (as_db_name s) \<noteq> '''' then Some (db_format_msg @ NameValidate (as_db_name s))
      else if NameValidate (as_space_name s) \<noteq> '''' then Some (space_format_msg @ NameValidate (as_space_name s))
      else if as_partition_num s \<le> 0 \<or> as_partition_num s > 100 then
        Some (''PartitionNum['' @ to_string (as_partition_num s) @ ''] error, num range [1, 100]'')
      else if as_replica_num s \<le> 0 \<or> as_replica_num s mod 2 = 0 \<or> as_replica_num s > 5 then
        Some (''ReplicaNum['' @ to_string (as_replica_num s) @ ''] error, it should in (1, 3, 5)'')
      else if length (as_partitions s) \<noteq> 0 then Some ''CreateSpace api, Partitions info should is null''
      else if InSlice (as_id_type s) DocKeyTypes then
        Some (''CreateSpace api, _id_type only support '' @ show_list DocKeyTypes @ ''.'')
      else do {
        (vector_field_num, m) \<leftarrow> check_fields gl (as_fields s) [] [] 0 '''';
        Some (if vector_field_num = 0 then m @ ''There is no vector field. '' else m)
      })"

subsection \<open>The stored form\<close>

definition inner_params :: "go_lib \<Rightarrow> string \<Rightarrow> index_params \<Rightarrow> string option" where
  "inner_params gl type p =
     (if type = ''IVFPQ'' \<or> type = ''VEARCH'' then
        Some (gl_ivfpq_json gl \<lparr>iv_metric_type = ip_metric_type p, iv_training_threshold = ip_training_threshold p,
          iv_ncentroids = ip_ncentroids p, iv_nsubvector = ip_nsubvector p, iv_thread_num = ip_thread_num p, iv_hnsw = ip_hnsw p\<rparr>)
      else if type = ''HNSW'' then
        Some (gl_hnsw_json gl \<lparr>hn_metric_type = Some (ip_metric_type p), hn_nlinks = ip_nlinks p, hn_efConstruction = ip_efConstruction p,
          hn_efSearch = ip_efSearch p\<rparr>)
      else None)"

text \<open>The index is kept only when it has parameters.\<close>

definition to_inner_field :: "go_lib \<Rightarrow> api_field \<Rightarrow> inner_field" where
  "to_inner_field gl f =
     \<lparr>nf_name = af_name f, nf_type = af_type f, nf_dimension = af_dimension f,
      nf_index = (case af_index f of
          None \<Rightarrow> None
        | Some idx \<Rightarrow>
            (case ai_params idx of
               None \<Rightarrow> None
             | Some p \<Rightarrow> Some \<lparr>ii_name = ai_name idx, ii_type = ai_type idx, ii_params = inner_params gl (ai_type idx) p\<rparr>))\<rparr>"

definition ApiSpaceToInnerSpace :: "go_lib \<Rightarrow> api_space \<Rightarrow> inner_space" where
  "ApiSpaceToInnerSpace gl s =
     \<lparr>ns_db_name = as_db_name s, ns_space_name = as_space_name s, ns_id = as_id s, ns_partition_num = as_partition_num s,
      ns_replica_num = as_replica_num s, ns_fields = map (to_inner_field gl) (as_fields s), ns_partitions = as_partitions s,
      ns_id_type = as_id_type s, ns_ctime = as_ctime s, ns_mtime = as_mtime s\<rparr>"

text \<open>A partition is made with zero replicas, which the caller fills in.\<close>

definition zero_replica :: replica_node where
  "zero_replica = \<lparr>rn_ps_id = 0, rn_ps_ip = '''', rn_ps_port = 0, rn_is_leader = 0, rn_node_status = '''', rn_msg = ''''\<rparr>"

definition CreatePartition :: "string \<Rightarrow> int \<Rightarrow> int \<Rightarrow> string \<Rightarrow> partition_info ub" where
  "CreatePartition groupName partitionId replicaNum timeStr =
     (if replicaNum < 0 then None
      else Some \<lparr>pi_partition_id = partitionId, pi_group_name = groupName, pi_replicas = replicate (nat replicaNum) zero_replica,
                 pi_ctime = timeStr, pi_mtime = timeStr\<rparr>)"

text \<open>The error of \<open>json.Unmarshal\<close> is a variable of the inner block: what is returned is nil.\<close>

definition DeserializeFromByte :: "go_lib \<Rightarrow> string \<Rightarrow> inner_space \<Rightarrow> msg \<times> inner_space" where
  "DeserializeFromByte gl spaceJson s = ('''', snd (gl_space_unmarshal gl spaceJson s))"

subsection \<open>Lists of nodes and spaces\<close>

fun RepDeserializeFromByte :: "string list \<Rightarrow> replica_node go_map \<Rightarrow> replica_node go_map ub" where
  "RepDeserializeFromByte [] m = Some m"
| "RepDeserializeFromByte (nodeKey # nodeKeys) m = do {
     (psIP, psPort, psId) \<leftarrow> ParsePsRegisterKey nodeKey;
     let strNodeKey = GetPsNodeName psIP psPort;
     if map_of m strNodeKey \<noteq> None then RepDeserializeFromByte nodeKeys m
     else RepDeserializeFromByte nodeKeys (AList.update strNodeKey
       \<lparr>rn_ps_id = psId, rn_ps_ip = psIP, rn_ps_port = psPort, rn_is_leader = 0, rn_node_status = '''', rn_msg = ''''\<rparr> m)
   }"

definition GetAllIdlePsKeys :: "go_lib \<Rightarrow> replica_node go_map list \<Rightarrow> replica_node go_map \<Rightarrow> replica_node list" where
  "GetAllIdlePsKeys gl busyNodeKeysList m =
     map snd (filter (\<lambda>(key, node). \<not> list_ex (\<lambda>busy. map_of busy key \<noteq> None) busyNodeKeysList) (range_map gl m))"

fun RouterDeserializeFromByte :: "string list \<Rightarrow> (string \<times> int) go_map \<Rightarrow> (string \<times> int) go_map ub" where
  "RouterDeserializeFromByte [] m = Some m"
| "RouterDeserializeFromByte (nodeKey # nodeKeys) m =
     (if map_of m nodeKey \<noteq> None then RouterDeserializeFromByte nodeKeys m
      else do {
        router \<leftarrow> GetRouterNodeEtcdKey nodeKey;
        RouterDeserializeFromByte nodeKeys (AList.update nodeKey router m)
      })"

definition space_name_of :: "inner_space \<Rightarrow> string" where
  "space_name_of s = ns_db_name s @ '':'' @ ns_space_name s"

definition DeserializeFromByteList :: "go_lib \<Rightarrow> string list \<Rightarrow> inner_space go_map" where
  "DeserializeFromByteList gl spaceJsonList =
     foldl (\<lambda>m spaceJson.
         let (err, s) = DeserializeFromByte gl spaceJson zero_space in if err \<noteq> '''' then m else AList.update (space_name_of s) s m)
       [] spaceJsonList"

definition space_replicas :: "inner_space \<Rightarrow> replica_node list" where
  "space_replicas s = concat (map pi_replicas (ns_partitions s))"

definition GetAllPsMap :: "go_lib \<Rightarrow> inner_space go_map \<Rightarrow> replica_node go_map" where
  "GetAllPsMap gl m =
     foldl (\<lambda>ps_map r. AList.update (GetPsNodeName (rn_ps_ip r) (rn_ps_port r)) r ps_map) []
       (concat (map (\<lambda>(name, s). space_replicas s) (range_map gl m)))"

end
