(* ===== verification/Master_Etcd.thy ===== *)
theory Master_Etcd
  imports Master_Entity
begin

text \<open>
  The etcd client of the master, \<open>master/etcdcluster/etcd_client.go\<close>, and its lock,
  \<open>master/etcdcluster/distributed_lock.go\<close>, over the Go client of etcd, which is the record \<open>kv_lib\<close>. A nil
  error is \<open>None\<close>.
\<close>

subsection \<open>The Go client\<close>

text \<open>A software transaction on one key: the function it applies gets the value (empty without one) and
  returns an error or the value to put; the result is whether it committed, and the value last read.\<close>

record 'w kv_lib =
  kv_put :: "string \<Rightarrow> string \<Rightarrow> int option \<Rightarrow> 'w \<Rightarrow> msg option \<times> 'w"
  kv_get :: "string \<Rightarrow> 'w \<Rightarrow> (msg + (string \<times> string) list) \<times> 'w"
  kv_get_prefix :: "string \<Rightarrow> 'w \<Rightarrow> (msg + (string \<times> string) list) \<times> 'w"
  kv_delete :: "string \<Rightarrow> 'w \<Rightarrow> (msg + int) \<times> 'w"
  kv_grant :: "int \<Rightarrow> 'w \<Rightarrow> (msg + int) \<times> 'w"
  kv_stm :: "string \<Rightarrow> (string \<Rightarrow> msg + string) \<Rightarrow> 'w \<Rightarrow> (msg + bool \<times> string) \<times> 'w"
  lk_session :: "'w \<Rightarrow> (msg + nat) \<times> 'w"
  lk_try_lock :: "nat \<Rightarrow> string \<Rightarrow> 'w \<Rightarrow> msg option \<times> 'w"
  lk_unlock :: "nat \<Rightarrow> string \<Rightarrow> 'w \<Rightarrow> msg option \<times> 'w"
  lk_close :: "nat \<Rightarrow> 'w \<Rightarrow> 'w"
  go_sleep_ms :: "int \<Rightarrow> 'w \<Rightarrow> 'w"

subsection \<open>The client\<close>

definition ParseInt :: "string \<Rightarrow> int option" where
  "ParseInt s =
     (let neg = (s \<noteq> [] \<and> hd s = CHR ''-'');
          ds = (if s \<noteq> [] \<and> (hd s = CHR ''-'' \<or> hd s = CHR ''+'') then tl s else s);
          v = (if neg then - int (dec_val ds) else int (dec_val ds))
      in if ds = [] \<or> \<not> list_all isdigit ds \<or> \<not> is_int64 v then None else Some v)"

text \<open>What the transaction makes of the value it reads: the next id, or an error.\<close>

definition next_id :: "int \<Rightarrow> string \<Rightarrow> msg + int" where
  "next_id base v =
     (if v = '''' then Inr base
      else case ParseInt v of
        None \<Rightarrow> Inl (''increment id error in storage :'' @ v)
      | Some intv \<Rightarrow> Inr (int64_of (intv + 1)))"

definition NewIDGenerate :: "'w kv_lib \<Rightarrow> string \<Rightarrow> int \<Rightarrow> 'w \<Rightarrow> (int \<times> msg option) \<times> 'w" where
  "NewIDGenerate kv key base w =
     (let (r, w1) = kv_stm kv key (\<lambda>v. map_sum id to_string (next_id base v)) w
      in (case r of
            Inl err \<Rightarrow> (0, Some err)
          | Inr (succeeded, v) \<Rightarrow>
              if \<not> succeeded then (0, Some ''etcd stm failed'')
              else (case next_id base v of Inl err \<Rightarrow> (0, Some err) | Inr nextID \<Rightarrow> (nextID, None)), w1))"

definition EtcdPut :: "'w kv_lib \<Rightarrow> string \<Rightarrow> string \<Rightarrow> 'w \<Rightarrow> msg option \<times> 'w" where
  "EtcdPut kv key val w = kv_put kv key val None w"

text \<open>An empty value is decoded as nil, like a missing one.\<close>

definition EtcdGet :: "'w kv_lib \<Rightarrow> string \<Rightarrow> 'w \<Rightarrow> (msg + string option) \<times> 'w" where
  "EtcdGet kv key w =
     (let (r, w1) = kv_get kv key w
      in (case r of
            Inl err \<Rightarrow> Inl err
          | Inr kvs \<Rightarrow> Inr (case kvs of [] \<Rightarrow> None | (k, v) # _ \<Rightarrow> if v = '''' then None else Some v), w1))"

definition PutOrAppend :: "'w kv_lib \<Rightarrow> string \<Rightarrow> string \<Rightarrow> int \<Rightarrow> 'w \<Rightarrow> msg option \<times> 'w" where
  "PutOrAppend kv key val maxLenKB w =
     (let (r, w1) = EtcdGet kv key w
      in case r of
           Inl err \<Rightarrow> (Some (''EtcdClient PutOrAppend() failed to get key '' @ key @ '', error: '' @ err), w1)
         | Inr oldValue \<Rightarrow>
             let val1 = (case oldValue of None \<Rightarrow> val | Some old \<Rightarrow> old @ val);
                 maxLenBytes = maxLenKB * 1024
             in if int (length val1) > maxLenBytes then
                  (Some (''EtcdClient PutOrAppend() value len:'' @ to_string (int (length val1)) @ '' > maxLenBytes: '' @ to_string maxLenBytes), w1)
                else EtcdPut kv key val1 w1)"

text \<open>The whole seconds of a duration in nanoseconds.\<close>

definition ttl_seconds :: "int \<Rightarrow> int" where
  "ttl_seconds ttl = (if ttl < 0 then - ((- ttl) div 1000000000) else ttl div 1000000000)"

definition CreateWithTTL :: "'w kv_lib \<Rightarrow> string \<Rightarrow> string \<Rightarrow> int \<Rightarrow> 'w \<Rightarrow> msg option \<times> 'w" where
  "CreateWithTTL kv key val ttl w =
     (if ttl \<noteq> 0 \<and> ttl_seconds ttl = 0 then (Some ''ttl time must greater than 1 second'', w)
      else
        let (r, w1) = kv_grant kv (ttl_seconds ttl) w
        in case r of
             Inl err \<Rightarrow> (Some err, w1)
           | Inr grant \<Rightarrow> kv_put kv key val (Some grant) w1)"

text \<open>The keys and values with a prefix; the callers drop the error.\<close>

definition PrefixScan :: "'w kv_lib \<Rightarrow> string \<Rightarrow> 'w \<Rightarrow> (string \<times> string) list \<times> msg option \<times> 'w" where
  "PrefixScan kv pre w =
     (let (r, w1) = kv_get_prefix kv pre w in case r of Inl err \<Rightarrow> ([], Some err, w1) | Inr kvs \<Rightarrow> (kvs, None, w1))"

definition EtcdDelete :: "'w kv_lib \<Rightarrow> string \<Rightarrow> 'w \<Rightarrow> msg option \<times> 'w" where
  "EtcdDelete kv key w =
     (let (r, w1) = kv_delete kv key w
      in (case r of
            Inl err \<Rightarrow> Some (''failed to delete '' @ key @ '' from etcd store, the error is :'' @ err)
          | Inr deleted \<Rightarrow> if deleted \<noteq> 1 then Some (''key not exist error, key:'' @ key) else None, w1))"

subsection \<open>The lock\<close>

record etcd_locker =
  lo_session :: nat
  lo_key :: string

definition session_msg :: msg where
  "session_msg = [CHR 0xE5, CHR 0x88, CHR 0x9B, CHR 0xE5, CHR 0xBB, CHR 0xBA] @ '' session '' @
     [CHR 0xE5, CHR 0xA4, CHR 0xB1, CHR 0xE8, CHR 0xB4, CHR 0xA5] @ '': ''"

definition GetEtcdLocker :: "'w kv_lib \<Rightarrow> string \<Rightarrow> 'w \<Rightarrow> (msg + etcd_locker) \<times> 'w" where
  "GetEtcdLocker kv lockKey w =
     (let (r, w1) = lk_session kv w
      in (case r of Inl err \<Rightarrow> Inl (session_msg @ err) | Inr session \<Rightarrow> Inr \<lparr>lo_session = session, lo_key = lockKey\<rparr>, w1))"

text \<open>The loop of \<open>TryLock\<close>, with \<open>n\<close> attempts left of \<open>retry\<close>.\<close>

primrec try_lock :: "'w kv_lib \<Rightarrow> etcd_locker \<Rightarrow> nat \<Rightarrow> nat \<Rightarrow> int \<Rightarrow> 'w \<Rightarrow> msg option \<times> 'w" where
  "try_lock kv l retry 0 intervalMs w = (Some (''tryLock key failed after '' @ to_string (int retry) @ '' retries''), w)"
| "try_lock kv l retry (Suc n) intervalMs w =
     (let (err, w1) = lk_try_lock kv (lo_session l) (lo_key l) w
      in if err = None then (None, w1)
         else try_lock kv l retry n intervalMs (if n > 0 then go_sleep_ms kv intervalMs w1 else w1))"

definition TryLock :: "'w kv_lib \<Rightarrow> etcd_locker \<Rightarrow> nat \<Rightarrow> int \<Rightarrow> 'w \<Rightarrow> msg option \<times> 'w" where
  "TryLock kv l retry intervalMs w = try_lock kv l retry retry intervalMs w"

definition Unlock :: "'w kv_lib \<Rightarrow> etcd_locker \<Rightarrow> 'w \<Rightarrow> msg option \<times> 'w" where
  "Unlock kv l w =
     (let (err, w1) = lk_unlock kv (lo_session l) (lo_key l) w in (map_option (\<lambda>e. ''unlock key failed, '' @ e) err, w1))"

text \<open>The session is closed only when the lock could be released.\<close>

definition UnlockAndClose :: "'w kv_lib \<Rightarrow> etcd_locker \<Rightarrow> 'w \<Rightarrow> msg option \<times> 'w" where
  "UnlockAndClose kv l w =
     (let (err, w1) = Unlock kv l w in if err \<noteq> None then (err, w1) else (None, lk_close kv (lo_session l) w1))"

end
