(* ===== verification/Master_Api.thy ===== *)
theory Master_Api
  imports Master_Etcd
begin

text \<open>
  The handlers of the master: \<open>master/clusterapi/space_api.go\<close> and \<open>master/clusterapi/cluster_api.go\<close>, with
  \<open>utils/httputil\<close> and \<open>utils/concurrent\<close>. Creating and deleting a space changes etcd and then tells the
  partition servers and the routers; a key in etcd (\<open>DdlDisabledKey\<close>) bars both while one is under way, and
  stays behind when it failed. What a handler binds from the JSON of its request is an argument; its
  result is the answer and the changed world. \<open>None\<close> is a panic.
\<close>

subsection \<open>Calls to the nodes\<close>

record common_response =
  cr_code :: int
  cr_msg :: string

datatype http_result = Build_error msg | Send_error msg | Read_error msg | Http_body string

record 'w master_lib =
  ml_go :: go_lib
  ml_kv :: "'w kv_lib"
  ml_http :: "string \<Rightarrow> string \<Rightarrow> 'w \<Rightarrow> http_result \<times> 'w"
  ml_unmarshal :: "string \<Rightarrow> common_response \<Rightarrow> msg option \<times> common_response"
  ml_create_json :: "inner_space \<Rightarrow> partition_info \<Rightarrow> string"
  ml_delete_json :: "string \<Rightarrow> string \<Rightarrow> string"
  ml_add_json :: "inner_space \<Rightarrow> string"
  ml_order :: "nat \<Rightarrow> 'w \<Rightarrow> nat list"
  ml_time :: "'w \<Rightarrow> string"

definition zero_response :: common_response where
  "zero_response = \<lparr>cr_code = 0, cr_msg = ''''\<rparr>"

definition PostRequest :: "'w master_lib \<Rightarrow> string \<Rightarrow> string \<Rightarrow> common_response \<Rightarrow> 'w \<Rightarrow> (common_response \<times> msg) \<times> 'w" where
  "PostRequest lib url requestBody respStruct w =
     (let (r, w1) = ml_http lib url requestBody w
      in (case r of
            Build_error err \<Rightarrow> (respStruct, ''failed to build http request: '' @ err)
          | Send_error err \<Rightarrow> (respStruct, ''failed to send http request: '' @ err)
          | Read_error err \<Rightarrow> (respStruct, ''failed to read http response body: '' @ err)
          | Http_body body \<Rightarrow>
              let (e, resp) = ml_unmarshal lib body respStruct
              in (case e of None \<Rightarrow> (resp, '''') | Some err \<Rightarrow> (resp, ''failed to unmarshal http response body: '' @ err)), w1))"

record task_args =
  ta_node_type :: string
  ta_ip :: string
  ta_port :: int
  ta_req_json :: string

definition node_url :: "task_args \<Rightarrow> string" where
  "node_url a =
     (let addr = ''http://'' @ ta_ip a @ '':'' @ to_string (ta_port a)
      in if ta_node_type a = ''ps_delete'' then addr @ ''/PsService/DeleteSpace''
         else if ta_node_type a = ''router_delete'' then addr @ ''/space/delete_space''
         else if ta_node_type a = ''ps_create'' then addr @ ''/PsService/CreateSpace''
         else if ta_node_type a = ''router_create'' then addr @ ''/space/add_space''
         else '''')"

definition HttpOneNode :: "'w master_lib \<Rightarrow> task_args \<Rightarrow> 'w \<Rightarrow> (common_response \<times> msg) \<times> 'w" where
  "HttpOneNode lib a w =
     (let ((resp, err_str), w1) = PostRequest lib (node_url a) (ta_req_json a) zero_response w
      in (if err_str \<noteq> '''' \<or> cr_code resp \<noteq> 0
          then (resp\<lparr>cr_msg := cr_msg resp @ '', detail: '' @ err_str\<rparr>, err_str) else (resp, err_str), w1))"

text \<open>
  The workers take the tasks in some order, each call being one step; a result goes to the place of its
  task. The results start as zero values.
\<close>

fun run_tasks :: "('a \<Rightarrow> 'w \<Rightarrow> 'r \<times> 'w) \<Rightarrow> 'a list \<Rightarrow> nat list \<Rightarrow> 'r list \<Rightarrow> 'w \<Rightarrow> 'r list \<times> 'w" where
  "run_tasks f argsList [] results w = (results, w)"
| "run_tasks f argsList (idx # rest) results w =
     (let (r, w1) = f (argsList ! idx) w in run_tasks f argsList rest (results[idx := r]) w1)"

definition ParallelExecuteWithResults :: "'w master_lib \<Rightarrow> task_args list \<Rightarrow> 'w \<Rightarrow> (common_response \<times> msg) list \<times> 'w" where
  "ParallelExecuteWithResults lib argsList w =
     run_tasks (HttpOneNode lib) argsList (ml_order lib (length argsList) w) (replicate (length argsList) (zero_response, '''')) w"

subsection \<open>All servers of a space\<close>

definition failed_response :: "common_response \<times> msg \<Rightarrow> bool" where
  "failed_response r \<longleftrightarrow> snd r \<noteq> '''' \<or> cr_code (fst r) \<noteq> 0"

text \<open>The replica of a task: both the partition and its replica are computed with the number of partitions.\<close>

definition task_replica :: "inner_space \<Rightarrow> nat \<Rightarrow> replica_node ub" where
  "task_replica space idx =
     (if ns_partition_num space = 0 then None
      else do {
        part \<leftarrow> at_ub (ns_partitions space) (int idx div ns_partition_num space);
        at_ub (pi_replicas part) (int idx mod ns_partition_num space)
      })"

fun failed_idxs :: "inner_space \<Rightarrow> nat \<Rightarrow> (common_response \<times> msg) list \<Rightarrow> nat list ub" where
  "failed_idxs space idx [] = Some []"
| "failed_idxs space idx (r # rs) =
     (if failed_response r then do {
        errRep \<leftarrow> task_replica space idx;
        failed \<leftarrow> failed_idxs space (Suc idx) rs;
        Some (idx # failed)
      } else failed_idxs space (Suc idx) rs)"

definition ps_tasks :: "string \<Rightarrow> (partition_info \<Rightarrow> string) \<Rightarrow> inner_space \<Rightarrow> task_args list" where
  "ps_tasks nodeType reqJson space =
     concat (map (\<lambda>p. map (\<lambda>rep. \<lparr>ta_node_type = nodeType, ta_ip = rn_ps_ip rep, ta_port = rn_ps_port rep, ta_req_json = reqJson p\<rparr>) (pi_replicas p))
       (ns_partitions space))"

definition ParallelCreatePsSpace :: "'w master_lib \<Rightarrow> inner_space \<Rightarrow> 'w \<Rightarrow> (nat list \<times> 'w) ub" where
  "ParallelCreatePsSpace lib space w = do {
     let (results, w1) = ParallelExecuteWithResults lib (ps_tasks ''ps_create'' (ml_create_json lib space) space) w;
     failedPsIdxs \<leftarrow> failed_idxs space 0 results;
     Some (failedPsIdxs, w1)
   }"

definition ParallelDeletePsSpace :: "'w master_lib \<Rightarrow> inner_space \<Rightarrow> 'w \<Rightarrow> (nat list \<times> 'w) ub" where
  "ParallelDeletePsSpace lib space w = do {
     let req_json = ml_delete_json lib (ns_db_name space) (ns_space_name space);
     let (results, w1) = ParallelExecuteWithResults lib (ps_tasks ''ps_delete'' (\<lambda>_. req_json) space) w;
     failedPsIdxs \<leftarrow> failed_idxs space 0 results;
     Some (failedPsIdxs, w1)
   }"

definition router_tasks :: "'w master_lib \<Rightarrow> string \<Rightarrow> string \<Rightarrow> (string \<times> int) go_map \<Rightarrow> task_args list" where
  "router_tasks lib nodeType req_json m =
     map (\<lambda>(key, ip, port). \<lparr>ta_node_type = nodeType, ta_ip = ip, ta_port = port, ta_req_json = req_json\<rparr>) (range_map (ml_go lib) m)"

definition DeleteRouterSpace :: "'w master_lib \<Rightarrow> string \<Rightarrow> string \<Rightarrow> 'w \<Rightarrow> 'w ub" where
  "DeleteRouterSpace lib dbName spaceName w =
     (let req_json = ml_delete_json lib dbName spaceName;
          (kvs, err, w1) = PrefixScan (ml_kv lib) RouterNodesPrefix w
      in if err = None then do {
           m \<leftarrow> RouterDeserializeFromByte (map fst kvs) [];
           Some (snd (ParallelExecuteWithResults lib (router_tasks lib ''router_delete'' req_json m) w1))
         } else Some w1)"

definition AddRouterSpace :: "'w master_lib \<Rightarrow> inner_space \<Rightarrow> 'w \<Rightarrow> (msg \<times> 'w) ub" where
  "AddRouterSpace lib space w = do {
     let (kvs, _, w1) = PrefixScan (ml_kv lib) RouterNodesPrefix w;
     m \<leftarrow> RouterDeserializeFromByte (map fst kvs) [];
     Some ('''', snd (ParallelExecuteWithResults lib (router_tasks lib ''router_create'' (ml_add_json lib space) m) w1))
   }"

subsection \<open>Creating a space\<close>

definition ValidateNameAndGetIdlePsNode :: "'w master_lib \<Rightarrow> inner_space \<Rightarrow> 'w \<Rightarrow> ((replica_node list \<times> msg) \<times> 'w) ub" where
  "ValidateNameAndGetIdlePsNode lib space w = do {
     let (ps_kvs, _, w1) = PrefixScan (ml_kv lib) PsNodesPrefix w;
     let (err_kvs, _, w2) = PrefixScan (ml_kv lib) ErrPsNodesPrefix w1;
     replicaList \<leftarrow> RepDeserializeFromByte (map fst ps_kvs) [];
     errReplicaList \<leftarrow> RepDeserializeFromByte (map fst err_kvs) [];
     let (space_kvs, _, w3) = PrefixScan (ml_kv lib) SpacesMataPrefix w2;
     let busySpaceList = DeserializeFromByteList (ml_go lib) (map snd space_kvs);
     let db_and_space_name = space_name_of space;
     Some (if map_of busySpaceList db_and_space_name \<noteq> None
           then ([], ''DB_name + space_name['' @ db_and_space_name @ ''] already exists, Please reset DB_name and Space_name.'')
           else (GetAllIdlePsKeys (ml_go lib) [GetAllPsMap (ml_go lib) busySpaceList, errReplicaList] replicaList, ''''), w3)
   }"

fun PutNodesErrInfoToEtcd :: "'w master_lib \<Rightarrow> inner_space \<Rightarrow> nat list \<Rightarrow> msg \<Rightarrow> 'w \<Rightarrow> (msg \<times> 'w) ub" where
  "PutNodesErrInfoToEtcd lib space [] errMsg w = Some ('''', w)"
| "PutNodesErrInfoToEtcd lib space (idx # failedIdxs) errMsg w = do {
     rep \<leftarrow> task_replica space idx;
     let key = GetErrPsNodeEtcdKey (rn_ps_ip rep) (rn_ps_port rep) (rn_ps_id rep);
     let m = ''space_id:'' @ to_string (ns_id space) @ '' '' @ errMsg;
     let (_, w1) = PutOrAppend (ml_kv lib) key m EtcdValMaxLen w;
     (rest, w2) \<leftarrow> PutNodesErrInfoToEtcd lib space failedIdxs errMsg w1;
     Some (''ip:'' @ rn_ps_ip rep @ '', port:'' @ to_string (rn_ps_port rep) @ '', id:'' @ to_string (rn_ps_id rep) @ ''; '' @ rest, w2)
   }"

text \<open>The two loops that give the partitions their nodes: replica \<open>rid\<close> of the partition gets the next node.\<close>

fun fill_replicas :: "replica_node list \<Rightarrow> nat \<Rightarrow> nat \<Rightarrow> int \<Rightarrow> partition_info \<Rightarrow> (partition_info \<times> int) ub" where
  "fill_replicas idle 0 rid node_idx part = Some (part, node_idx)"
| "fill_replicas idle (Suc n) rid node_idx part = do {
     node \<leftarrow> at_ub idle node_idx;
     replicas \<leftarrow> update_ub (pi_replicas part) (int rid) node;
     fill_replicas idle n (Suc rid) (node_idx + 1) (part\<lparr>pi_replicas := replicas\<rparr>)
   }"

fun fill_partitions :: "replica_node list \<Rightarrow> string \<Rightarrow> nat \<Rightarrow> nat \<Rightarrow> int \<Rightarrow> inner_space \<Rightarrow> inner_space ub" where
  "fill_partitions idle timeStr 0 pid node_idx space = Some space"
| "fill_partitions idle timeStr (Suc n) pid node_idx space = do {
     let groupName = GetPartitionGroupName (ns_db_name space) (ns_space_name space) (int pid);
     part \<leftarrow> CreatePartition groupName (int pid) (ns_replica_num space) timeStr;
     (part1, node_idx1) \<leftarrow> fill_replicas idle (nat (ns_replica_num space)) 0 node_idx part;
     fill_partitions idle timeStr n (Suc pid) node_idx1 (space\<lparr>ns_partitions := ns_partitions space @ [part1]\<rparr>)
   }"

definition create_prefix :: "inner_space \<Rightarrow> msg" where
  "create_prefix space = ''CreateSpace(db_name:'' @ ns_db_name space @ '', space_name:'' @ ns_space_name space @ '')''"

text \<open>Undoing a creation: the servers are told to delete the space, and those that fail are recorded.\<close>

definition undo_create :: "'w master_lib \<Rightarrow> inner_space \<Rightarrow> msg \<Rightarrow> 'w \<Rightarrow> 'w ub" where
  "undo_create lib space errMsg w = do {
     (deletedFailedPsIdxs, w1) \<leftarrow> ParallelDeletePsSpace lib space w;
     (failedNodesStr, w2) \<leftarrow> PutNodesErrInfoToEtcd lib space deletedFailedPsIdxs errMsg w1;
     Some (if length failedNodesStr > 0
           then snd (PutOrAppend (ml_kv lib) DdlDisabledKey (''delete ps failed nodes: '' @ failedNodesStr @ ''; '') EtcdValMaxLen w2) else w2)
   }"

text \<open>
  The second half of \<open>CreatePsSpaceImpl\<close>, once the space is filled in. The result: whether spaces may still be
  created, the message, and the space.
\<close>

definition create_filled :: "'w master_lib \<Rightarrow> msg \<Rightarrow> inner_space \<Rightarrow> 'w \<Rightarrow> (bool \<times> msg \<times> inner_space \<times> 'w) ub" where
  "create_filled lib log_prefix space w = do {
     let kv = ml_kv lib;
     let etcdKey = GetSpaceEtcdKey (ns_db_name space) (ns_space_name space);
     let errSpaceKey = GetErrSpaceEtcdKey (ns_db_name space) (ns_space_name space) (ns_id space);
     let spaceJson = gl_space_json (ml_go lib) space;
     let (_, w2) = EtcdPut kv DdlDisabledKey (spaceJson @ ''; '') w;
     (failedPsIdxs, w3) \<leftarrow> ParallelCreatePsSpace lib space w2;
     if length failedPsIdxs > 0 then do {
       let e_str = log_prefix @ '', Create ps space failed, deadly error; '';
       (failedNodesStr, w4) \<leftarrow> PutNodesErrInfoToEtcd lib space failedPsIdxs e_str w3;
       let info = ''create ps space failed; failed nodes: '' @ failedNodesStr @ ''; '';
       let (_, w5) = PutOrAppend kv errSpaceKey info EtcdValMaxLen w4;
       let (_, w6) = PutOrAppend kv DdlDisabledKey info EtcdValMaxLen w5;
       w7 \<leftarrow> undo_create lib space ''delete ps space failed; '' w6;
       Some (False, e_str, space, w7)
     } else
       let (e, w4) = EtcdPut kv etcdKey spaceJson w3
       in case e of
            Some err \<Rightarrow> do {
              let e_str = log_prefix @ '', Put space mata info to etcd failed, deadly error:'' @ err @ ''; '';
              let (_, w5) = PutOrAppend kv errSpaceKey e_str EtcdValMaxLen w4;
              w6 \<leftarrow> undo_create lib space e_str w5;
              Some (False, e_str, space, w6)
            }
          | None \<Rightarrow> Some (True, '''', space, snd (EtcdDelete kv DdlDisabledKey w4))
   }"

definition CreatePsSpaceImpl :: "'w master_lib \<Rightarrow> inner_space \<Rightarrow> replica_node list \<Rightarrow> 'w \<Rightarrow> (bool \<times> msg \<times> inner_space \<times> 'w) ub" where
  "CreatePsSpaceImpl lib space0 idlePsList w = do {
     let log_prefix = create_prefix space0;
     let timeStr = ml_time lib w;
     let space1 = space0\<lparr>ns_ctime := timeStr, ns_mtime := timeStr\<rparr>;
     let need = ns_partition_num space1 * ns_replica_num space1;
     if int (length idlePsList) < need then
       Some (True, log_prefix @ '', not enough idle PS nodes, need '' @ to_string need @ '', but only '' @
         to_string (int (length idlePsList)) @ '', Create space failed'', space1, w)
     else do {
       space2 \<leftarrow> fill_partitions idlePsList timeStr (nat (ns_partition_num space1)) 0 0 space1;
       let ((spaceId, _), w1) = NewIDGenerate (ml_kv lib) GenSpaceIdKey IdBaseVal w;
       create_filled lib log_prefix (space2\<lparr>ns_id := spaceId\<rparr>) w1
     }
   }"

definition ValidateCreateSpaceParam :: "'w master_lib \<Rightarrow> msg + api_space \<Rightarrow> (inner_space \<times> msg) ub" where
  "ValidateCreateSpaceParam lib body =
     (case body of
        Inl err \<Rightarrow> Some (zero_space, ''params error '' @ err)
      | Inr apiSpace \<Rightarrow> do {
          unvalid_str \<leftarrow> CheckApiSpace (ml_go lib) apiSpace;
          Some (ApiSpaceToInnerSpace (ml_go lib) apiSpace, unvalid_str)
        })"

definition create_unlocked :: "'w master_lib \<Rightarrow> inner_space \<Rightarrow> 'w \<Rightarrow> ((int \<times> msg) \<times> 'w) ub" where
  "create_unlocked lib space w =
     (let log_prefix = create_prefix space;
          (val, w1) = EtcdGet (ml_kv lib) DdlDisabledKey w
      in if val \<noteq> Inr None then Some ((10, log_prefix @ '', cluster has error, cannot create space.''), w1)
         else do {
           ((idlePsNode, m), w2) \<leftarrow> ValidateNameAndGetIdlePsNode lib space w1;
           if length m > 0 then Some ((10, m), w2)
           else do {
             (isDdlAbled, m1, space1, w3) \<leftarrow> CreatePsSpaceImpl lib space idlePsNode w2;
             if length m1 > 0 then Some ((if \<not> isDdlAbled then 100 else 10, m1), w3)
             else do {
               (_, w4) \<leftarrow> AddRouterSpace lib space1 w3;
               Some ((0, ''success''), w4)
             }
           }
         })"

definition createSpace :: "'w master_lib \<Rightarrow> msg + api_space \<Rightarrow> 'w \<Rightarrow> ((int \<times> msg) \<times> 'w) ub" where
  "createSpace lib body w = do {
     (space, m) \<leftarrow> ValidateCreateSpaceParam lib body;
     let log_prefix = create_prefix space;
     if m \<noteq> '''' then Some ((10, m), w)
     else
       let (r, w1) = GetEtcdLocker (ml_kv lib) DdlLockKey w
       in case r of
            Inl err \<Rightarrow> Some ((10, log_prefix @ '', get etcd locker failed: '' @ err), w1)
          | Inr ddlLocker \<Rightarrow>
              let (err, w2) = TryLock (ml_kv lib) ddlLocker 20 200 w1
              in do {
                (answer, w3) \<leftarrow> (if err \<noteq> None then Some ((10, log_prefix @ '', get etcd locker failed''), w2) else create_unlocked lib space w2);
                Some (answer, snd (UnlockAndClose (ml_kv lib) ddlLocker w3))
              }
   }"


subsection \<open>Deleting a space\<close>

definition delete_prefix :: "string \<Rightarrow> string \<Rightarrow> msg" where
  "delete_prefix dbName spaceName = ''DeleteSpace(db_name:'' @ dbName @ '', space_name:'' @ spaceName @ '')''"

text \<open>What follows once the key of the space is gone.\<close>

definition delete_nodes :: "'w master_lib \<Rightarrow> string \<Rightarrow> string \<Rightarrow> inner_space \<Rightarrow> 'w \<Rightarrow> ((int \<times> msg) \<times> 'w) ub" where
  "delete_nodes lib dbName spaceName space w = do {
     let kv = ml_kv lib;
     let log_prefix = delete_prefix dbName spaceName;
     let deletedSpaceKey = GetDeletedSpaceEtcdKey dbName spaceName (ns_id space);
     let errSpaceKey = GetErrSpaceEtcdKey dbName spaceName (ns_id space);
     w5 \<leftarrow> DeleteRouterSpace lib dbName spaceName w;
     (failedPsIdxs, w6) \<leftarrow> ParallelDeletePsSpace lib space w5;
     if length failedPsIdxs > 0 then do {
       (failedNodesStr, w7) \<leftarrow> PutNodesErrInfoToEtcd lib space failedPsIdxs (log_prefix @ '' delete ps space failed; '') w6;
       let (_, w8) = PutOrAppend kv errSpaceKey (''delete ps space failed; failed nodes: '' @ failedNodesStr) EtcdValMaxLen w7;
       let (_, w9) = EtcdDelete kv DdlDisabledKey w8;
       Some ((100, log_prefix @ '' delete ps space failed, deadly error nodes:'' @ failedNodesStr), w9)
     } else
       let (_, w7) = EtcdDelete kv DdlDisabledKey w6;
           (_, w8) = PutOrAppend kv deletedSpaceKey ''; success'' EtcdValMaxLen w7
       in Some ((0, ''success''), w8)
   }"

text \<open>
  What happens between taking and releasing the lock. The error of decoding the space is never set
  (see \<open>DeserializeFromByte\<close>), but its branch is there. The monitor only prints.
\<close>

definition delete_stored :: "'w master_lib \<Rightarrow> string \<Rightarrow> string \<Rightarrow> string \<Rightarrow> 'w \<Rightarrow> ((int \<times> msg) \<times> 'w) ub" where
  "delete_stored lib dbName spaceName space_detail w =
     (let kv = ml_kv lib;
          log_prefix = delete_prefix dbName spaceName;
          (val, w1) = EtcdGet kv DdlDisabledKey w
      in if val \<noteq> Inr None then Some ((100, log_prefix @ '', cluster has error, cannot create space.''), w1)
         else
           let (err, space) = DeserializeFromByte (ml_go lib) space_detail zero_space
           in if err \<noteq> '''' then
                (let m = log_prefix @ '', deserialize space_json failed, err: '' @ err @ ''; ''
                 in Some ((100, m), snd (PutOrAppend kv ErrLog m ErrLogValMaxLen w1)))
              else
                let deletedSpaceKey = GetDeletedSpaceEtcdKey dbName spaceName (ns_id space);
                    errSpaceKey = GetErrSpaceEtcdKey dbName spaceName (ns_id space);
                    (_, w2) = EtcdPut kv deletedSpaceKey space_detail w1;
                    (_, w3) = EtcdPut kv DdlDisabledKey log_prefix w2;
                    (e, w4) = EtcdDelete kv (GetSpaceEtcdKey dbName spaceName) w3
                in if e \<noteq> None then
                     Some ((100, ''''), snd (PutOrAppend kv errSpaceKey ''delete etcd space info failed; '' EtcdValMaxLen w4))
                   else delete_nodes lib dbName spaceName space w4)"

text \<open>The outcome of \<open>TryLock\<close> is not looked at.\<close>

definition deleteSpace :: "'w master_lib \<Rightarrow> msg + string \<times> string \<Rightarrow> 'w \<Rightarrow> ((int \<times> msg) \<times> 'w) ub" where
  "deleteSpace lib body w =
     (case body of
        Inl err \<Rightarrow> Some ((10, ''delete_space api request params error: '' @ err), w)
      | Inr (dbName, spaceName) \<Rightarrow>
          let log_prefix = delete_prefix dbName spaceName;
              (r, w1) = GetEtcdLocker (ml_kv lib) DdlLockKey w
          in (case r of
                Inl err \<Rightarrow> Some ((10, log_prefix @ '' failed, get etcd locker failed: '' @ err), w1)
              | Inr ddlLocker \<Rightarrow> do {
                  let (_, w2) = TryLock (ml_kv lib) ddlLocker 20 200 w1;
                  let (detail, w3) = EtcdGet (ml_kv lib) (GetSpaceEtcdKey dbName spaceName) w2;
                  (answer, w4) \<leftarrow>
                    (case detail of
                       Inr (Some space_detail) \<Rightarrow> delete_stored lib dbName spaceName space_detail w3
                     | _ \<Rightarrow> Some ((10, log_prefix @ '' is not exist''), w3));
                  Some (answer, snd (UnlockAndClose (ml_kv lib) ddlLocker w4))
                }))"

subsection \<open>The other handlers\<close>

text \<open>The list of spaces: the values of the map, in its order.\<close>

definition spaceList :: "'w master_lib \<Rightarrow> msg + string \<Rightarrow> 'w \<Rightarrow> (msg + inner_space list) \<times> 'w" where
  "spaceList lib body w =
     (case body of
        Inl err \<Rightarrow> (Inl (''params error '' @ err), w)
      | Inr name_prefix \<Rightarrow>
          let (kvs, _, w1) = PrefixScan (ml_kv lib) SpacesMataPrefix w;
              m = DeserializeFromByteList (ml_go lib) (map snd kvs)
          in (Inr (map snd (range_map (ml_go lib) m)), w1))"

text \<open>The answer is the code, the message and the id.\<close>

definition genID :: "'w master_lib \<Rightarrow> msg + int \<Rightarrow> 'w \<Rightarrow> (int \<times> msg \<times> int) \<times> 'w" where
  "genID lib body w =
     (case body of
        Inl err \<Rightarrow> ((10, ''params error '' @ err, - 1), w)
      | Inr _ \<Rightarrow>
          let ((genId, _), w1) = NewIDGenerate (ml_kv lib) GenPsIdKey IdBaseVal w in ((0, ''success'', genId), w1))"

text \<open>The loop over the three maps: the first that knows the node under another id refuses it.\<close>

fun known_otherwise :: "string \<Rightarrow> int \<Rightarrow> replica_node go_map list \<Rightarrow> int option" where
  "known_otherwise name ps_id [] = None"
| "known_otherwise name ps_id (m # ms) =
     (case map_of m name of
        Some nodeInfo \<Rightarrow> if rn_ps_id nodeInfo \<noteq> ps_id then Some (rn_ps_id nodeInfo) else known_otherwise name ps_id ms
      | None \<Rightarrow> known_otherwise name ps_id ms)"

definition register_locked :: "'w master_lib \<Rightarrow> string \<Rightarrow> int \<Rightarrow> int \<Rightarrow> 'w \<Rightarrow> ((int \<times> msg \<times> string) \<times> 'w) ub" where
  "register_locked lib ip port ps_id w = do {
     let kv = ml_kv lib;
     let curNodeName = GetPsNodeName ip port;
     let (ps_kvs, _, w1) = PrefixScan kv (PsNodesPrefix @ ''/'' @ curNodeName) w;
     let (err_kvs, _, w2) = PrefixScan kv (ErrPsNodesPrefix @ ''/'' @ curNodeName) w1;
     replicaList \<leftarrow> RepDeserializeFromByte (map fst ps_kvs) [];
     errReplicaList \<leftarrow> RepDeserializeFromByte (map fst err_kvs) [];
     let (space_kvs, _, w3) = PrefixScan kv SpacesMataPrefix w2;
     let busyPsKeyMap = GetAllPsMap (ml_go lib) (DeserializeFromByteList (ml_go lib) (map snd space_kvs));
     Some (case known_otherwise curNodeName ps_id [busyPsKeyMap, replicaList, errReplicaList] of
         Some old_id \<Rightarrow>
           ((12, ''register node ip:'' @ ip @ '' port:'' @ to_string port @ '' already exists. old_id:'' @ to_string old_id @
             '' new_id:'' @ to_string ps_id, ''''), w3)
       | None \<Rightarrow>
           let nodeKey = GetPsRegisterKey ip port ps_id
           in ((0, ''success'', nodeKey), snd (CreateWithTTL kv nodeKey ''by_master_put'' PsNodeTTL w3)))
   }"

definition register :: "'w master_lib \<Rightarrow> msg + string \<times> int \<times> int \<Rightarrow> 'w \<Rightarrow> ((int \<times> msg \<times> string) \<times> 'w) ub" where
  "register lib body w =
     (case body of
        Inl err \<Rightarrow> Some ((10, ''params error '' @ err, ''''), w)
      | Inr (ip, port, ps_id) \<Rightarrow>
          let (r, w1) = GetEtcdLocker (ml_kv lib) DdlLockKey w
          in (case r of
                Inl err \<Rightarrow> Some ((10, ''get etcd locker failed: '' @ err, ''''), w1)
              | Inr ddlLocker \<Rightarrow>
                  let (err, w2) = TryLock (ml_kv lib) ddlLocker 20 200 w1
                  in do {
                    (answer, w3) \<leftarrow>
                      (case err of
                         Some e \<Rightarrow> Some ((11, ''TryLock etcd locker failed: '' @ e, ''''), w2)
                       | None \<Rightarrow> register_locked lib ip port ps_id w2);
                    Some (answer, snd (UnlockAndClose (ml_kv lib) ddlLocker w3))
                  }))"

text \<open>Starting: the two counters are made when they are missing, so that the first id handed out is 1.\<close>

definition init_counter :: "'w kv_lib \<Rightarrow> string \<Rightarrow> 'w \<Rightarrow> 'w" where
  "init_counter kv key w =
     (let (val, w1) = EtcdGet kv key w
      in case val of Inr (Some _) \<Rightarrow> w1 | _ \<Rightarrow> snd (NewIDGenerate kv key IdBaseVal w1))"

definition InitClusterApi :: "'w master_lib \<Rightarrow> 'w \<Rightarrow> 'w" where
  "InitClusterApi lib w = init_counter (ml_kv lib) GenSpaceIdKey (init_counter (ml_kv lib) GenPsIdKey w)"

end
