(* ===== verification/Master_Spaces.thy ===== *)
theory Master_Spaces
  imports Master_Api "HOL-Library.Sublist"
begin

text \<open>
  What the handlers of the master do to the spaces in etcd. The libraries are described by \<open>kv_spec\<close> (the
  keys the master alone writes), \<open>http_keeps\<close> (partition servers and routers do not write them) and
  \<open>go_spec\<close> (JSON reads back, \<open>range\<close> visits every key once). Handlers are taken one after the other; a
  handler that panics is left out of a run.
\<close>

subsection \<open>Libraries\<close>

text \<open>The keys that are not bound to a lease: all but those of the nodes and of the lock.\<close>

definition kept :: "string \<Rightarrow> bool" where
  "kept k \<longleftrightarrow> \<not> prefix ''/nodes'' k \<and> \<not> prefix ''/ddl/lock'' k"

text \<open>A call that failed may have been carried out or not.\<close>

definition kv_spec :: "'w kv_lib \<Rightarrow> ('w \<Rightarrow> string \<rightharpoonup> string) \<Rightarrow> bool" where
  "kv_spec kv store \<longleftrightarrow>
     (\<forall>k v l w e w'. kv_put kv k v l w = (e, w') \<longrightarrow>
        (kept k \<and> store w' = (store w)(k \<mapsto> v)) \<or> ((e \<noteq> None \<or> \<not> kept k) \<and> store w' = store w)) \<and>
     (\<forall>k w r w'. kv_get kv k w = (r, w') \<longrightarrow> store w' = store w \<and>
        (\<forall>kvs. kept k \<and> r = Inr kvs \<longrightarrow> kvs = (case store w k of None \<Rightarrow> [] | Some v \<Rightarrow> [(k, v)]))) \<and>
     (\<forall>p w r w'. kv_get_prefix kv p w = (r, w') \<longrightarrow> store w' = store w \<and>
        (\<forall>kvs. (\<forall>k. prefix p k \<longrightarrow> kept k) \<and> r = Inr kvs \<longrightarrow>
           distinct (map fst kvs) \<and> set kvs = {(k, v). prefix p k \<and> store w k = Some v})) \<and>
     (\<forall>k w r w'. kv_delete kv k w = (r, w') \<longrightarrow>
        (kept k \<and> store w' = (store w)(k := None)) \<or> ((\<not> kept k \<or> (\<exists>e. r = Inl e)) \<and> store w' = store w)) \<and>
     (\<forall>ttl w. store (snd (kv_grant kv ttl w)) = store w) \<and>
     (\<forall>k f w r w'. kv_stm kv k f w = (r, w') \<longrightarrow>
        (\<forall>v. r = Inr (True, v) \<longrightarrow> v = (case store w k of None \<Rightarrow> '''' | Some v \<Rightarrow> v) \<and> (\<exists>x. f v = Inr x \<and> store w' = (store w)(k \<mapsto> x))) \<and>
        (store w' k = store w k \<or> (\<exists>x. f (case store w k of None \<Rightarrow> '''' | Some v \<Rightarrow> v) = Inr x \<and> store w' k = Some x)) \<and>
        (\<forall>k'. k' \<noteq> k \<longrightarrow> store w' k' = store w k')) \<and>
     (\<forall>w. store (snd (lk_session kv w)) = store w) \<and> (\<forall>s k w. store (snd (lk_try_lock kv s k w)) = store w) \<and>
     (\<forall>s k w. store (snd (lk_unlock kv s k w)) = store w) \<and> (\<forall>s w. store (lk_close kv s w) = store w) \<and>
     (\<forall>ms w. store (go_sleep_ms kv ms w) = store w)"

lemma kv_specD:
  assumes "kv_spec kv store"
  shows "kv_get kv k w = (r, w') \<Longrightarrow> store w' = store w"
    and "kv_get kv k w = (Inr kvs, w') \<Longrightarrow> kept k \<Longrightarrow> kvs = (case store w k of None \<Rightarrow> [] | Some v \<Rightarrow> [(k, v)])"
    and "kv_get_prefix kv p w = (r, w') \<Longrightarrow> store w' = store w"
    and "kv_get_prefix kv p w = (Inr kvs, w') \<Longrightarrow> (\<And>k. prefix p k \<Longrightarrow> kept k) \<Longrightarrow>
      distinct (map fst kvs) \<and> set kvs = {(k, v). prefix p k \<and> store w k = Some v}"
    and "kv_put kv k v l w = (e, w') \<Longrightarrow> store w' = (store w)(k \<mapsto> v) \<or> (e \<noteq> None \<or> \<not> kept k) \<and> store w' = store w"
    and "kv_delete kv k w = (d, w') \<Longrightarrow> store w' = (store w)(k := None) \<or> ((\<exists>e. d = Inl e) \<or> \<not> kept k) \<and> store w' = store w"
    and "kv_stm kv k f w = (x, w') \<Longrightarrow> k' \<noteq> k \<Longrightarrow> store w' k' = store w k'"
    and "kv_stm kv k f w = (Inr (True, v), w') \<Longrightarrow>
      v = (case store w k of None \<Rightarrow> '''' | Some v \<Rightarrow> v) \<and> (\<exists>x. f v = Inr x \<and> store w' = (store w)(k \<mapsto> x))"
    and "kv_stm kv k f w = (x, w') \<Longrightarrow>
      store w' k = store w k \<or> (\<exists>y. f (case store w k of None \<Rightarrow> '''' | Some v \<Rightarrow> v) = Inr y \<and> store w' k = Some y)"
proof -
  note s = assms [unfolded kv_spec_def]
  note put = s [THEN conjunct1, THEN spec, THEN spec, THEN spec, THEN spec, THEN spec, THEN spec, THEN mp]
  note get = s [THEN conjunct2, THEN conjunct1, THEN spec, THEN spec, THEN spec, THEN spec, THEN mp]
  note scan = s [THEN conjunct2, THEN conjunct2, THEN conjunct1, THEN spec, THEN spec, THEN spec, THEN spec, THEN mp]
  note del = s [THEN conjunct2, THEN conjunct2, THEN conjunct2, THEN conjunct1, THEN spec, THEN spec, THEN spec, THEN spec, THEN mp]
  note stm = s [THEN conjunct2, THEN conjunct2, THEN conjunct2, THEN conjunct2, THEN conjunct2, THEN conjunct1,
      THEN spec, THEN spec, THEN spec, THEN spec, THEN spec, THEN mp]
  show "store w' = store w" if "kv_get kv k w = (r, w')" using get [OF that] by blast
  show "kvs = (case store w k of None \<Rightarrow> [] | Some v \<Rightarrow> [(k, v)])" if "kv_get kv k w = (Inr kvs, w')" "kept k" using get [OF that(1)] that(2) by blast
  show "store w' = store w" if "kv_get_prefix kv p w = (r, w')" using scan [OF that] by blast
  show "distinct (map fst kvs) \<and> set kvs = {(k, v). prefix p k \<and> store w k = Some v}"
    if "kv_get_prefix kv p w = (Inr kvs, w')" "\<And>k. prefix p k \<Longrightarrow> kept k" using scan [OF that(1)] that(2) by blast
  show "store w' = (store w)(k \<mapsto> v) \<or> (e \<noteq> None \<or> \<not> kept k) \<and> store w' = store w" if "kv_put kv k v l w = (e, w')" using put [OF that] by blast
  show "store w' = (store w)(k := None) \<or> ((\<exists>e. d = Inl e) \<or> \<not> kept k) \<and> store w' = store w" if "kv_delete kv k w = (d, w')" using del [OF that] by blast
  show "store w' k' = store w k'" if "kv_stm kv k f w = (x, w')" "k' \<noteq> k" using stm [OF that(1)] that(2) by blast
  show "v = (case store w k of None \<Rightarrow> '''' | Some v \<Rightarrow> v) \<and> (\<exists>x. f v = Inr x \<and> store w' = (store w)(k \<mapsto> x))" if "kv_stm kv k f w = (Inr (True, v), w')"
    using stm [OF that] by blast
  show "store w' k = store w k \<or> (\<exists>y. f (case store w k of None \<Rightarrow> '''' | Some v \<Rightarrow> v) = Inr y \<and> store w' k = Some y)"
    if "kv_stm kv k f w = (x, w')" using stm [OF that] by blast
qed

definition http_keeps :: "'w master_lib \<Rightarrow> ('w \<Rightarrow> string \<rightharpoonup> string) \<Rightarrow> bool" where
  "http_keeps lib store \<longleftrightarrow> (\<forall>url body w. store (snd (ml_http lib url body w)) = store w)"

definition go_spec :: "go_lib \<Rightarrow> bool" where
  "go_spec gl \<longleftrightarrow>
     (\<forall>s. gl_space_unmarshal gl (gl_space_json gl s) zero_space = (True, s)) \<and>
     (\<forall>ks. distinct ks \<longrightarrow> distinct (gl_range gl ks) \<and> set (gl_range gl ks) = set ks)"

text \<open>Scans succeed: the code drops their errors, and takes a failed scan for an empty one.\<close>

definition scans_ok :: "'w kv_lib \<Rightarrow> bool" where
  "scans_ok kv \<longleftrightarrow> (\<forall>p w. \<exists>kvs w'. kv_get_prefix kv p w = (Inr kvs, w'))"

subsection \<open>Names and keys\<close>

definition node_name :: "replica_node \<Rightarrow> string" where
  "node_name r = GetPsNodeName (rn_ps_ip r) (rn_ps_port r)"

definition named_ok :: "inner_space \<Rightarrow> bool" where
  "named_ok s \<longleftrightarrow> NameValidate (ns_db_name s) = '''' \<and> NameValidate (ns_space_name s) = ''''"

definition space_key :: "inner_space \<Rightarrow> string" where
  "space_key s = GetSpaceEtcdKey (ns_db_name s) (ns_space_name s)"

lemma NameValidate_chars: "NameValidate s = '''' \<Longrightarrow> CHR '':'' \<notin> set s \<and> CHR ''/'' \<notin> set s"
  by (auto simp: NameValidate_def too_short_msg_def first_letter_msg_def characters_msg_def list_all_iff name_char_def isdigit_def Let_def
      split: if_splits)

lemma append_sep_inject:
  assumes "c \<notin> set a" and "c \<notin> set b" and "a @ c # x = b @ c # y"
  shows "a = b \<and> x = y"
  using assms by (induction a arbitrary: b) (auto simp: Cons_eq_append_conv append_eq_Cons_conv)

lemma space_key_inject:
  assumes "named_ok s" and "named_ok t" and "space_key s = space_key t"
  shows "ns_db_name s = ns_db_name t \<and> ns_space_name s = ns_space_name t"
proof -
  have "CHR ''/'' \<notin> set (ns_db_name s)" "CHR ''/'' \<notin> set (ns_db_name t)"
    using assms(1,2) NameValidate_chars unfolding named_ok_def by blast+
  moreover have "ns_db_name s @ CHR ''/'' # ns_space_name s = ns_db_name t @ CHR ''/'' # ns_space_name t"
    using assms(3) by (simp add: space_key_def GetSpaceEtcdKey_def)
  ultimately show ?thesis by (rule append_sep_inject)
qed

lemma space_name_inject:
  assumes "named_ok s" and "named_ok t" and "space_name_of s = space_name_of t"
  shows "space_key s = space_key t"
proof -
  have "CHR '':'' \<notin> set (ns_db_name s)" "CHR '':'' \<notin> set (ns_db_name t)"
    using assms(1,2) NameValidate_chars unfolding named_ok_def by blast+
  moreover have "ns_db_name s @ CHR '':'' # ns_space_name s = ns_db_name t @ CHR '':'' # ns_space_name t"
    using assms(3) by (simp add: space_name_of_def)
  ultimately have "ns_db_name s = ns_db_name t \<and> ns_space_name s = ns_space_name t" by (rule append_sep_inject)
  then show ?thesis by (simp add: space_key_def)
qed

definition of_spaces :: "string \<Rightarrow> bool" where
  "of_spaces k \<longleftrightarrow> prefix SpacesMataPrefix k"

lemma of_spaces_keys [simp]:
  "of_spaces (GetSpaceEtcdKey d s)" "\<not> of_spaces DdlDisabledKey" "\<not> of_spaces (GetErrSpaceEtcdKey d s i)"
  "\<not> of_spaces (GetDeletedSpaceEtcdKey d s i)" "\<not> of_spaces (GetErrPsNodeEtcdKey ip port i)" "\<not> of_spaces ErrLog"
  "\<not> of_spaces GenSpaceIdKey" "\<not> of_spaces GenPsIdKey" "\<not> of_spaces (GetPsRegisterKey ip port i)"
  by (simp_all add: of_spaces_def GetSpaceEtcdKey_def SpacesMataPrefix_def DdlDisabledKey_def GetErrSpaceEtcdKey_def ErrSpacesPrefix_def
      GetDeletedSpaceEtcdKey_def DeletedSpacesMataPrefix_def GetErrPsNodeEtcdKey_def ErrPsNodesPrefix_def ErrLog_def GenSpaceIdKey_def
      GenPsIdKey_def GetPsRegisterKey_def PsNodesPrefix_def)

lemma of_spaces_kept: "of_spaces k \<Longrightarrow> kept k"
  by (auto simp: of_spaces_def kept_def SpacesMataPrefix_def prefix_def)


subsection \<open>Lists of nodes\<close>

definition nodes_ok :: "replica_node go_map \<Rightarrow> bool" where
  "nodes_ok m \<longleftrightarrow> distinct (map fst m) \<and> (\<forall>(k, r) \<in> set m. k = node_name r)"

lemma set_update_subset: "set (AList.update k v m) \<subseteq> insert (k, v) (set m)"
  by (induction m) auto

lemma RepDeserializeFromByte_ok: "RepDeserializeFromByte keys m = Some m' \<Longrightarrow> nodes_ok m \<Longrightarrow> nodes_ok m'"
proof (induction keys m rule: RepDeserializeFromByte.induct)
  case (2 key keys m)
  then obtain ip port i where p: "ParsePsRegisterKey key = Some (ip, port, i)" by (auto simp: bind_eq_Some_conv)
  show ?case
  proof (cases "map_of m (GetPsNodeName ip port) = None")
    case True
    let ?r = "\<lparr>rn_ps_id = i, rn_ps_ip = ip, rn_ps_port = port, rn_is_leader = 0, rn_node_status = '''', rn_msg = ''''\<rparr>"
    have "nodes_ok (AList.update (GetPsNodeName ip port) ?r m)"
      using 2(4) set_update_subset [of "GetPsNodeName ip port" ?r m] by (fastforce simp: nodes_ok_def node_name_def distinct_update)
    with 2 p True show ?thesis by simp
  qed (use 2 p in simp)
qed simp

lemma range_map_keys:
  assumes "go_spec gl" and "distinct (map fst m)"
  shows "distinct (map fst (range_map gl m))" and "set (range_map gl m) = set m"
proof -
  have r: "distinct (gl_range gl (map fst m))" "set (gl_range gl (map fst m)) = fst ` set m" using assms by (auto simp: go_spec_def)
  show "distinct (map fst (range_map gl m))" using r(1) by (simp add: range_map_def comp_def)
  have "(fst e, the (map_of m (fst e))) = e" if "e \<in> set m" for e
    using map_of_is_SomeI [OF assms(2), of "fst e" "snd e"] that by simp
  then have "(\<lambda>e. (fst e, the (map_of m (fst e)))) ` set m = id ` set m" by (intro image_cong) simp_all
  then show "set (range_map gl m) = set m" using r(2) by (simp add: range_map_def image_image)
qed

lemma GetAllIdlePsKeys_nodes:
  assumes "go_spec gl" and "nodes_ok m"
  shows "distinct (map node_name (GetAllIdlePsKeys gl busy m))"
    and "r \<in> set (GetAllIdlePsKeys gl busy m) \<Longrightarrow> b \<in> set busy \<Longrightarrow> map_of b (node_name r) = None"
proof -
  have m: "distinct (map fst (range_map gl m))" "\<forall>(k, r) \<in> set (range_map gl m). k = node_name r"
    using range_map_keys [OF assms(1), of m] assms(2) by (auto simp: nodes_ok_def)
  let ?f = "filter (\<lambda>(key, node). \<not> list_ex (\<lambda>busy. map_of busy key \<noteq> None) busy) (range_map gl m)"
  have names: "map node_name (map snd ?f) = map fst ?f" using m(2) by auto
  have "distinct (map fst ?f)" using m(1) by (rule distinct_map_filter)
  then show "distinct (map node_name (GetAllIdlePsKeys gl busy m))" unfolding GetAllIdlePsKeys_def names .
  show "map_of b (node_name r) = None" if "r \<in> set (GetAllIdlePsKeys gl busy m)" "b \<in> set busy"
    using that m(2) by (fastforce simp: GetAllIdlePsKeys_def list_ex_iff)
qed

lemma dom_update_all: "dom (map_of (foldl (\<lambda>m r. AList.update (f r) r m) m rs)) = dom (map_of m) \<union> f ` set rs"
  by (induction rs arbitrary: m) (auto simp: update_conv')

lemma GetAllPsMap_dom:
  assumes "go_spec gl" and "distinct (map fst m)"
  shows "dom (map_of (GetAllPsMap gl m)) = (\<Union>s \<in> snd ` set m. node_name ` set (space_replicas s))"
proof -
  have "dom (map_of (GetAllPsMap gl m)) = node_name ` (\<Union>(n, s) \<in> set (range_map gl m). set (space_replicas s))"
    by (simp add: GetAllPsMap_def node_name_def dom_update_all case_prod_beta)
  also have "\<dots> = (\<Union>s \<in> snd ` set m. node_name ` set (space_replicas s))"
    unfolding range_map_keys(2) [OF assms] by (simp add: image_UN case_prod_beta)
  finally show ?thesis .
qed

subsection \<open>The list of spaces\<close>

definition decoded :: "go_lib \<Rightarrow> string \<Rightarrow> inner_space" where
  "decoded gl json = snd (gl_space_unmarshal gl json zero_space)"

lemma DeserializeFromByteList_snoc:
  "DeserializeFromByteList gl (js @ [j]) = AList.update (space_name_of (decoded gl j)) (decoded gl j) (DeserializeFromByteList gl js)"
  by (simp add: DeserializeFromByteList_def DeserializeFromByte_def decoded_def)

lemma DeserializeFromByteList_distinct: "distinct (map fst (DeserializeFromByteList gl js))"
proof (induction js rule: rev_induct)
  case Nil
  then show ?case by (simp add: DeserializeFromByteList_def)
qed (simp add: DeserializeFromByteList_snoc distinct_update)

lemma DeserializeFromByteList_spaces:
  assumes "\<forall>j \<in> set js. \<forall>j' \<in> set js. space_name_of (decoded gl j) = space_name_of (decoded gl j') \<longrightarrow> j = j'"
  shows "map_of (DeserializeFromByteList gl js) n = Some s \<longleftrightarrow> (\<exists>j \<in> set js. s = decoded gl j \<and> n = space_name_of s)"
  using assms
proof (induction js arbitrary: n s rule: rev_induct)
  case Nil
  then show ?case by (simp add: DeserializeFromByteList_def)
next
  case (snoc j js)
  have "map_of (DeserializeFromByteList gl js) n = Some s \<longleftrightarrow> (\<exists>j \<in> set js. s = decoded gl j \<and> n = space_name_of s)" for n s
    using snoc.prems by (intro snoc.IH) simp
  with snoc.prems show ?case by (auto simp: DeserializeFromByteList_snoc update_conv')
qed

subsection \<open>Nodes given to partitions\<close>

lemma fill_replicas_result:
  "rid + n \<le> length (pi_replicas p) \<Longrightarrow> i + n \<le> length idle \<Longrightarrow>
   fill_replicas idle n rid (int i) p =
     Some (p\<lparr>pi_replicas := take rid (pi_replicas p) @ take n (drop i idle) @ drop (rid + n) (pi_replicas p)\<rparr>, int (i + n))"
proof (induction n arbitrary: rid i p)
  case (Suc n)
  let ?p = "p\<lparr>pi_replicas := (pi_replicas p)[rid := idle ! i]\<rparr>"
  have "fill_replicas idle (Suc n) rid (int i) p = fill_replicas idle n (Suc rid) (int (Suc i)) ?p"
    using Suc.prems by (simp add: at_ub_def update_ub_def add.commute)
  also have "\<dots> = Some (?p\<lparr>pi_replicas := take (Suc rid) (pi_replicas ?p) @ take n (drop (Suc i) idle) @ drop (Suc rid + n) (pi_replicas ?p)\<rparr>, int (Suc i + n))"
    using Suc.prems by (intro Suc.IH) simp_all
  also have "take (Suc rid) (pi_replicas ?p) @ take n (drop (Suc i) idle) @ drop (Suc rid + n) (pi_replicas ?p) =
      take rid (pi_replicas p) @ take (Suc n) (drop i idle) @ drop (rid + Suc n) (pi_replicas p)"
    using Suc.prems by (simp add: take_Suc_conv_app_nth Cons_nth_drop_Suc [symmetric])
  finally show ?case by simp
qed simp

definition given :: "replica_node list \<Rightarrow> string \<Rightarrow> inner_space \<Rightarrow> nat \<Rightarrow> partition_info" where
  "given idle timeStr s pid =
     \<lparr>pi_partition_id = int pid, pi_group_name = GetPartitionGroupName (ns_db_name s) (ns_space_name s) (int pid),
      pi_replicas = take (nat (ns_replica_num s)) (drop (pid * nat (ns_replica_num s)) idle), pi_ctime = timeStr, pi_mtime = timeStr\<rparr>"

lemma fill_partitions_result:
  assumes "ns_replica_num s = int r" and "(pid + n) * r \<le> length idle"
  shows "fill_partitions idle timeStr n pid (int (pid * r)) s =
    Some (s\<lparr>ns_partitions := ns_partitions s @ map (given idle timeStr s) [pid..<pid + n]\<rparr>)"
  using assms
proof (induction n arbitrary: pid s)
  case (Suc n)
  let ?s = "s\<lparr>ns_partitions := ns_partitions s @ [given idle timeStr s pid]\<rparr>"
  let ?p = "\<lparr>pi_partition_id = int pid, pi_group_name = GetPartitionGroupName (ns_db_name s) (ns_space_name s) (int pid),
    pi_replicas = replicate r zero_replica, pi_ctime = timeStr, pi_mtime = timeStr\<rparr>"
  have "pid * r + r \<le> length idle" using Suc.prems(2) by (simp add: algebra_simps)
  then have "fill_replicas idle r 0 (int (pid * r)) ?p = Some (given idle timeStr s pid, int (Suc pid * r))"
    using fill_replicas_result [of 0 r ?p "pid * r" idle] Suc.prems(1) by (simp add: given_def add.commute)
  then have "fill_partitions idle timeStr (Suc n) pid (int (pid * r)) s = fill_partitions idle timeStr n (Suc pid) (int (Suc pid * r)) ?s"
    using Suc.prems(1) by (simp add: CreatePartition_def del: of_nat_mult)
  also have "\<dots> = Some (?s\<lparr>ns_partitions := ns_partitions ?s @ map (given idle timeStr ?s) [Suc pid..<Suc pid + n]\<rparr>)"
    using Suc.IH [of ?s "Suc pid"] Suc.prems by (simp del: of_nat_mult)
  also have "map (given idle timeStr ?s) [Suc pid..<Suc pid + n] = map (given idle timeStr s) [Suc pid..<pid + Suc n]"
    by (simp add: given_def)
  also have "ns_partitions ?s @ map (given idle timeStr s) [Suc pid..<pid + Suc n] =
      ns_partitions s @ map (given idle timeStr s) [pid..<pid + Suc n]"
    by (simp add: upt_conv_Cons [of pid "Suc (pid + n)"] del: upt_Suc)
  finally show ?case by (simp del: upt_Suc fill_partitions.simps of_nat_mult)
qed simp

lemma concat_chunks: "concat (map (\<lambda>i. take r (drop (i * r) xs)) [0..<n]) = take (n * r) xs"
proof (induction n)
  case (Suc n)
  have "take (Suc n * r) xs = take (n * r) xs @ take r (drop (n * r) xs)"     using take_add [of "n * r" r xs] by (simp add: add.commute)
  with Suc show ?case by simp
qed simp

lemma given_replicas:
  "space_replicas (s\<lparr>ns_partitions := map (given idle timeStr s) [0..<n]\<rparr>) = take (n * nat (ns_replica_num s)) idle"
  using concat_chunks [of "nat (ns_replica_num s)" idle n] by (simp add: space_replicas_def given_def comp_def)


subsection \<open>What leaves the spaces alone\<close>

definition master_env :: "'w master_lib \<Rightarrow> ('w \<Rightarrow> string \<rightharpoonup> string) \<Rightarrow> bool" where
  "master_env lib store \<longleftrightarrow> kv_spec (ml_kv lib) store \<and> http_keeps lib store \<and> go_spec (ml_go lib)"

definition same_spaces :: "('w \<Rightarrow> string \<rightharpoonup> string) \<Rightarrow> 'w \<Rightarrow> 'w \<Rightarrow> bool" where
  "same_spaces store w w' \<longleftrightarrow> (\<forall>k. of_spaces k \<longrightarrow> store w' k = store w k)"

lemma same_spaces_refl [simp]: "same_spaces store w w"
  by (simp add: same_spaces_def)

lemma same_spaces_trans [trans]: "same_spaces store w w' \<Longrightarrow> same_spaces store w' w'' \<Longrightarrow> same_spaces store w w''"
  by (simp add: same_spaces_def)

lemma same_spaces_eq: "store w' = store w \<Longrightarrow> same_spaces store w w'"
  by (simp add: same_spaces_def)

lemma kv_laws:
  assumes "kv_spec kv store"
  shows "store (snd (kv_get kv k w)) = store w" "store (snd (kv_get_prefix kv p w)) = store w" "store (snd (kv_grant kv ttl w)) = store w"
    "store (snd (lk_session kv w)) = store w" "store (snd (lk_try_lock kv s k w)) = store w" "store (snd (lk_unlock kv s k w)) = store w"
    "store (lk_close kv s w) = store w" "store (go_sleep_ms kv ms w) = store w"
    "\<not> of_spaces k \<Longrightarrow> same_spaces store w (snd (kv_put kv k v l w))"
    "\<not> of_spaces k \<Longrightarrow> same_spaces store w (snd (kv_delete kv k w))"
    "\<not> of_spaces k \<Longrightarrow> same_spaces store w (snd (kv_stm kv k f w))"
proof -
  note s = kv_specD(1,3,5,6,7) [OF assms]
  show "store (snd (kv_get kv k w)) = store w" "store (snd (kv_get_prefix kv p w)) = store w"
    using s(1,2) by (metis prod.collapse)+
  show "same_spaces store w (snd (kv_put kv k v l w))" if "\<not> of_spaces k"
    using s(3) [of k v l w "fst (kv_put kv k v l w)" "snd (kv_put kv k v l w)"] that by (auto simp: same_spaces_def)
  show "same_spaces store w (snd (kv_delete kv k w))" if "\<not> of_spaces k"
    using s(4) [of k w "fst (kv_delete kv k w)" "snd (kv_delete kv k w)"] that by (auto simp: same_spaces_def)
  show "same_spaces store w (snd (kv_stm kv k f w))" if "\<not> of_spaces k"
    unfolding same_spaces_def using s(5) [of k f w "fst (kv_stm kv k f w)" "snd (kv_stm kv k f w)"] that by (metis prod.collapse)
qed (use assms in \<open>simp_all add: kv_spec_def\<close>)

lemma EtcdGet_store: "kv_spec kv store \<Longrightarrow> EtcdGet kv k w = (r, w') \<Longrightarrow> store w' = store w"
  using kv_laws(1) [of kv store k w] by (auto simp: EtcdGet_def split: prod.splits)

lemma PrefixScan_store: "kv_spec kv store \<Longrightarrow> PrefixScan kv p w = (kvs, e, w') \<Longrightarrow> store w' = store w"
  using kv_laws(2) [of kv store p w] by (auto simp: PrefixScan_def split: prod.splits sum.splits)

lemma EtcdPut_same: "kv_spec kv store \<Longrightarrow> \<not> of_spaces k \<Longrightarrow> EtcdPut kv k v w = (e, w') \<Longrightarrow> same_spaces store w w'"
  using kv_laws(9) [of kv store k w v None] by (simp add: EtcdPut_def)

lemma PutOrAppend_same:
  assumes "kv_spec kv store" and "\<not> of_spaces k" and "PutOrAppend kv k v n w = (e, w')"
  shows "same_spaces store w w'"
proof -
  obtain r w1 where g: "EtcdGet kv k w = (r, w1)" by (rule prod.exhaust)
  have "same_spaces store w w1" using EtcdGet_store [OF assms(1) g] by (rule same_spaces_eq)
  moreover consider "w' = w1" | x where "EtcdPut kv k x w1 = (e, w')"
    using assms(3) g by (auto simp: PutOrAppend_def Let_def split: sum.splits if_splits)
  then have "same_spaces store w1 w'" by cases (simp_all add: EtcdPut_same [OF assms(1,2)])
  ultimately show ?thesis by (rule same_spaces_trans)
qed

lemma EtcdDelete_same: "kv_spec kv store \<Longrightarrow> \<not> of_spaces k \<Longrightarrow> EtcdDelete kv k w = (e, w') \<Longrightarrow> same_spaces store w w'"
  using kv_laws(10) [of kv store k w] by (auto simp: EtcdDelete_def split: prod.splits)

lemma snd_same:
  assumes "kv_spec kv store" and "\<not> of_spaces k"
  shows "same_spaces store w (snd (EtcdPut kv k v w))" and "same_spaces store w (snd (PutOrAppend kv k v n w))"
    and "same_spaces store w (snd (EtcdDelete kv k w))"
  using EtcdPut_same [OF assms] PutOrAppend_same [OF assms] EtcdDelete_same [OF assms] by (metis prod.collapse)+

lemma NewIDGenerate_same: "kv_spec kv store \<Longrightarrow> \<not> of_spaces k \<Longrightarrow> NewIDGenerate kv k base w = (r, w') \<Longrightarrow> same_spaces store w w'"
  using kv_laws(11) [of kv store k w "\<lambda>v. map_sum id to_string (next_id base v)"] by (auto simp: NewIDGenerate_def split: prod.splits)

lemma GetEtcdLocker_store: "kv_spec kv store \<Longrightarrow> GetEtcdLocker kv k w = (r, w') \<Longrightarrow> store w' = store w"
  using kv_laws(4) [of kv store w] by (auto simp: GetEtcdLocker_def split: prod.splits)

lemma try_lock_store: "kv_spec kv store \<Longrightarrow> try_lock kv l retry n ms w = (e, w') \<Longrightarrow> store w' = store w"
proof (induction n arbitrary: w)
  case (Suc n)
  obtain e1 w1 where "lk_try_lock kv (lo_session l) (lo_key l) w = (e1, w1)" by (rule prod.exhaust)
  with Suc kv_laws(5) [OF Suc.prems(1), of "lo_session l" "lo_key l" w] kv_laws(8) [OF Suc.prems(1), of ms w1] show ?case
    by (fastforce split: if_splits)
qed simp

lemma TryLock_store: "kv_spec kv store \<Longrightarrow> TryLock kv l retry ms w = (e, w') \<Longrightarrow> store w' = store w"
  by (simp add: TryLock_def try_lock_store)

lemma UnlockAndClose_store: "kv_spec kv store \<Longrightarrow> store (snd (UnlockAndClose kv l w)) = store w"
  using kv_laws(6) [of kv store "lo_session l" "lo_key l" w] kv_laws(7) [of kv store]
  by (auto simp: UnlockAndClose_def Unlock_def split: prod.splits)

lemma HttpOneNode_store: "http_keeps lib store \<Longrightarrow> HttpOneNode lib a w = (r, w') \<Longrightarrow> store w' = store w"
  by (cases "ml_http lib (node_url a) (ta_req_json a) w")
    (metis (no_types, lifting) HttpOneNode_def PostRequest_def case_prod_conv http_keeps_def prod.collapse snd_conv)

lemma run_tasks_store:
  "(\<And>a w r w'. f a w = (r, w') \<Longrightarrow> store w' = store w) \<Longrightarrow> run_tasks f args order results w = (rs, w') \<Longrightarrow> store w' = store w"
proof (induction order arbitrary: results w)
  case (Cons i order)
  obtain r w1 where "f (args ! i) w = (r, w1)" by (rule prod.exhaust)
  with Cons show ?case by (metis case_prod_conv run_tasks.simps(2))
qed simp

lemma ParallelExecute_store: "http_keeps lib store \<Longrightarrow> ParallelExecuteWithResults lib args w = (rs, w') \<Longrightarrow> store w' = store w"
  unfolding ParallelExecuteWithResults_def by (rule run_tasks_store) (rule HttpOneNode_store)

lemma parallel_ps_store:
  assumes "http_keeps lib store"
  shows "ParallelCreatePsSpace lib space w = Some (is, w') \<Longrightarrow> store w' = store w"
    and "ParallelDeletePsSpace lib space w = Some (is, w') \<Longrightarrow> store w' = store w"
  using ParallelExecute_store [OF assms]
  by (fastforce simp: ParallelCreatePsSpace_def ParallelDeletePsSpace_def bind_eq_Some_conv Let_def split: prod.splits)+

lemma AddRouterSpace_store:
  assumes "master_env lib store" and "AddRouterSpace lib space w = Some (m, w')"
  shows "store w' = store w"
proof -
  obtain kvs e w1 where scan: "PrefixScan (ml_kv lib) RouterNodesPrefix w = (kvs, e, w1)" by (rule prod_cases3)
  have "store w1 = store w" using PrefixScan_store [OF _ scan] assms(1) by (simp add: master_env_def)
  moreover obtain args rs where "ParallelExecuteWithResults lib args w1 = (rs, w')"
    using assms(2) scan by (auto simp: AddRouterSpace_def bind_eq_Some_conv) (metis prod.collapse)
  ultimately show ?thesis using ParallelExecute_store assms(1) by (metis master_env_def)
qed

lemma DeleteRouterSpace_store:
  assumes "master_env lib store" and "DeleteRouterSpace lib db sp w = Some w'"
  shows "store w' = store w"
proof -
  obtain kvs e w1 where scan: "PrefixScan (ml_kv lib) RouterNodesPrefix w = (kvs, e, w1)" by (rule prod_cases3)
  have "store w1 = store w" using PrefixScan_store [OF _ scan] assms(1) by (simp add: master_env_def)
  moreover have "w' = w1 \<or> (\<exists>args rs. ParallelExecuteWithResults lib args w1 = (rs, w'))"
    using assms(2) scan by (auto simp: DeleteRouterSpace_def bind_eq_Some_conv split: if_splits) (metis prod.collapse)
  ultimately show ?thesis using ParallelExecute_store assms(1) by (metis master_env_def)
qed

lemma PutNodesErrInfoToEtcd_same:
  assumes "kv_spec (ml_kv lib) store"
  shows "PutNodesErrInfoToEtcd lib space is m w = Some (s, w') \<Longrightarrow> same_spaces store w w'"
proof (induction "is" arbitrary: s w)
  case (Cons i "is")
  obtain rep where rep: "task_replica space i = Some rep" using Cons.prems by (auto simp: bind_eq_Some_conv)
  obtain e w1 where put: "PutOrAppend (ml_kv lib) (GetErrPsNodeEtcdKey (rn_ps_ip rep) (rn_ps_port rep) (rn_ps_id rep))
      (''space_id:'' @ to_string (ns_id space) @ '' '' @ m) EtcdValMaxLen w = (e, w1)" by (rule prod.exhaust)
  obtain rest where rest: "PutNodesErrInfoToEtcd lib space is m w1 = Some (rest, w')"
    using Cons.prems rep put by (auto simp: bind_eq_Some_conv Let_def)
  have "same_spaces store w w1" using PutOrAppend_same [OF assms _ put] by simp
  from this Cons.IH [OF rest] show ?case by (rule same_spaces_trans)
qed simp

lemma undo_create_same:
  assumes "master_env lib store" and "undo_create lib space m w = Some w'"
  shows "same_spaces store w w'"
proof -
  obtain failed w1 s w2 where "ParallelDeletePsSpace lib space w = Some (failed, w1)" "PutNodesErrInfoToEtcd lib space failed m w1 = Some (s, w2)"
    and w': "w' = w2 \<or> (\<exists>x. w' = snd (PutOrAppend (ml_kv lib) DdlDisabledKey x EtcdValMaxLen w2))"
    using assms(2) by (auto simp: undo_create_def bind_eq_Some_conv split: if_splits)
  moreover have "kv_spec (ml_kv lib) store" "http_keeps lib store" using assms(1) by (simp_all add: master_env_def)
  moreover from this have "same_spaces store w2 w'" using w' PutOrAppend_same of_spaces_keys(2) by (metis prod.collapse same_spaces_refl)
  ultimately show ?thesis
    using parallel_ps_store(2) PutNodesErrInfoToEtcd_same same_spaces_eq same_spaces_trans by metis
qed


subsection \<open>No node serves two spaces\<close>

definition nodes_of :: "go_lib \<Rightarrow> string \<Rightarrow> string set" where
  "nodes_of gl json = node_name ` set (space_replicas (decoded gl json))"

text \<open>
  What is stored under a space key is the JSON of a space of that name, its replicas are on different
  nodes, and two spaces have no node in common.
\<close>

definition spaces_ok :: "go_lib \<Rightarrow> (string \<rightharpoonup> string) \<Rightarrow> bool" where
  "spaces_ok gl st \<longleftrightarrow>
     (\<forall>k v. of_spaces k \<and> st k = Some v \<longrightarrow>
        named_ok (decoded gl v) \<and> k = space_key (decoded gl v) \<and> distinct (map node_name (space_replicas (decoded gl v)))) \<and>
     (\<forall>k k' v v'. of_spaces k \<and> of_spaces k' \<and> k \<noteq> k' \<and> st k = Some v \<and> st k' = Some v' \<longrightarrow> nodes_of gl v \<inter> nodes_of gl v' = {})"

lemma spaces_okD:
  assumes "spaces_ok gl st" and "of_spaces k" and "st k = Some v"
  shows "named_ok (decoded gl v)" and "k = space_key (decoded gl v)" and "distinct (map node_name (space_replicas (decoded gl v)))"
  using assms by (auto simp: spaces_ok_def)

lemma spaces_ok_same: "same_spaces store w w' \<Longrightarrow> spaces_ok gl (store w) \<Longrightarrow> spaces_ok gl (store w')"
  unfolding spaces_ok_def same_spaces_def by metis

lemma spaces_ok_delete: "spaces_ok gl st \<Longrightarrow> spaces_ok gl (st(k := None))"
  by (auto simp: spaces_ok_def split: if_splits)

lemma spaces_ok_put:
  assumes "spaces_ok gl st" and "decoded gl v = s" and "named_ok s" and "distinct (map node_name (space_replicas s))"
    and "\<And>k x. of_spaces k \<Longrightarrow> st k = Some x \<Longrightarrow> nodes_of gl x \<inter> node_name ` set (space_replicas s) = {}"
  shows "spaces_ok gl (st(space_key s \<mapsto> v))"
proof -
  have v: "nodes_of gl v = node_name ` set (space_replicas s)" by (simp add: nodes_of_def assms(2))
  have "nodes_of gl x \<inter> nodes_of gl y = {}"
    if "of_spaces k" "of_spaces k'" "k \<noteq> k'" "(st(space_key s \<mapsto> v)) k = Some x" "(st(space_key s \<mapsto> v)) k' = Some y" for k k' x y
  proof (cases "k = space_key s \<or> k' = space_key s")
    case True
    with that assms(5) [of k x] assms(5) [of k' y] v show ?thesis by (auto split: if_splits)
  next
    case False
    with that assms(1) show ?thesis unfolding spaces_ok_def by (metis fun_upd_other)
  qed
  moreover have "named_ok (decoded gl x) \<and> k = space_key (decoded gl x) \<and> distinct (map node_name (space_replicas (decoded gl x)))"
    if "of_spaces k" "(st(space_key s \<mapsto> v)) k = Some x" for k x
    using that spaces_okD [OF assms(1) that(1), of x] assms(2-4) by (cases "k = space_key s") auto
  ultimately show ?thesis unfolding spaces_ok_def by blast
qed

lemma spaces_scan:
  assumes "kv_spec kv store" and "scans_ok kv" and "PrefixScan kv SpacesMataPrefix w = (kvs, e, w')"
  shows "set kvs = {(k, v). of_spaces k \<and> store w k = Some v}"
proof -
  obtain r w1 where g: "kv_get_prefix kv SpacesMataPrefix w = (r, w1)" by (rule prod.exhaust)
  obtain l where "r = Inr l" using assms(2) g unfolding scans_ok_def by (metis prod.inject)
  moreover have "kept k" if "prefix SpacesMataPrefix k" for k using of_spaces_kept that by (simp add: of_spaces_def)
  ultimately have "set l = {(k, v). prefix SpacesMataPrefix k \<and> store w k = Some v}"
    using kv_specD(4) [OF assms(1), of SpacesMataPrefix w l w1] g by simp
  then show ?thesis using assms(3) g \<open>r = Inr l\<close> by (simp add: PrefixScan_def of_spaces_def)
qed

lemma busy_spaces:
  assumes "spaces_ok gl st" and "set kvs = {(k, v). of_spaces k \<and> st k = Some v}"
  shows "map_of (DeserializeFromByteList gl (map snd kvs)) n = Some s \<longleftrightarrow>
    (\<exists>k v. of_spaces k \<and> st k = Some v \<and> s = decoded gl v \<and> n = space_name_of s)"
proof -
  have "j = j'" if "j \<in> snd ` set kvs" "j' \<in> snd ` set kvs" "space_name_of (decoded gl j) = space_name_of (decoded gl j')" for j j'
  proof -
    have sp: "\<exists>k. of_spaces k \<and> st k = Some j" if "j \<in> snd ` set kvs" for j using that assms(2) by auto
    obtain k k' where k: "of_spaces k" "st k = Some j" and k': "of_spaces k'" "st k' = Some j'"
      using sp [OF \<open>j \<in> snd ` set kvs\<close>] sp [OF \<open>j' \<in> snd ` set kvs\<close>] by blast
    have "space_key (decoded gl j) = space_key (decoded gl j')"
      using spaces_okD(1) [OF assms(1) k] spaces_okD(1) [OF assms(1) k'] \<open>space_name_of (decoded gl j) = _\<close> by (rule space_name_inject)
    then have "k = k'" using spaces_okD(2) [OF assms(1) k] spaces_okD(2) [OF assms(1) k'] by simp
    with k k' show ?thesis by simp
  qed
  then have "map_of (DeserializeFromByteList gl (map snd kvs)) n = Some s \<longleftrightarrow>
      (\<exists>j \<in> set (map snd kvs). s = decoded gl j \<and> n = space_name_of s)"
    by (intro DeserializeFromByteList_spaces) simp
  also have "\<dots> \<longleftrightarrow> (\<exists>k v. of_spaces k \<and> st k = Some v \<and> s = decoded gl v \<and> n = space_name_of s)"
    using assms(2) by auto
  finally show ?thesis .
qed

lemma busy_nodes:
  assumes "go_spec gl" and "spaces_ok gl st" and "set kvs = {(k, v). of_spaces k \<and> st k = Some v}"
  shows "dom (map_of (GetAllPsMap gl (DeserializeFromByteList gl (map snd kvs)))) = (\<Union>v \<in> {v. \<exists>k. of_spaces k \<and> st k = Some v}. nodes_of gl v)"
proof -
  let ?b = "DeserializeFromByteList gl (map snd kvs)"
  have "s \<in> snd ` set ?b \<longleftrightarrow> (\<exists>k v. of_spaces k \<and> st k = Some v \<and> s = decoded gl v)" for s
  proof -
    have "s \<in> snd ` set ?b \<longleftrightarrow> (\<exists>n. map_of ?b n = Some s)"
      using DeserializeFromByteList_distinct [of gl "map snd kvs"] by (force simp: map_of_eq_Some_iff)
    then show ?thesis using busy_spaces [OF assms(2,3)] by metis
  qed
  then have "snd ` set ?b = decoded gl ` {v. \<exists>k. of_spaces k \<and> st k = Some v}" by (intro set_eqI) (simp only: image_iff mem_Collect_eq Bex_def, blast)
  then show ?thesis
    using GetAllPsMap_dom [OF assms(1) DeserializeFromByteList_distinct, of gl "map snd kvs"] by (simp add: nodes_of_def)
qed

end
