(* ===== verification/Master_Runs.thy ===== *)
theory Master_Runs
  imports Master_Spaces
begin

text \<open>
  Runs of the master: the effect of each handler on the spaces in etcd, the invariant that no partition
  server node serves two spaces, and what is left behind when a creation fails half way.
\<close>

subsection \<open>Creating a space\<close>

lemma idle_nodes:
  assumes "master_env lib store" and "scans_ok (ml_kv lib)" and "spaces_ok (ml_go lib) (store w)"
    and "ValidateNameAndGetIdlePsNode lib space w = Some ((idle, m), w')"
  shows "store w' = store w" and "distinct (map node_name idle)"
    and "of_spaces k \<Longrightarrow> store w k = Some v \<Longrightarrow> nodes_of (ml_go lib) v \<inter> node_name ` set idle = {}"
    and "m = '''' \<Longrightarrow> named_ok space \<Longrightarrow> store w (space_key space) = None"
proof -
  let ?gl = "ml_go lib"
  have env: "kv_spec (ml_kv lib) store" "go_spec ?gl" using assms(1) by (simp_all add: master_env_def)
  obtain ps e1 w1 where s1: "PrefixScan (ml_kv lib) PsNodesPrefix w = (ps, e1, w1)" by (rule prod_cases3)
  obtain er e2 w2 where s2: "PrefixScan (ml_kv lib) ErrPsNodesPrefix w1 = (er, e2, w2)" by (rule prod_cases3)
  obtain kvs e3 w3 where s3: "PrefixScan (ml_kv lib) SpacesMataPrefix w2 = (kvs, e3, w3)" by (rule prod_cases3)
  have st: "store w2 = store w" "store w3 = store w" using PrefixScan_store [OF env(1)] s1 s2 s3 by metis+
  let ?b = "DeserializeFromByteList ?gl (map snd kvs)"
  obtain reps errs where r: "RepDeserializeFromByte (map fst ps) [] = Some reps" "RepDeserializeFromByte (map fst er) [] = Some errs"
    and res: "(if map_of ?b (space_name_of space) \<noteq> None
        then ([], ''DB_name + space_name['' @ space_name_of space @ ''] already exists, Please reset DB_name and Space_name.'')
        else (GetAllIdlePsKeys ?gl [GetAllPsMap ?gl ?b, errs] reps, '''')) = (idle, m)" and w': "w' = w3"
    using assms(4) s1 s2 s3 by (auto simp: ValidateNameAndGetIdlePsNode_def bind_eq_Some_conv Let_def)
  have scan: "set kvs = {(k, v). of_spaces k \<and> store w k = Some v}" using spaces_scan [OF env(1) assms(2) s3] st by simp
  have reps: "nodes_ok reps" using RepDeserializeFromByte_ok [OF r(1)] by (simp add: nodes_ok_def)
  have idle: "idle = [] \<or> idle = GetAllIdlePsKeys ?gl [GetAllPsMap ?gl ?b, errs] reps" using res by (auto split: if_splits)
  show "store w' = store w" using st w' by simp
  show "distinct (map node_name idle)" using idle GetAllIdlePsKeys_nodes(1) [OF env(2) reps] by auto
  show "nodes_of ?gl v \<inter> node_name ` set idle = {}" if k: "of_spaces k" "store w k = Some v"
  proof -
    have "node_name r \<notin> dom (map_of (GetAllPsMap ?gl ?b))" if "r \<in> set idle" for r
      using idle that GetAllIdlePsKeys_nodes(2) [OF env(2) reps, of r "[GetAllPsMap ?gl ?b, errs]" "GetAllPsMap ?gl ?b"] by auto
    with k show ?thesis unfolding busy_nodes [OF env(2) assms(3) scan] by fastforce
  qed
  show "store w (space_key space) = None" if "m = ''''" "named_ok space"
  proof (rule ccontr)
    assume "store w (space_key space) \<noteq> None"
    then obtain v where v: "store w (space_key space) = Some v" by blast
    have k: "of_spaces (space_key space)" by (simp add: space_key_def)
    have "space_name_of space = space_name_of (decoded ?gl v)"
      using space_key_inject [OF that(2) spaces_okD(1) [OF assms(3) k v] spaces_okD(2) [OF assms(3) k v]] by (simp add: space_name_of_def)
    then have "map_of ?b (space_name_of space) = Some (decoded ?gl v)" using busy_spaces [OF assms(3) scan] k v by metis
    with res that(1) show False by simp
  qed
qed

text \<open>The space as it is stored, and the effect of storing it.\<close>

definition filled :: "string \<Rightarrow> replica_node list \<Rightarrow> int \<Rightarrow> inner_space \<Rightarrow> inner_space" where
  "filled timeStr idle i s = s\<lparr>ns_ctime := timeStr, ns_mtime := timeStr,
     ns_partitions := map (given idle timeStr s) [0..<nat (ns_partition_num s)], ns_id := i\<rparr>"

definition puts :: "('w \<Rightarrow> string \<rightharpoonup> string) \<Rightarrow> string \<Rightarrow> string \<Rightarrow> 'w \<Rightarrow> 'w \<Rightarrow> bool" where
  "puts store k v w w' \<longleftrightarrow> (\<forall>k'. of_spaces k' \<longrightarrow> store w' k' = ((store w)(k \<mapsto> v)) k')"

lemma puts_same: "same_spaces store w w1 \<Longrightarrow> puts store k v w1 w2 \<Longrightarrow> same_spaces store w2 w' \<Longrightarrow> puts store k v w w'"
  by (simp add: puts_def same_spaces_def)

lemma EtcdPut_puts:
  assumes "kv_spec kv store" and "kept k" and "EtcdPut kv k v w = (e, w')"
  shows "puts store k v w w' \<or> e \<noteq> None \<and> same_spaces store w w'"
  using kv_specD(5) [OF assms(1), of k v None w e w'] assms(2,3) by (auto simp: EtcdPut_def puts_def same_spaces_def)

lemma filled_facts [simp]:
  "space_key (filled t idle i s) = space_key s" "named_ok (filled t idle i s) = named_ok s"
  "space_replicas (filled t idle i s) = take (nat (ns_partition_num s) * nat (ns_replica_num s)) idle"
proof -
  let ?s = "s\<lparr>ns_partitions := map (given idle t s) [0..<nat (ns_partition_num s)]\<rparr>"
  have "space_replicas (filled t idle i s) = space_replicas ?s" by (simp add: space_replicas_def filled_def)
  then show "space_replicas (filled t idle i s) = take (nat (ns_partition_num s) * nat (ns_replica_num s)) idle"
    by (simp only: given_replicas)
qed (simp_all add: space_key_def named_ok_def filled_def)

lemma fill_partitions_filled:
  assumes "0 \<le> ns_partition_num s" and "0 \<le> ns_replica_num s" and "ns_partitions s = []"
    and "ns_partition_num s * ns_replica_num s \<le> int (length idle)"
  shows "fill_partitions idle t (nat (ns_partition_num s)) 0 0 (s\<lparr>ns_ctime := t, ns_mtime := t\<rparr>) = Some (filled t idle (ns_id s) s)"
proof -
  let ?s = "s\<lparr>ns_ctime := t, ns_mtime := t\<rparr>" and ?n = "nat (ns_partition_num s)" and ?r = "nat (ns_replica_num s)"
  have "?n * ?r = nat (ns_partition_num s * ns_replica_num s)" using assms(1) by (simp add: nat_mult_distrib)
  then have "(0 + ?n) * ?r \<le> length idle" using assms(4) by simp
  moreover have "ns_replica_num ?s = int ?r" using assms(2) by simp
  ultimately have "fill_partitions idle t ?n 0 (int (0 * ?r)) ?s = Some (?s\<lparr>ns_partitions := ns_partitions ?s @ map (given idle t ?s) [0..<0 + ?n]\<rparr>)"
    by (intro fill_partitions_result)
  moreover have "given idle t ?s = given idle t s" by (simp add: given_def fun_eq_iff)
  ultimately have "fill_partitions idle t ?n 0 0 ?s = Some (?s\<lparr>ns_partitions := map (given idle t s) [0..<?n]\<rparr>)" using assms(3) by simp
  then show ?thesis by (cases s) (simp add: filled_def)
qed


definition create_pre :: "inner_space \<Rightarrow> bool" where
  "create_pre s \<longleftrightarrow> 0 < ns_partition_num s \<and> 0 < ns_replica_num s \<and> ns_partitions s = [] \<and> named_ok s"

definition enough :: "inner_space \<Rightarrow> replica_node list \<Rightarrow> bool" where
  "enough s idle \<longleftrightarrow> ns_partition_num s * ns_replica_num s \<le> int (length idle)"

lemma create_prefix_nonempty [simp]: "create_prefix s @ x \<noteq> ''''" "create_prefix s \<noteq> ''''"
  by (simp_all add: create_prefix_def)

lemma CreatePsSpaceImpl_filled:
  assumes "create_pre s" and "enough s idle"
  shows "CreatePsSpaceImpl lib s idle w =
    (let ((i, _), w1) = NewIDGenerate (ml_kv lib) GenSpaceIdKey IdBaseVal w in create_filled lib (create_prefix s) (filled (ml_time lib w) idle i s) w1)"
proof -
  let ?t = "ml_time lib w"
  have "fill_partitions idle ?t (nat (ns_partition_num s)) 0 0 (s\<lparr>ns_ctime := ?t, ns_mtime := ?t\<rparr>) = Some (filled ?t idle (ns_id s) s)"
    using assms by (intro fill_partitions_filled) (simp_all add: create_pre_def enough_def)
  moreover have "(filled ?t idle (ns_id s) s)\<lparr>ns_id := i\<rparr> = filled ?t idle i s" for i by (simp add: filled_def)
  ultimately show ?thesis using assms(2) by (simp add: CreatePsSpaceImpl_def enough_def Let_def case_prod_beta)
qed

lemma CreatePsSpaceImpl_few:
  "\<not> enough s idle \<Longrightarrow> \<exists>m s'. m \<noteq> '''' \<and> CreatePsSpaceImpl lib s idle w = Some (True, m, s', w)"
  by (simp add: CreatePsSpaceImpl_def enough_def Let_def)

lemma create_filled_effect:
  assumes "master_env lib store" and "create_filled lib (create_prefix p) s w = Some (ok, m, s', w')"
  shows "s' = s \<and> (puts store (space_key s) (gl_space_json (ml_go lib) s) w w' \<or> m \<noteq> '''' \<and> same_spaces store w w')"
proof -
  note def = create_filled_def space_key_def [symmetric]
  let ?kv = "ml_kv lib" and ?json = "gl_space_json (ml_go lib) s"
  let ?err = "GetErrSpaceEtcdKey (ns_db_name s) (ns_space_name s) (ns_id s)"
  have kv: "kv_spec ?kv store" using assms(1) by (simp add: master_env_def)
  have put: "same_spaces store w (snd (PutOrAppend ?kv k v n w))" if "\<not> of_spaces k" for k v n w
    using PutOrAppend_same [OF kv that] by (metis prod.collapse)
  define w2 where "w2 = snd (EtcdPut ?kv DdlDisabledKey (?json @ ''; '') w)"
  obtain failed w3 where w3: "ParallelCreatePsSpace lib s w2 = Some (failed, w3)"
    using assms(2) by (auto simp: def Let_def case_prod_beta bind_eq_Some_conv w2_def)
  have "same_spaces store w w2" unfolding w2_def using EtcdPut_same [OF kv] by (metis of_spaces_keys(2) prod.collapse)
  moreover have "same_spaces store w2 w3" using parallel_ps_store(1) [OF _ w3] assms(1) by (simp add: master_env_def same_spaces_eq)
  ultimately have w_w3: "same_spaces store w w3" by (rule same_spaces_trans)
  show ?thesis
  proof (cases "length failed > 0")
    case True
    let ?e = "create_prefix p @ '', Create ps space failed, deadly error; ''"
    obtain str w4 where w4: "PutNodesErrInfoToEtcd lib s failed ?e w3 = Some (str, w4)"
      using assms(2) w3 True by (auto simp: def Let_def case_prod_beta bind_eq_Some_conv w2_def)
    let ?info = "''create ps space failed; failed nodes: '' @ str @ ''; ''"
    define w5 where "w5 = snd (PutOrAppend ?kv ?err ?info EtcdValMaxLen w4)"
    define w6 where "w6 = snd (PutOrAppend ?kv DdlDisabledKey ?info EtcdValMaxLen w5)"
    have fin: "undo_create lib s ''delete ps space failed; '' w6 = Some w'" "m = ?e" "s' = s"
      using assms(2) w3 True w4 by (auto simp: def Let_def case_prod_beta bind_eq_Some_conv w2_def w5_def w6_def)
    have "same_spaces store w3 w4" by (rule PutNodesErrInfoToEtcd_same [OF kv w4])
    also have "same_spaces store w4 w5" unfolding w5_def by (rule put) simp
    also have "same_spaces store w5 w6" unfolding w6_def by (rule put) simp
    also have "same_spaces store w6 w'" by (rule undo_create_same [OF assms(1) fin(1)])
    finally show ?thesis using w_w3 fin by (blast intro: same_spaces_trans create_prefix_nonempty)
  next
    case False
    obtain e w4 where w4: "EtcdPut ?kv (space_key s) ?json w3 = (e, w4)" by (rule prod.exhaust)
    have "kept (space_key s)" by (simp add: of_spaces_kept space_key_def)
    then have eff: "puts store (space_key s) ?json w3 w4 \<or> e \<noteq> None \<and> same_spaces store w3 w4" using EtcdPut_puts [OF kv _ w4] by simp
    have rest: "s' = s \<and> same_spaces store w4 w' \<and> (m \<noteq> '''' \<longleftrightarrow> e \<noteq> None)"
    proof (cases e)
      case None
      then show ?thesis using assms(2) w3 w4 False EtcdDelete_same [OF kv of_spaces_keys(2), of w4]
        by (simp add: def Let_def case_prod_beta w2_def) (metis prod.collapse)
    next
      case (Some err)
      let ?m = "create_prefix p @ '', Put space mata info to etcd failed, deadly error:'' @ err @ ''; ''"
      have fin: "undo_create lib s ?m (snd (PutOrAppend ?kv ?err ?m EtcdValMaxLen w4)) = Some w'" "m = ?m" "s' = s"
        using assms(2) w3 w4 False Some by (auto simp: def Let_def case_prod_beta bind_eq_Some_conv w2_def)
      have "same_spaces store w4 (snd (PutOrAppend ?kv ?err ?m EtcdValMaxLen w4))" by (rule put) simp
      then have "same_spaces store w4 w'" using undo_create_same [OF assms(1) fin(1)] by (rule same_spaces_trans)
      with fin(2,3) Some show ?thesis by simp
    qed
    with eff w_w3 show ?thesis by (metis puts_same same_spaces_trans)
  qed
qed


lemma CheckApiSpace_accepts:
  assumes "CheckApiSpace gl s = Some ''''"
  shows "NameValidate (as_db_name s) = ''''" "NameValidate (as_space_name s) = ''''" "as_partitions s = []"
    "1 \<le> as_partition_num s \<and> as_partition_num s \<le> 100" "as_replica_num s = 1 \<or> as_replica_num s = 3 \<or> as_replica_num s = 5"
    "as_id_type s \<noteq> ''long'' \<and> as_id_type s \<noteq> ''string''" "as_fields s \<noteq> []"
proof -
  show "NameValidate (as_db_name s) = ''''" using assms by (auto simp: CheckApiSpace_def db_format_msg_def split: if_splits)
  moreover show "NameValidate (as_space_name s) = ''''" using assms calculation by (auto simp: CheckApiSpace_def space_format_msg_def split: if_splits)
  ultimately have rest: "1 \<le> as_partition_num s \<and> as_partition_num s \<le> 100" "\<not> (as_replica_num s \<le> 0 \<or> as_replica_num s mod 2 = 0 \<or> as_replica_num s > 5)"
      "as_partitions s = []" "\<not> InSlice (as_id_type s) DocKeyTypes" "as_fields s \<noteq> []"
    using assms by (auto simp: CheckApiSpace_def split: if_splits)
  then show "as_partitions s = []" "1 \<le> as_partition_num s \<and> as_partition_num s \<le> 100" "as_fields s \<noteq> []" by simp_all
  show "as_id_type s \<noteq> ''long'' \<and> as_id_type s \<noteq> ''string''" using rest(4) by (auto simp: InSlice_def DocKeyTypes_def)
  show "as_replica_num s = 1 \<or> as_replica_num s = 3 \<or> as_replica_num s = 5" using rest(2) by presburger
qed

lemma ValidateCreateSpaceParam_pre:
  assumes "ValidateCreateSpaceParam lib body = Some (s, '''')"
  shows "create_pre s"
proof (cases body)
  case (Inr a)
  then have "CheckApiSpace (ml_go lib) a = Some ''''" and s: "s = ApiSpaceToInnerSpace (ml_go lib) a"
    using assms by (auto simp: ValidateCreateSpaceParam_def bind_eq_Some_conv)
  from CheckApiSpace_accepts [OF this(1)] show ?thesis by (auto simp: create_pre_def named_ok_def s ApiSpaceToInnerSpace_def)
qed (use assms in \<open>simp add: ValidateCreateSpaceParam_def\<close>)

lemma create_filled_ok:
  assumes "master_env lib store" and "spaces_ok (ml_go lib) (store w)" and "create_pre s" and "distinct (map node_name idle)"
    and "\<And>k v. of_spaces k \<Longrightarrow> store w k = Some v \<Longrightarrow> nodes_of (ml_go lib) v \<inter> node_name ` set idle = {}"
    and "create_filled lib (create_prefix s) (filled t idle i s) w = Some (ok, m, s', w')"
  shows "spaces_ok (ml_go lib) (store w')"
proof -
  let ?s = "filled t idle i s"
  let ?put = "(store w)(space_key ?s \<mapsto> gl_space_json (ml_go lib) ?s)"
  have "decoded (ml_go lib) (gl_space_json (ml_go lib) ?s) = ?s" using assms(1) by (simp add: decoded_def master_env_def go_spec_def)
  moreover have "named_ok ?s" "distinct (map node_name (space_replicas ?s))" using assms(3,4) by (simp_all add: create_pre_def take_map [symmetric])
  moreover have "nodes_of (ml_go lib) v \<inter> node_name ` set (space_replicas ?s) = {}" if "of_spaces k" "store w k = Some v" for k v
    using assms(5) [OF that] set_take_subset by fastforce
  ultimately have put: "spaces_ok (ml_go lib) ?put" using assms(2) by (intro spaces_ok_put)
  show ?thesis
  proof (cases "same_spaces store w w'")
    case True
    then show ?thesis using assms(2) by (rule spaces_ok_same)
  next
    case False
    then have "\<forall>k. of_spaces k \<longrightarrow> store w' k = ?put k" using create_filled_effect [OF assms(1,6)] by (auto simp: puts_def)
    then have "same_spaces id ?put (store w')" by (simp add: same_spaces_def)
    from spaces_ok_same [OF this] put show ?thesis by simp
  qed
qed

lemma create_unlocked_ok:
  assumes "master_env lib store" and "scans_ok (ml_kv lib)" and "spaces_ok (ml_go lib) (store w)" and "create_pre s"
    and "create_unlocked lib s w = Some (a, w')"
  shows "spaces_ok (ml_go lib) (store w')"
proof -
  let ?kv = "ml_kv lib"
  have kv: "kv_spec ?kv store" using assms(1) by (simp add: master_env_def)
  obtain val w1 where g: "EtcdGet ?kv DdlDisabledKey w = (val, w1)" by (rule prod.exhaust)
  note w1 = EtcdGet_store [OF kv g]
  show ?thesis
  proof (cases "val = Inr None")
    case True
    then obtain idle m w2 where v: "ValidateNameAndGetIdlePsNode lib s w1 = Some ((idle, m), w2)"
      using assms(5) g by (auto simp: create_unlocked_def bind_eq_Some_conv)
    have ok1: "spaces_ok (ml_go lib) (store w1)" using w1 assms(3) by simp
    note i = idle_nodes [OF assms(1,2) ok1 v]
    show ?thesis
    proof (cases "length m > 0 \<or> \<not> enough s idle")
      case True
      then have "w' = w2" using assms(5) g \<open>val = Inr None\<close> v CreatePsSpaceImpl_few [of s idle lib w2]
        by (auto simp: create_unlocked_def bind_eq_Some_conv split: if_splits)
      then show ?thesis using i(1) ok1 by simp
    next
      case False
      obtain j e w3 where n: "NewIDGenerate ?kv GenSpaceIdKey IdBaseVal w2 = ((j, e), w3)" by (metis prod.exhaust)
      obtain ok msg s1 w4 where c: "create_filled lib (create_prefix s) (filled (ml_time lib w2) idle j s) w3 = Some (ok, msg, s1, w4)"
        and w': "w' = w4 \<or> (\<exists>x. AddRouterSpace lib s1 w4 = Some (x, w'))"
        using assms(5) g \<open>val = Inr None\<close> v False n
        by (auto simp: create_unlocked_def CreatePsSpaceImpl_filled [OF assms(4)] bind_eq_Some_conv split: if_splits)
      have "same_spaces store w1 w3" using NewIDGenerate_same [OF kv of_spaces_keys(7) n] i(1) by (simp add: same_spaces_def)
      then have w3: "spaces_ok (ml_go lib) (store w3)" "\<And>k. of_spaces k \<Longrightarrow> store w3 k = store w1 k"
        using spaces_ok_same [of store w1 w3 "ml_go lib"] ok1 by (simp_all add: same_spaces_def)
      have "spaces_ok (ml_go lib) (store w4)" using create_filled_ok [OF assms(1) w3(1) assms(4) i(2) _ c] i(3) w3(2) by simp
      then show ?thesis using w' AddRouterSpace_store [OF assms(1)] by metis
    qed
  qed (use assms(3,5) g w1 in \<open>simp add: create_unlocked_def\<close>)
qed

lemma createSpace_ok:
  assumes "master_env lib store" and "scans_ok (ml_kv lib)" and "spaces_ok (ml_go lib) (store w)" and "createSpace lib body w = Some (a, w')"
  shows "spaces_ok (ml_go lib) (store w')"
proof -
  have kv: "kv_spec (ml_kv lib) store" using assms(1) by (simp add: master_env_def)
  obtain s m where v: "ValidateCreateSpaceParam lib body = Some (s, m)" using assms(4) by (auto simp: createSpace_def bind_eq_Some_conv)
  obtain r w1 where l: "GetEtcdLocker (ml_kv lib) DdlLockKey w = (r, w1)" by (rule prod.exhaust)
  note w1 = GetEtcdLocker_store [OF kv l]
  show ?thesis
  proof (cases "m = '''' \<and> (\<exists>lk. r = Inr lk)")
    case True
    then obtain lk where lk: "m = ''''" "r = Inr lk" by blast
    obtain e w2 where t: "TryLock (ml_kv lib) lk 20 200 w1 = (e, w2)" by (rule prod.exhaust)
    note w2 = TryLock_store [OF kv t]
    obtain w3 where w3: "w3 = w2 \<or> (\<exists>x. create_unlocked lib s w2 = Some (x, w3))" and w': "w' = snd (UnlockAndClose (ml_kv lib) lk w3)"
      using assms(4) v l lk t by (auto simp: createSpace_def bind_eq_Some_conv split: if_splits)
    have w2_ok: "spaces_ok (ml_go lib) (store w2)" using assms(3) w1 w2 by simp
    have pre: "create_pre s" using ValidateCreateSpaceParam_pre v lk(1) by blast
    have "spaces_ok (ml_go lib) (store w3)" using w3
    proof (elim disjE exE)
      fix x assume "create_unlocked lib s w2 = Some (x, w3)"
      then show ?thesis by (rule create_unlocked_ok [OF assms(1,2) w2_ok pre])
    qed (simp add: w2_ok)
    then show ?thesis using UnlockAndClose_store [OF kv] w' by simp
  next
    case False
    then have "w' = w \<or> w' = w1" using assms(4) v l by (cases r) (auto simp: createSpace_def Let_def split: if_splits)
    with assms(3) w1 show ?thesis by auto
  qed
qed


subsection \<open>Deleting a space\<close>

definition drops :: "('w \<Rightarrow> string \<rightharpoonup> string) \<Rightarrow> string \<Rightarrow> 'w \<Rightarrow> 'w \<Rightarrow> bool" where
  "drops store k w w' \<longleftrightarrow> (\<forall>k'. of_spaces k' \<longrightarrow> store w' k' = ((store w)(k := None)) k')"

lemma drops_same: "same_spaces store w w1 \<Longrightarrow> drops store k w1 w2 \<Longrightarrow> same_spaces store w2 w' \<Longrightarrow> drops store k w w'"
  by (simp add: drops_def same_spaces_def)

lemma drops_ok: "drops store k w w' \<Longrightarrow> spaces_ok gl (store w) \<Longrightarrow> spaces_ok gl (store w')"
  using spaces_ok_same [of id "(store w)(k := None)" "store w'" gl] spaces_ok_delete [of gl "store w" k]
  by (simp add: drops_def same_spaces_def)

lemma EtcdDelete_drops:
  assumes "kv_spec kv store" and "kept k" and "EtcdDelete kv k w = (e, w')"
  shows "drops store k w w' \<or> e \<noteq> None \<and> same_spaces store w w'"
proof -
  obtain r w1 where d: "kv_delete kv k w = (r, w1)" by (rule prod.exhaust)
  then have "w' = w1" "(\<exists>x. r = Inl x) \<Longrightarrow> e \<noteq> None" using assms(3) by (auto simp: EtcdDelete_def)
  then show ?thesis using kv_specD(6) [OF assms(1) d] assms(2) by (auto simp: drops_def same_spaces_def)
qed

lemma delete_nodes_same:
  assumes "master_env lib store" and "delete_nodes lib d s sp w = Some (a, w')"
  shows "same_spaces store w w'"
proof -
  let ?kv = "ml_kv lib" and ?dk = "GetDeletedSpaceEtcdKey d s (ns_id sp)" and ?ek = "GetErrSpaceEtcdKey d s (ns_id sp)"
  have kv: "kv_spec ?kv store" "http_keeps lib store" using assms(1) by (simp_all add: master_env_def)
  obtain w5 failed w6 where w6: "DeleteRouterSpace lib d s w = Some w5" "ParallelDeletePsSpace lib sp w5 = Some (failed, w6)"
    using assms(2) by (auto simp: delete_nodes_def bind_eq_Some_conv Let_def)
  have "same_spaces store w w6"
    using DeleteRouterSpace_store [OF assms(1) w6(1)] parallel_ps_store(2) [OF kv(2) w6(2)] by (simp add: same_spaces_eq)
  also have "same_spaces store w6 w'"
  proof (cases "length failed > 0")
    case True
    then obtain str w7 where w7: "PutNodesErrInfoToEtcd lib sp failed (delete_prefix d s @ '' delete ps space failed; '') w6 = Some (str, w7)"
      and w': "w' = snd (EtcdDelete ?kv DdlDisabledKey (snd (PutOrAppend ?kv ?ek (''delete ps space failed; failed nodes: '' @ str) EtcdValMaxLen w7)))"
      using assms(2) w6 by (auto simp: delete_nodes_def Let_def case_prod_beta bind_eq_Some_conv)
    have "same_spaces store w6 w7" by (rule PutNodesErrInfoToEtcd_same [OF kv(1) w7])
    also note snd_same(2) [OF kv(1) of_spaces_keys(3)]
    also note snd_same(3) [OF kv(1) of_spaces_keys(2)]
    finally show ?thesis unfolding w' .
  next
    case False
    then have w': "w' = snd (PutOrAppend ?kv ?dk ''; success'' EtcdValMaxLen (snd (EtcdDelete ?kv DdlDisabledKey w6)))"
      using assms(2) w6 by (auto simp: delete_nodes_def Let_def case_prod_beta bind_eq_Some_conv)
    note snd_same(3) [OF kv(1) of_spaces_keys(2)]
    also note snd_same(2) [OF kv(1) of_spaces_keys(4)]
    finally show ?thesis unfolding w' .
  qed
  finally show ?thesis .
qed

lemma delete_stored_effect:
  assumes "master_env lib store" and "delete_stored lib d s detail w = Some (a, w')"
  shows "drops store (GetSpaceEtcdKey d s) w w' \<or> fst a \<noteq> 0 \<and> same_spaces store w w'"
proof -
  let ?kv = "ml_kv lib"
  have kv: "kv_spec ?kv store" using assms(1) by (simp add: master_env_def)
  obtain val w1 where g: "EtcdGet ?kv DdlDisabledKey w = (val, w1)" by (rule prod.exhaust)
  have w1: "same_spaces store w w1" using EtcdGet_store [OF kv g] by (rule same_spaces_eq)
  show ?thesis
  proof (cases "val = Inr None")
    case True
    let ?sp = "snd (DeserializeFromByte (ml_go lib) detail zero_space)"
    let ?dk = "GetDeletedSpaceEtcdKey d s (ns_id ?sp)" and ?ek = "GetErrSpaceEtcdKey d s (ns_id ?sp)"
    let ?w3 = "snd (EtcdPut ?kv DdlDisabledKey (delete_prefix d s) (snd (EtcdPut ?kv ?dk detail w1)))"
    note w1
    also note snd_same(1) [OF kv of_spaces_keys(4)]
    also note snd_same(1) [OF kv of_spaces_keys(2)]
    finally have w3: "same_spaces store w ?w3" .
    obtain e w4 where w4: "EtcdDelete ?kv (GetSpaceEtcdKey d s) ?w3 = (e, w4)" by (rule prod.exhaust)
    have eff: "drops store (GetSpaceEtcdKey d s) ?w3 w4 \<or> e \<noteq> None \<and> same_spaces store ?w3 w4"
      by (rule EtcdDelete_drops [OF kv _ w4]) (simp add: of_spaces_kept)
    have "same_spaces store w4 w' \<and> (e \<noteq> None \<longrightarrow> fst a \<noteq> 0)"
    proof (cases e)
      case None
      then have "delete_nodes lib d s ?sp w4 = Some (a, w')"
        using assms(2) g True w4 by (auto simp: delete_stored_def Let_def DeserializeFromByte_def case_prod_beta)
      then show ?thesis using delete_nodes_same [OF assms(1)] None by blast
    next
      case (Some err)
      then have "a = (100, '''')" "w' = snd (PutOrAppend ?kv ?ek ''delete etcd space info failed; '' EtcdValMaxLen w4)"
        using assms(2) g True w4 by (auto simp: delete_stored_def Let_def DeserializeFromByte_def case_prod_beta)
      then show ?thesis using snd_same(2) [OF kv of_spaces_keys(3)] by simp
    qed
    with eff w3 show ?thesis by (blast intro: drops_same same_spaces_trans)
  next
    case False
    then show ?thesis using assms(2) g w1 by (auto simp: delete_stored_def)
  qed
qed

lemma deleteSpace_effect:
  assumes "master_env lib store" and "deleteSpace lib body w = Some (a, w')"
  shows "(\<exists>d s. body = Inr (d, s) \<and> drops store (GetSpaceEtcdKey d s) w w') \<or> fst a \<noteq> 0 \<and> same_spaces store w w'"
proof (cases body)
  case (Inr b)
  obtain d s where b: "b = (d, s)" by (rule prod.exhaust)
  have kv: "kv_spec (ml_kv lib) store" using assms(1) by (simp add: master_env_def)
  obtain r w1 where l: "GetEtcdLocker (ml_kv lib) DdlLockKey w = (r, w1)" by (rule prod.exhaust)
  note w1 = GetEtcdLocker_store [OF kv l]
  show ?thesis
  proof (cases r)
    case (Inr lk)
    obtain e w2 where t: "TryLock (ml_kv lib) lk 20 200 w1 = (e, w2)" by (rule prod.exhaust)
    obtain detail w3 where g: "EtcdGet (ml_kv lib) (GetSpaceEtcdKey d s) w2 = (detail, w3)" by (rule prod.exhaust)
    have w3: "store w3 = store w" using EtcdGet_store [OF kv g] TryLock_store [OF kv t] w1 by simp
    obtain w4 where w4: "w4 = w3 \<and> fst a = 10 \<or> (\<exists>j. delete_stored lib d s j w3 = Some (a, w4))"
      and w': "w' = snd (UnlockAndClose (ml_kv lib) lk w4)"
      using assms(2) \<open>body = Inr b\<close> b l Inr t g
      by (auto simp: deleteSpace_def Let_def bind_eq_Some_conv split: sum.splits option.splits) blast+
    have "drops store (GetSpaceEtcdKey d s) w3 w4 \<or> fst a \<noteq> 0 \<and> same_spaces store w3 w4"
      using w4 delete_stored_effect [OF assms(1)] by fastforce
    then show ?thesis using \<open>body = Inr b\<close> b w3 UnlockAndClose_store [OF kv, of lk w4] w' by (auto simp: drops_def same_spaces_def)
  qed (use assms(2) \<open>body = Inr b\<close> b l w1 in \<open>auto simp: deleteSpace_def same_spaces_def\<close>)
qed (use assms(2) in \<open>auto simp: deleteSpace_def\<close>)


subsection \<open>The other handlers\<close>

lemma register_locked_same:
  assumes "kv_spec (ml_kv lib) store" and "register_locked lib ip port i w = Some (a, w')"
  shows "same_spaces store w w'"
proof -
  let ?kv = "ml_kv lib" and ?n = "GetPsNodeName ip port"
  obtain ps e1 w1 where s1: "PrefixScan ?kv (PsNodesPrefix @ ''/'' @ ?n) w = (ps, e1, w1)" by (rule prod_cases3)
  obtain er e2 w2 where s2: "PrefixScan ?kv (ErrPsNodesPrefix @ ''/'' @ ?n) w1 = (er, e2, w2)" by (rule prod_cases3)
  obtain kvs e3 w3 where s3: "PrefixScan ?kv SpacesMataPrefix w2 = (kvs, e3, w3)" by (rule prod_cases3)
  have "store w3 = store w" using PrefixScan_store [OF assms(1)] s1 s2 s3 by metis
  moreover have "w' = w3 \<or> w' = snd (CreateWithTTL ?kv (GetPsRegisterKey ip port i) ''by_master_put'' PsNodeTTL w3)"
    using assms(2) s1 s2 s3 by (auto simp: register_locked_def bind_eq_Some_conv Let_def split: option.splits)
  moreover have "snd (CreateWithTTL ?kv k v PsNodeTTL w3) = w3" for k v by (simp add: CreateWithTTL_def ttl_seconds_def PsNodeTTL_def)
  ultimately show ?thesis by (auto simp: same_spaces_def)
qed

lemma register_same:
  assumes "master_env lib store" and "register lib body w = Some (a, w')"
  shows "same_spaces store w w'"
proof (cases body)
  case (Inr b)
  obtain ip port i where b: "b = (ip, port, i)" by (rule prod_cases3)
  have kv: "kv_spec (ml_kv lib) store" using assms(1) by (simp add: master_env_def)
  obtain r w1 where l: "GetEtcdLocker (ml_kv lib) DdlLockKey w = (r, w1)" by (rule prod.exhaust)
  note w1 = GetEtcdLocker_store [OF kv l]
  show ?thesis
  proof (cases r)
    case (Inr lk)
    obtain e w2 where t: "TryLock (ml_kv lib) lk 20 200 w1 = (e, w2)" by (rule prod.exhaust)
    have w2: "store w2 = store w" using TryLock_store [OF kv t] w1 by simp
    obtain w3 where w3: "w3 = w2 \<or> register_locked lib ip port i w2 = Some (a, w3)" and w': "w' = snd (UnlockAndClose (ml_kv lib) lk w3)"
      using assms(2) \<open>body = Inr b\<close> b l Inr t by (auto simp: register_def Let_def bind_eq_Some_conv split: option.splits)
    have "same_spaces store w2 w3" if "register_locked lib ip port i w2 = Some (a, w3)"
      using register_locked_same [OF kv that] .
    with w3 show ?thesis using w2 w' UnlockAndClose_store [OF kv, of lk w3] by (auto simp: same_spaces_def)
  qed (use assms(2) \<open>body = Inr b\<close> b l w1 in \<open>auto simp: register_def same_spaces_def\<close>)
qed (use assms(2) in \<open>auto simp: register_def\<close>)

lemma genID_same: "kv_spec (ml_kv lib) store \<Longrightarrow> same_spaces store w (snd (genID lib body w))"
  using NewIDGenerate_same [of "ml_kv lib" store GenPsIdKey IdBaseVal w] by (auto simp: genID_def split: sum.splits prod.splits)

lemma spaceList_same: "kv_spec (ml_kv lib) store \<Longrightarrow> same_spaces store w (snd (spaceList lib body w))"
  using PrefixScan_store [of "ml_kv lib" store SpacesMataPrefix w]
  by (auto simp: spaceList_def same_spaces_def Let_def split: sum.splits prod.splits)

lemma init_counter_same:
  assumes "kv_spec kv store" and "\<not> of_spaces k"
  shows "same_spaces store w (init_counter kv k w)"
proof -
  obtain v w1 where g: "EtcdGet kv k w = (v, w1)" by (rule prod.exhaust)
  have "same_spaces store w w1" using EtcdGet_store [OF assms(1) g] by (rule same_spaces_eq)
  moreover have "same_spaces store w1 (init_counter kv k w)"
    using g NewIDGenerate_same [OF assms, of IdBaseVal w1] by (auto simp: init_counter_def split: sum.splits option.splits) (metis prod.collapse)+
  ultimately show ?thesis by (rule same_spaces_trans)
qed

lemma InitClusterApi_same: "kv_spec (ml_kv lib) store \<Longrightarrow> same_spaces store w (InitClusterApi lib w)"
  unfolding InitClusterApi_def by (rule same_spaces_trans [OF init_counter_same init_counter_same]) simp_all

subsection \<open>Runs\<close>

text \<open>
  One step: a start of the process, a handler, or something outside it, such as a node that comes or goes, that leaves the
  keys of the spaces alone. A handler that panics is recovered by the HTTP server: \<open>createSpace\<close> panics before it stores the
  space, which is an outside step, and \<open>deleteSpace\<close> may panic after it removed the key.
\<close>

inductive cluster_step :: "'w master_lib \<Rightarrow> ('w \<Rightarrow> string \<rightharpoonup> string) \<Rightarrow> 'w \<Rightarrow> 'w \<Rightarrow> bool" for lib store where
  start: "cluster_step lib store w (InitClusterApi lib w)"
| create: "createSpace lib body w = Some (a, w') \<Longrightarrow> cluster_step lib store w w'"
| delete: "deleteSpace lib body w = Some (a, w') \<Longrightarrow> cluster_step lib store w w'"
| delete_panic: "drops store (GetSpaceEtcdKey d s) w w' \<Longrightarrow> cluster_step lib store w w'"
| register: "register lib body w = Some (a, w') \<Longrightarrow> cluster_step lib store w w'"
| gen_id: "cluster_step lib store w (snd (genID lib body w))"
| space_list: "cluster_step lib store w (snd (spaceList lib body w))"
| outside: "same_spaces store w w' \<Longrightarrow> cluster_step lib store w w'"

lemma cluster_step_ok:
  assumes "master_env lib store" and "scans_ok (ml_kv lib)" and "cluster_step lib store w w'" and "spaces_ok (ml_go lib) (store w)"
  shows "spaces_ok (ml_go lib) (store w')"
  using assms(3)
proof cases
  case (create body a)
  then show ?thesis by (rule createSpace_ok [OF assms(1,2,4)])
next
  case (delete body a)
  then show ?thesis using deleteSpace_effect [OF assms(1)] drops_ok spaces_ok_same assms(4) by metis
next
  case (delete_panic d s)
  then show ?thesis using assms(4) by (rule drops_ok)
qed (use assms(1,4) spaces_ok_same InitClusterApi_same register_same genID_same spaceList_same in \<open>metis master_env_def\<close>)+

end
