(* ===== verification/Master_Demo.thy ===== *)
theory Master_Demo
  imports Master_Runs
begin

text \<open>
  Concrete libraries for the master: an encoder of spaces that reads back, and an etcd that is an association list. They
  show that what the other theories suppose of the libraries can hold, and runs of the handlers are
  evaluated on them.
\<close>

subsection \<open>An encoder\<close>

text \<open>Each code is followed by the rest of the text, so codes are put one after the other.\<close>

definition enc_str :: "string \<Rightarrow> string" where
  "enc_str s = concat (map (\<lambda>c. [CHR ''.'', c]) s) @ '';''"

fun dec_str :: "string \<Rightarrow> (string \<times> string) option" where
  "dec_str [] = None"
| "dec_str [b] = (if b = CHR '';'' then Some ([], []) else None)"
| "dec_str (b # c # cs) = (if b = CHR '';'' then Some ([], c # cs) else do { (s, r) \<leftarrow> dec_str cs; Some (c # s, r) })"

lemma dec_str_enc [simp]: "dec_str (enc_str s @ r) = Some (s, r)"
  by (induction s) (cases r; simp add: enc_str_def)+

definition enc_int :: "int \<Rightarrow> string" where
  "enc_int i = enc_str (if i < 0 then ''-'' @ replicate (nat (- i)) CHR ''1'' else replicate (nat i) CHR ''1'')"

definition dec_int :: "string \<Rightarrow> (int \<times> string) option" where
  "dec_int cs = do {
     (s, r) \<leftarrow> dec_str cs;
     Some (if s \<noteq> [] \<and> hd s = CHR ''-'' then - int (length (tl s)) else int (length s), r)
   }"

lemma dec_int_enc [simp]: "dec_int (enc_int i @ r) = Some (i, r)"
  by (cases "nat i") (auto simp: dec_int_def enc_int_def)

definition enc_list :: "('a \<Rightarrow> string) \<Rightarrow> 'a list \<Rightarrow> string" where
  "enc_list f xs = enc_int (int (length xs)) @ concat (map f xs)"

fun dec_items :: "(string \<Rightarrow> ('a \<times> string) option) \<Rightarrow> nat \<Rightarrow> string \<Rightarrow> ('a list \<times> string) option" where
  "dec_items g 0 cs = Some ([], cs)"
| "dec_items g (Suc n) cs = do { (x, cs1) \<leftarrow> g cs; (xs, r) \<leftarrow> dec_items g n cs1; Some (x # xs, r) }"

definition dec_list :: "(string \<Rightarrow> ('a \<times> string) option) \<Rightarrow> string \<Rightarrow> ('a list \<times> string) option" where
  "dec_list g cs = do { (n, cs1) \<leftarrow> dec_int cs; dec_items g (nat n) cs1 }"

lemma dec_items_enc: "(\<And>x r. g (f x @ r) = Some (x, r)) \<Longrightarrow> dec_items g (length xs) (concat (map f xs) @ r) = Some (xs, r)"
  by (induction xs) simp_all

lemma dec_list_enc [simp]: "(\<And>x r. g (f x @ r) = Some (x, r)) \<Longrightarrow> dec_list g (enc_list f xs @ r) = Some (xs, r)"
  by (simp add: dec_list_def enc_list_def dec_items_enc)

definition enc_opt :: "('a \<Rightarrow> string) \<Rightarrow> 'a option \<Rightarrow> string" where
  "enc_opt f x = enc_list f (case x of None \<Rightarrow> [] | Some y \<Rightarrow> [y])"

definition dec_opt :: "(string \<Rightarrow> ('a \<times> string) option) \<Rightarrow> string \<Rightarrow> ('a option \<times> string) option" where
  "dec_opt g cs = do { (xs, r) \<leftarrow> dec_list g cs; Some (case xs of [] \<Rightarrow> None | y # _ \<Rightarrow> Some y, r) }"

lemma dec_opt_enc [simp]: "(\<And>x r. g (f x @ r) = Some (x, r)) \<Longrightarrow> dec_opt g (enc_opt f x @ r) = Some (x, r)"
  by (cases x) (simp_all add: dec_opt_def enc_opt_def)

definition enc_index :: "inner_index \<Rightarrow> string" where
  "enc_index x = enc_str (ii_name x) @ enc_str (ii_type x) @ enc_opt enc_str (ii_params x)"

definition dec_index :: "string \<Rightarrow> (inner_index \<times> string) option" where
  "dec_index cs = do { (n, cs1) \<leftarrow> dec_str cs; (t, cs2) \<leftarrow> dec_str cs1; (p, r) \<leftarrow> dec_opt dec_str cs2;
     Some (\<lparr>ii_name = n, ii_type = t, ii_params = p\<rparr>, r) }"

lemma dec_index_enc [simp]: "dec_index (enc_index x @ r) = Some (x, r)"
  by (simp add: dec_index_def enc_index_def)

definition enc_field :: "inner_field \<Rightarrow> string" where
  "enc_field x = enc_str (nf_name x) @ enc_str (nf_type x) @ enc_int (nf_dimension x) @ enc_opt enc_index (nf_index x)"

definition dec_field :: "string \<Rightarrow> (inner_field \<times> string) option" where
  "dec_field cs = do { (n, cs1) \<leftarrow> dec_str cs; (t, cs2) \<leftarrow> dec_str cs1; (d, cs3) \<leftarrow> dec_int cs2; (i, r) \<leftarrow> dec_opt dec_index cs3;
     Some (\<lparr>nf_name = n, nf_type = t, nf_dimension = d, nf_index = i\<rparr>, r) }"

lemma dec_field_enc [simp]: "dec_field (enc_field x @ r) = Some (x, r)"
  by (simp add: dec_field_def enc_field_def)

definition enc_replica :: "replica_node \<Rightarrow> string" where
  "enc_replica x = enc_int (rn_ps_id x) @ enc_str (rn_ps_ip x) @ enc_int (rn_ps_port x) @ enc_int (rn_is_leader x) @
     enc_str (rn_node_status x) @ enc_str (rn_msg x)"

definition dec_replica :: "string \<Rightarrow> (replica_node \<times> string) option" where
  "dec_replica cs = do { (i, cs1) \<leftarrow> dec_int cs; (ip, cs2) \<leftarrow> dec_str cs1; (p, cs3) \<leftarrow> dec_int cs2; (l, cs4) \<leftarrow> dec_int cs3;
     (n, cs5) \<leftarrow> dec_str cs4; (m, r) \<leftarrow> dec_str cs5;
     Some (\<lparr>rn_ps_id = i, rn_ps_ip = ip, rn_ps_port = p, rn_is_leader = l, rn_node_status = n, rn_msg = m\<rparr>, r) }"

lemma dec_replica_enc [simp]: "dec_replica (enc_replica x @ r) = Some (x, r)"
  by (simp add: dec_replica_def enc_replica_def)

definition enc_partition :: "partition_info \<Rightarrow> string" where
  "enc_partition x = enc_int (pi_partition_id x) @ enc_str (pi_group_name x) @ enc_list enc_replica (pi_replicas x) @
     enc_str (pi_ctime x) @ enc_str (pi_mtime x)"

definition dec_partition :: "string \<Rightarrow> (partition_info \<times> string) option" where
  "dec_partition cs = do { (i, cs1) \<leftarrow> dec_int cs; (g, cs2) \<leftarrow> dec_str cs1; (rs, cs3) \<leftarrow> dec_list dec_replica cs2;
     (c, cs4) \<leftarrow> dec_str cs3; (m, r) \<leftarrow> dec_str cs4;
     Some (\<lparr>pi_partition_id = i, pi_group_name = g, pi_replicas = rs, pi_ctime = c, pi_mtime = m\<rparr>, r) }"

lemma dec_partition_enc [simp]: "dec_partition (enc_partition x @ r) = Some (x, r)"
  by (simp add: dec_partition_def enc_partition_def)

definition enc_space :: "inner_space \<Rightarrow> string" where
  "enc_space x = enc_str (ns_db_name x) @ enc_str (ns_space_name x) @ enc_int (ns_id x) @ enc_int (ns_partition_num x) @
     enc_int (ns_replica_num x) @ enc_list enc_field (ns_fields x) @ enc_list enc_partition (ns_partitions x) @
     enc_str (ns_id_type x) @ enc_str (ns_ctime x) @ enc_str (ns_mtime x)"

definition dec_space :: "string \<Rightarrow> (inner_space \<times> string) option" where
  "dec_space cs = do { (d, cs1) \<leftarrow> dec_str cs; (s, cs2) \<leftarrow> dec_str cs1; (i, cs3) \<leftarrow> dec_int cs2; (pn, cs4) \<leftarrow> dec_int cs3;
     (rn, cs5) \<leftarrow> dec_int cs4; (fs, cs6) \<leftarrow> dec_list dec_field cs5; (ps, cs7) \<leftarrow> dec_list dec_partition cs6;
     (t, cs8) \<leftarrow> dec_str cs7; (c, cs9) \<leftarrow> dec_str cs8; (m, r) \<leftarrow> dec_str cs9;
     Some (\<lparr>ns_db_name = d, ns_space_name = s, ns_id = i, ns_partition_num = pn, ns_replica_num = rn, ns_fields = fs,
       ns_partitions = ps, ns_id_type = t, ns_ctime = c, ns_mtime = m\<rparr>, r) }"

lemma dec_space_enc: "dec_space (enc_space x @ r) = Some (x, r)"
  by (simp add: dec_space_def enc_space_def)


subsection \<open>Libraries\<close>

type_synonym demo_world = "(string \<times> string) list"

definition demo_kv :: "demo_world kv_lib" where
  "demo_kv = \<lparr>
     kv_put = \<lambda>k v l w. (None, if kept k then AList.update k v w else w),
     kv_get = \<lambda>k w. (Inr (case map_of w k of None \<Rightarrow> [] | Some v \<Rightarrow> [(k, v)]), w),
     kv_get_prefix = \<lambda>p w. (Inr (filter (\<lambda>(k, v). prefix p k) (AList.clearjunk w)), w),
     kv_delete = \<lambda>k w. (Inr (if map_of w k = None then 0 else 1), if kept k then AList.delete k w else w),
     kv_grant = \<lambda>ttl w. (Inr 1, w),
     kv_stm = \<lambda>k f w. (let v = (case map_of w k of None \<Rightarrow> '''' | Some v \<Rightarrow> v)
       in case f v of Inl e \<Rightarrow> (Inl e, w) | Inr x \<Rightarrow> (Inr (True, v), AList.update k x w)),
     lk_session = \<lambda>w. (Inr 0, w),
     lk_try_lock = \<lambda>s k w. (None, w),
     lk_unlock = \<lambda>s k w. (None, w),
     lk_close = \<lambda>s w. w,
     go_sleep_ms = \<lambda>ms w. w\<rparr>"

lemma clearjunk_set: "set (AList.clearjunk w) = {(k, v). map_of w k = Some v}"
  using map_of_eq_Some_iff [OF distinct_clearjunk, of w] by (auto simp: map_of_clearjunk)

lemma demo_kv_spec: "kv_spec demo_kv map_of"
  unfolding kv_spec_def demo_kv_def
  by (auto simp: update_conv' delete_conv' clearjunk_set Let_def fun_eq_iff distinct_map_filter distinct_clearjunk split: sum.splits option.splits)

lemma demo_scans: "scans_ok demo_kv"
  by (simp add: scans_ok_def demo_kv_def)

text \<open>The nodes whose URL is listed do not answer.\<close>

definition demo_go :: go_lib where
  "demo_go = \<lparr>gl_ivfpq_json = \<lambda>p. ''{}'', gl_hnsw_json = \<lambda>p. ''{}'', gl_space_json = enc_space,
     gl_space_unmarshal = \<lambda>json s. (case dec_space json of None \<Rightarrow> (False, s) | Some (x, r) \<Rightarrow> (True, x)),
     gl_sprintf = \<lambda>f args. f, gl_range = \<lambda>ks. ks\<rparr>"

definition demo_master :: "string list \<Rightarrow> demo_world master_lib" where
  "demo_master down = \<lparr>ml_go = demo_go, ml_kv = demo_kv,
     ml_http = \<lambda>url body w. (if url \<in> set down then Send_error ''refused'' else Http_body ''{}'', w),
     ml_unmarshal = \<lambda>body r. (None, r), ml_create_json = \<lambda>s p. ''{}'', ml_delete_json = \<lambda>d s. ''{}'', ml_add_json = \<lambda>s. ''{}'',
     ml_order = \<lambda>n w. [0..<n], ml_time = \<lambda>w. ''t''\<rparr>"

lemma demo_env: "master_env (demo_master down) map_of"
  using dec_space_enc [of _ "[]"] demo_kv_spec
  by (simp add: master_env_def demo_master_def http_keeps_def go_spec_def demo_go_def)

definition demo_api_field :: api_field where
  "demo_api_field = \<lparr>af_name = ''vec'', af_type = ''vector'', af_dimension = 2,
     af_index = Some \<lparr>ai_name = ''idx'', ai_type = ''FLAT'', ai_params = Some \<lparr>ip_metric_type = ''L2'', ip_training_threshold = 0,
       ip_ncentroids = 0, ip_nsubvector = 0, ip_nlinks = 0, ip_efConstruction = 0, ip_efSearch = 0, ip_thread_num = 0, ip_hnsw = None\<rparr>\<rparr>\<rparr>"

definition demo_api_space :: "int \<Rightarrow> int \<Rightarrow> api_space" where
  "demo_api_space partitions replicas = \<lparr>as_db_name = ''products'', as_space_name = ''photos'', as_id = 0, as_partition_num = partitions,
     as_replica_num = replicas, as_fields = [demo_api_field], as_partitions = [], as_id_type = '''', as_ctime = '''', as_mtime = ''''\<rparr>"

definition demo_nodes :: demo_world where
  "demo_nodes = [(''/nodes/ps/:h:1:1'', ''''), (''/nodes/ps/:h:2:2'', ''''), (''/nodes/ps/:h:3:3'', '''')]"

definition demo_created :: demo_world where
  "demo_created = snd (the (createSpace (demo_master []) (Inr (demo_api_space 2 1)) demo_nodes))"

lemma demo_creation: "createSpace (demo_master []) (Inr (demo_api_space 2 1)) demo_nodes = Some ((0, ''success''), demo_created)"
  by code_simp


lemma demo_created_new: "demo_created \<noteq> demo_nodes"
  by code_simp


text \<open>
  A space of two partitions with one replica each: when the second node does not answer, the handler panics on
  the index of the node to blame.
\<close>

lemma demo_create_panics: "createSpace (demo_master [''http://h:2/PsService/CreateSpace'']) (Inr (demo_api_space 2 1)) demo_nodes = None"
  by code_simp

text \<open>A space of one partition with one replica, whose node does not answer.\<close>

definition demo_down :: "demo_world master_lib" where
  "demo_down = demo_master [''http://h:1/PsService/CreateSpace'', ''http://h:1/PsService/DeleteSpace'']"

definition demo_failed :: demo_world where
  "demo_failed = snd (the (createSpace demo_down (Inr (demo_api_space 1 1)) demo_nodes))"

lemma demo_fail: "\<exists>m. createSpace demo_down (Inr (demo_api_space 1 1)) demo_nodes = Some ((100, m), demo_failed)"
proof -
  have "(case createSpace demo_down (Inr (demo_api_space 1 1)) demo_nodes of None \<Rightarrow> False | Some ((c, m), w) \<Rightarrow> c = 100)" by code_simp
  then show ?thesis unfolding demo_failed_def by (auto split: option.splits)
qed


lemma demo_retry: "\<exists>a w. createSpace demo_down (Inr (demo_api_space 1 1)) demo_failed = Some (a, w)"
proof -
  have "createSpace demo_down (Inr (demo_api_space 1 1)) demo_failed \<noteq> None" by code_simp
  then show ?thesis by auto
qed


text \<open>The node of the first partition registers again.\<close>

definition demo_stored :: string where
  "demo_stored = the (map_of demo_created ''/spaces/mata/products/photos'')"

definition demo_replica :: replica_node where
  "demo_replica = hd (space_replicas (fst (the (dec_space demo_stored))))"

lemma demo_replica_facts:
  "map_of demo_created ''/spaces/mata/products/photos'' = Some demo_stored"
  "case dec_space demo_stored of None \<Rightarrow> False | Some (s, r) \<Rightarrow> space_replicas s \<noteq> []"
  "rn_ps_ip demo_replica = ''h''" "rn_ps_port demo_replica = 1"
  by code_simp+

lemma demo_register: "\<exists>w. register (demo_master []) (Inr (''h'', 1, 1)) demo_created = Some ((0, ''success'', ''/nodes/ps/:h:1:1''), w)"
proof -
  have "map_option fst (register (demo_master []) (Inr (''h'', 1, 1)) demo_created) = Some (0, ''success'', ''/nodes/ps/:h:1:1'')" by code_simp
  then show ?thesis by (auto simp: map_option_eq_Some)
qed

lemma demo_nodes_ok: "spaces_ok demo_go (map_of demo_nodes)"
proof -
  have "\<forall>k. of_spaces k \<longrightarrow> map_of demo_nodes k = None" by (auto simp: demo_nodes_def of_spaces_def SpacesMataPrefix_def)
  then show ?thesis unfolding spaces_ok_def by (metis option.distinct(1))
qed

lemma demo_created_ok: "spaces_ok demo_go (map_of demo_created)"
proof -
  have "ml_go (demo_master []) = demo_go" "scans_ok (ml_kv (demo_master []))" using demo_scans by (simp_all add: demo_master_def)
  then show ?thesis using createSpace_ok [OF demo_env _ _ demo_creation] demo_nodes_ok by simp
qed

end
