(* ===== verification/Master_Guarantees.thy ===== *)
theory Master_Guarantees
  imports Master_Demo
begin

text \<open>
  What the master guarantees to the cluster: nodes are not shared between spaces, a stored space has the shape its
  request asked for, keys and ids agree with what the C++ processes read and write, and the behaviour when nodes fail.
\<close>

subsection \<open>Nodes and spaces\<close>



lemma filled_task_replica:
  assumes "create_pre s" and "enough s idle" and "idx < nat (ns_partition_num s) * nat (ns_replica_num s)"
  shows "task_replica (filled t idle i s) idx =
    (let p = nat (ns_partition_num s); r = nat (ns_replica_num s)
     in if idx div p < p \<and> idx mod p < r then Some (idle ! (idx div p * r + idx mod p)) else None)"
proof -
  define p r where pr: "p = nat (ns_partition_num s)" "r = nat (ns_replica_num s)"
  have s: "ns_partition_num s = int p" "ns_replica_num s = int r" "0 < p" using assms(1) by (auto simp: create_pre_def pr)
  have len: "p * r \<le> length idle" using assms(2) by (simp add: enough_def s flip: of_nat_mult)
  have fit: "q * r + r \<le> length idle" if "q < p" for q
  proof -
    have "Suc q * r \<le> p * r" using that by (intro mult_le_mono1) simp
    with len show ?thesis by simp
  qed
  have parts: "ns_partitions (filled t idle i s) = map (given idle t s) [0..<p]" "ns_partition_num (filled t idle i s) = int p" by (simp_all add: filled_def s)
  have a: "at_ub (map (given idle t s) [0..<p]) (int (idx div p)) = (if idx div p < p then Some (given idle t s (idx div p)) else None)"
    by (simp add: at_ub_def)
  have b: "at_ub (pi_replicas (given idle t s q)) (int (idx mod p)) = (if idx mod p < r then Some (idle ! (q * r + idx mod p)) else None)"
    if "q < p" for q using fit [OF that] by (simp add: at_ub_def given_def s)
  show ?thesis unfolding task_replica_def parts pr [symmetric] zdiv_int [symmetric] zmod_int [symmetric] a using s(3) b [of "idx div p"] by (simp add: Let_def)
qed

text \<open>C20: The node blamed for a failed call, \<open>Partitions[idx/PartitionNum].Replicas[idx%PartitionNum]\<close>, is the node that was called,
  for every call, exactly when the space has as many replicas as partitions.
\<close>

theorem task_replica_right_iff_square:
  assumes "create_pre s" and "enough s idle"
  shows "(\<forall>idx < nat (ns_partition_num s) * nat (ns_replica_num s).
      task_replica (filled t idle i s) idx = Some (space_replicas (filled t idle i s) ! idx)) \<longleftrightarrow> ns_partition_num s = ns_replica_num s"
proof -
  define p r where pr: "p = nat (ns_partition_num s)" "r = nat (ns_replica_num s)"
  have s: "ns_partition_num s = int p" "ns_replica_num s = int r" "0 < p" "0 < r" using assms(1) by (auto simp: create_pre_def pr)
  note tr = filled_task_replica [OF assms, folded pr, unfolded Let_def, of _ t i]
  have "p = r" if "\<forall>idx < p * r. task_replica (filled t idle i s) idx = Some (take (p * r) idle ! idx)"
  proof -
    have lt: "p - 1 < p * r" "(r - 1) * p < p * r" using s(3,4) by (cases p; cases r; simp)+
    have "task_replica (filled t idle i s) (p - 1) \<noteq> None" "task_replica (filled t idle i s) ((r - 1) * p) \<noteq> None"
      using that lt by simp_all
    then have "p - 1 < r" "r - 1 < p" using tr [OF lt(1)] tr [OF lt(2)] s(3,4) by (simp_all split: if_splits)
    then show ?thesis by simp
  qed
  moreover have "task_replica (filled t idle i s) idx = Some (take (p * r) idle ! idx)" if "p = r" "idx < p * r" for idx
  proof -
    have "idx div p < p \<and> idx mod p < r" using that s(3) by (simp add: less_mult_imp_div_less)
    moreover have "idx div p * r + idx mod p = idx" using that(1) by simp
    ultimately show ?thesis using tr [OF that(2)] that(2) by simp
  qed
  ultimately show ?thesis unfolding filled_facts pr [symmetric] using s(1,2) by auto
qed

theorem task_replica_right_iff_square_witness:
  "create_pre (ApiSpaceToInnerSpace demo_go (demo_api_space 2 1)) \<and>
   \<not> (\<forall>idx < 2. task_replica (filled ''t'' [zero_replica, zero_replica] 0 (ApiSpaceToInnerSpace demo_go (demo_api_space 2 1))) idx =
        Some (space_replicas (filled ''t'' [zero_replica, zero_replica] 0 (ApiSpaceToInnerSpace demo_go (demo_api_space 2 1))) ! idx))"
proof -
  let ?s = "ApiSpaceToInnerSpace demo_go (demo_api_space 2 1)"
  have pre: "create_pre ?s" by code_simp
  moreover have "enough ?s [zero_replica, zero_replica]" "ns_partition_num ?s = 2" "ns_replica_num ?s = 1"
    by (simp_all add: enough_def ApiSpaceToInnerSpace_def demo_api_space_def)
  ultimately show ?thesis using task_replica_right_iff_square [of ?s "[zero_replica, zero_replica]" "''t''" 0] by simp
qed

subsection \<open>Keys and ids\<close>

lemma split_by_sep: "c \<notin> set a \<Longrightarrow> split_by c (a @ c # b) = a # split_by c b"
  by (induction a) auto

lemma split_by_last: "c \<notin> set a \<Longrightarrow> split_by c a = [a]"
  by (induction a) auto

lemma hd_nat_to_string: "isdigit (hd (nat_to_string n))"
  using nat_to_string_all_digits [of n] nat_to_string_nonempty [of n] by (cases "nat_to_string n") auto

lemma no_sign: "hd (nat_to_string n) \<noteq> CHR ''-''" "hd (nat_to_string n) \<noteq> CHR ''+''"
  using hd_nat_to_string [of n] by (auto simp: isdigit_def)

lemma all_digits: "list_all isdigit (nat_to_string n)"
  using nat_to_string_all_digits [of n] by (auto simp: list_all_iff)

lemma Atoi_to_string: "is_int64 n \<Longrightarrow> Atoi (to_string n) = n"
  by (auto simp: Atoi_def to_string_def Let_def nat_to_string_nonempty no_sign all_digits is_int64_def)

lemma ParseInt_to_string: "is_int64 n \<Longrightarrow> ParseInt (to_string n) = Some n"
  by (auto simp: ParseInt_def to_string_def Let_def nat_to_string_nonempty no_sign all_digits)

text \<open>C21: The key under which a partition server puts itself into etcd, as the C++ code builds it, is the key the master builds, and
  the master reads address, port and id back from it.
\<close>

theorem register_key_agrees:
  assumes "CHR '':'' \<notin> set ip" and "is_int64 port" and "is_int64 ps_id"
  shows "GetPsRegisterKey ip port ps_id = fst (GetPsRegisterKV ip port ps_id) \<and>
    ParsePsRegisterKey (fst (GetPsRegisterKV ip port ps_id)) = Some (ip, port, ps_id)"
proof -
  let ?key = "ps_register_prefix @ CHR '':'' # ip @ CHR '':'' # to_string port @ CHR '':'' # to_string ps_id"
  have "split_by (CHR '':'') ?key = [ps_register_prefix, ip, to_string port, to_string ps_id]"
    using assms(1) to_string_no_colon by (simp add: split_by_sep split_by_last ps_register_prefix_def)
  moreover have "fst (GetPsRegisterKV ip port ps_id) = ?key" by (simp add: GetPsRegisterKV_def)
  ultimately have "ParsePsRegisterKey (fst (GetPsRegisterKV ip port ps_id)) = Some (ip, port, ps_id)"
    using assms(2,3) by (simp add: ParsePsRegisterKey_def at_ub_def Atoi_to_string)
  moreover have "GetPsRegisterKey ip port ps_id = fst (GetPsRegisterKV ip port ps_id)"
    by (simp add: GetPsRegisterKV_def GetPsRegisterKey_def GetPsNodeName_def ps_register_prefix_def PsNodesPrefix_def)
  ultimately show ?thesis by blast
qed

theorem register_key_agrees_witness:
  "ParsePsRegisterKey (fst (GetPsRegisterKV ''10.0.0.1'' 8081 7)) = Some (''10.0.0.1'', 8081, 7)"
  using register_key_agrees [of "''10.0.0.1''" 8081 7] by (simp add: is_int64_def)


subsection \<open>Ids\<close>

text \<open>The ids a counter has handed out, the last one first, with whatever else happens in between.\<close>

inductive id_run :: "'w kv_lib \<Rightarrow> ('w \<Rightarrow> string \<rightharpoonup> string) \<Rightarrow> string \<Rightarrow> int \<Rightarrow> int list \<Rightarrow> 'w \<Rightarrow> bool" for kv store k base where
  id_none: "id_run kv store k base [] w"
| id_outside: "id_run kv store k base is w \<Longrightarrow> store w' k = store w k \<Longrightarrow> id_run kv store k base is w'"
| id_issued: "id_run kv store k base is w \<Longrightarrow> store w k \<noteq> Some (to_string (2 ^ 63 - 1)) \<Longrightarrow>
    NewIDGenerate kv k base w = ((i, None), w') \<Longrightarrow> id_run kv store k base (i # is) w'"
| id_failed: "id_run kv store k base is w \<Longrightarrow> store w k \<noteq> Some (to_string (2 ^ 63 - 1)) \<Longrightarrow>
    NewIDGenerate kv k base w = ((i, Some e), w') \<Longrightarrow> id_run kv store k base is w'"

lemma next_id_to_string: "is_int64 n \<Longrightarrow> next_id base (to_string n) = Inr (int64_of (n + 1))"
  by (simp add: next_id_def to_string_nonempty ParseInt_to_string)

lemma NewIDGenerate_counts:
  assumes "kv_spec kv store" and "store w k = Some (to_string n)" and "is_int64 n" and "n \<noteq> 2 ^ 63 - 1"
    and "NewIDGenerate kv k base w = ((i, e), w')"
  shows "store w' k = store w k \<or> store w' k = Some (to_string (n + 1))" and "e = None \<Longrightarrow> i = n + 1 \<and> store w' k = Some (to_string i)"
proof -
  let ?f = "\<lambda>v. map_sum id to_string (next_id base v)"
  have nx: "next_id base (to_string n) = Inr (n + 1)"
    using next_id_to_string [OF assms(3)] assms(3,4) by (simp add: int64_of_id is_int64_def)
  obtain r where stm: "kv_stm kv k ?f w = (r, w')" using assms(5) by (auto simp: NewIDGenerate_def split: prod.splits)
  show "store w' k = store w k \<or> store w' k = Some (to_string (n + 1))"
    using kv_specD(9) [OF assms(1) stm] assms(2) nx by auto
  show "i = n + 1 \<and> store w' k = Some (to_string i)" if e: "e = None"
  proof -
    obtain v where "r = Inr (True, v)" and i: "next_id base v = Inr i"
      using assms(5) stm e by (auto simp: NewIDGenerate_def split: sum.splits prod.splits if_splits)
    with kv_specD(8) [OF assms(1), of k ?f w v w'] stm assms(2) have "v = to_string n" "store w' k = Some (to_string i)" by auto
    with nx i show ?thesis by simp
  qed
qed

lemma is_int64_int64_of: "is_int64 (int64_of i)"
  using signed_take_bit_int_greater_eq_minus_exp [of 63 i] signed_take_bit_int_less_exp [of 63 i] by (simp add: int64_of_def is_int64_def)

lemma NewIDGenerate_first:
  assumes "kv_spec kv store" and "is_int64 base" and "NewIDGenerate kv k base w = ((i, None), w')"
  shows "is_int64 i \<and> store w' k = Some (to_string i)"
proof -
  let ?f = "\<lambda>v. map_sum id to_string (next_id base v)"
  obtain v where "kv_stm kv k ?f w = (Inr (True, v), w')" and i: "next_id base v = Inr i"
    using assms(3) by (auto simp: NewIDGenerate_def split: sum.splits prod.splits if_splits)
  then have "store w' k = Some (to_string i)" using kv_specD(8) [OF assms(1), of k ?f w v w'] by auto
  moreover have "is_int64 i" using i assms(2) by (auto simp: next_id_def is_int64_int64_of split: if_splits option.splits)
  ultimately show ?thesis by simp
qed

text \<open>C17: The ids a counter hands out only grow, so no id is given twice, even when calls fail with or without effect in between;
  up to the largest 64-bit integer.
\<close>

theorem ids_grow:
  assumes "kv_spec kv store" and "is_int64 base" and "id_run kv store k base is w"
  shows "sorted_wrt (>) is"
proof -
  have "sorted_wrt (>) is \<and> (is \<noteq> [] \<longrightarrow> (\<exists>n. is_int64 n \<and> store w k = Some (to_string n) \<and> (\<forall>i \<in> set is. i \<le> n)))"
    using assms(3)
  proof induction
    case (id_issued xs w i w')
    show ?case
    proof (cases "xs = []")
      case True
      then show ?thesis using NewIDGenerate_first [OF assms(1,2) id_issued(3)] by auto
    next
      case False
      with id_issued obtain n where n: "is_int64 n" "store w k = Some (to_string n)" "\<forall>i \<in> set xs. i \<le> n" by blast
      with id_issued have "n \<noteq> 2 ^ 63 - 1" by auto
      then have "i = n + 1" "store w' k = Some (to_string i)" using NewIDGenerate_counts(2) [OF assms(1) n(2,1) _ id_issued(3)] by simp_all
      moreover have "is_int64 i" using NewIDGenerate_first [OF assms(1,2) id_issued(3)] by simp
      ultimately show ?thesis using n(3) id_issued.IH by force
    qed
  next
    case (id_failed xs w i e w')
    show ?case
    proof (cases "xs = []")
      case False
      with id_failed obtain n where n: "is_int64 n" "store w k = Some (to_string n)" "\<forall>i \<in> set xs. i \<le> n" by blast
      with id_failed have "n \<noteq> 2 ^ 63 - 1" by auto
      then have "store w' k = Some (to_string n) \<or> store w' k = Some (to_string (n + 1))" "is_int64 (n + 1)"
        using NewIDGenerate_counts(1) [OF assms(1) n(2,1) _ id_failed(3)] n(1,2) by (auto simp: is_int64_def)
      with n id_failed.IH show ?thesis by force
    qed simp
  qed simp_all
  then show ?thesis by blast
qed


theorem ids_grow_witness:
  "\<exists>w. id_run demo_kv map_of GenPsIdKey IdBaseVal [1, 0] w \<and> sorted_wrt (>) [1, 0 :: int]"
proof -
  let ?w1 = "snd (NewIDGenerate demo_kv GenPsIdKey IdBaseVal demo_nodes)" and ?w2 = "snd (NewIDGenerate demo_kv GenPsIdKey IdBaseVal
    (snd (NewIDGenerate demo_kv GenPsIdKey IdBaseVal demo_nodes)))"
  have g: "NewIDGenerate demo_kv GenPsIdKey IdBaseVal demo_nodes = ((0, None), ?w1)" "NewIDGenerate demo_kv GenPsIdKey IdBaseVal ?w1 = ((1, None), ?w2)"
    "map_of demo_nodes GenPsIdKey = None" "map_of ?w1 GenPsIdKey = Some ''0''" by code_simp+
  have "id_run demo_kv map_of GenPsIdKey IdBaseVal [0] ?w1" using id_run.id_issued [OF id_run.id_none _ g(1), where store = map_of] g(3) by simp
  then have r: "id_run demo_kv map_of GenPsIdKey IdBaseVal [1, 0] ?w2"
    using id_run.id_issued [OF _ _ g(2), where store = map_of] g(4) by (simp add: to_string_def nat_to_string.simps)
  moreover have "is_int64 IdBaseVal" by (simp add: IdBaseVal_def is_int64_def)
  ultimately show ?thesis using ids_grow [OF demo_kv_spec _ r] by blast
qed


subsection \<open>What a creation leaves in etcd\<close>

lemma create_unlocked_success:
  assumes "master_env lib store" and "scans_ok (ml_kv lib)" and "spaces_ok (ml_go lib) (store w)" and "create_pre s"
    and "create_unlocked lib s w = Some ((0, m), w')"
  shows "\<exists>t idle i. enough s idle \<and> puts store (space_key s) (gl_space_json (ml_go lib) (filled t idle i s)) w w' \<and> store w (space_key s) = None"
proof -
  let ?kv = "ml_kv lib"
  have kv: "kv_spec ?kv store" using assms(1) by (simp add: master_env_def)
  obtain val w1 where g: "EtcdGet ?kv DdlDisabledKey w = (val, w1)" by (rule prod.exhaust)
  note w1 = EtcdGet_store [OF kv g]
  have "val = Inr None" using assms(5) g by (auto simp: create_unlocked_def split: if_splits)
  then obtain idle m1 w2 where v: "ValidateNameAndGetIdlePsNode lib s w1 = Some ((idle, m1), w2)"
    using assms(5) g by (auto simp: create_unlocked_def bind_eq_Some_conv)
  have ok1: "spaces_ok (ml_go lib) (store w1)" using w1 assms(3) by simp
  note i = idle_nodes [OF assms(1,2) ok1 v]
  have m1: "m1 = ''''" using assms(5) g \<open>val = Inr None\<close> v by (auto simp: create_unlocked_def split: if_splits)
  have en: "enough s idle"
  proof (rule ccontr)
    assume "\<not> enough s idle"
    from CreatePsSpaceImpl_few [OF this, of lib w2] show False
      using assms(5) g \<open>val = Inr None\<close> v m1 by (auto simp: create_unlocked_def split: if_splits)
  qed
  obtain j e w3 where n: "NewIDGenerate ?kv GenSpaceIdKey IdBaseVal w2 = ((j, e), w3)" by (metis prod.exhaust)
  obtain ok s1 w4 x where c: "create_filled lib (create_prefix s) (filled (ml_time lib w2) idle j s) w3 = Some (ok, '''', s1, w4)"
    and w': "AddRouterSpace lib s1 w4 = Some (x, w')"
    using assms(5) g \<open>val = Inr None\<close> v m1 n
    by (auto simp: create_unlocked_def CreatePsSpaceImpl_filled [OF assms(4) en] bind_eq_Some_conv split: if_splits)
  have "puts store (space_key s) (gl_space_json (ml_go lib) (filled (ml_time lib w2) idle j s)) w3 w4"
    using create_filled_effect [OF assms(1) c] by simp
  moreover have "same_spaces store w w3" using NewIDGenerate_same [OF kv of_spaces_keys(7) n] i(1) w1 by (simp add: same_spaces_def)
  moreover have "same_spaces store w4 w'" using AddRouterSpace_store [OF assms(1) w'] by (rule same_spaces_eq)
  ultimately have "puts store (space_key s) (gl_space_json (ml_go lib) (filled (ml_time lib w2) idle j s)) w w'" by (metis puts_same)
  moreover have "store w (space_key s) = None" using i(4) m1 assms(4) w1 by (simp add: create_pre_def)
  ultimately show ?thesis using en by blast
qed

lemma createSpace_success:
  assumes "master_env lib store" and "scans_ok (ml_kv lib)" and "spaces_ok (ml_go lib) (store w)"
    and "createSpace lib (Inr a) w = Some ((0, m), w')"
  shows "\<exists>s t idle i. s = ApiSpaceToInnerSpace (ml_go lib) a \<and> CheckApiSpace (ml_go lib) a = Some '''' \<and> enough s idle \<and>
    puts store (space_key s) (gl_space_json (ml_go lib) (filled t idle i s)) w w' \<and> store w (space_key s) = None"
proof -
  let ?s = "ApiSpaceToInnerSpace (ml_go lib) a"
  have kv: "kv_spec (ml_kv lib) store" using assms(1) by (simp add: master_env_def)
  have chk: "CheckApiSpace (ml_go lib) a = Some ''''" and v: "ValidateCreateSpaceParam lib (Inr a) = Some (?s, '''')"
    using assms(4) by (auto simp: createSpace_def ValidateCreateSpaceParam_def bind_eq_Some_conv Let_def split: if_splits)
  obtain r w1 where l: "GetEtcdLocker (ml_kv lib) DdlLockKey w = (r, w1)" by (rule prod.exhaust)
  obtain lk where lk: "r = Inr lk" using assms(4) v l by (cases r) (auto simp: createSpace_def Let_def)
  obtain e w2 where t: "TryLock (ml_kv lib) lk 20 200 w1 = (e, w2)" by (rule prod.exhaust)
  have st: "store w2 = store w" using TryLock_store [OF kv t] GetEtcdLocker_store [OF kv l] by simp
  obtain w3 where c: "create_unlocked lib ?s w2 = Some ((0, m), w3)" and w': "w' = snd (UnlockAndClose (ml_kv lib) lk w3)"
    using assms(4) v l lk t by (auto simp: createSpace_def bind_eq_Some_conv Let_def split: if_splits)
  have "store w' = store w3" using UnlockAndClose_store [OF kv] w' by simp
  then have "puts store k x w w' \<longleftrightarrow> puts store k x w2 w3" for k x using st by (simp add: puts_def)
  with create_unlocked_success [OF assms(1,2) _ ValidateCreateSpaceParam_pre [OF v] c] st assms(3) chk show ?thesis by auto
qed




subsection \<open>After a failed creation\<close>

definition barred :: "('w \<Rightarrow> string \<rightharpoonup> string) \<Rightarrow> 'w \<Rightarrow> bool" where
  "barred store w \<longleftrightarrow> (\<exists>v. store w DdlDisabledKey = Some v \<and> v \<noteq> '''')"

definition puts_succeed :: "'w kv_lib \<Rightarrow> bool" where
  "puts_succeed kv \<longleftrightarrow> (\<forall>k v l w. fst (kv_put kv k v l w) = None)"

lemma kept_DdlDisabledKey: "kept DdlDisabledKey"
  by (simp add: kept_def DdlDisabledKey_def)

lemma EtcdGet_barred:
  assumes "kv_spec kv store" and "barred store w" and "EtcdGet kv DdlDisabledKey w = (val, w1)"
  shows "val \<noteq> Inr None"
proof -
  obtain r w2 where g: "kv_get kv DdlDisabledKey w = (r, w2)" by (rule prod.exhaust)
  show ?thesis
  proof (cases r)
    case (Inr kvs)
    then show ?thesis using kv_specD(2) [OF assms(1), of DdlDisabledKey w kvs w2] g assms(2,3) kept_DdlDisabledKey by (auto simp: EtcdGet_def barred_def)
  qed (use g assms(3) in \<open>auto simp: EtcdGet_def\<close>)
qed

lemma createSpace_barred:
  assumes "kv_spec (ml_kv lib) store" and "barred store w" and "createSpace lib body w = Some (a, w')"
  shows "fst a = 10 \<and> store w' = store w"
proof -
  obtain s m where v: "ValidateCreateSpaceParam lib body = Some (s, m)" using assms(3) by (auto simp: createSpace_def bind_eq_Some_conv)
  obtain r w1 where l: "GetEtcdLocker (ml_kv lib) DdlLockKey w = (r, w1)" by (rule prod.exhaust)
  note w1 = GetEtcdLocker_store [OF assms(1) l]
  show ?thesis
  proof (cases "m = '''' \<and> (\<exists>lk. r = Inr lk)")
    case True
    then obtain lk where lk: "m = ''''" "r = Inr lk" by blast
    obtain e w2 where t: "TryLock (ml_kv lib) lk 20 200 w1 = (e, w2)" by (rule prod.exhaust)
    have w2: "store w2 = store w" using TryLock_store [OF assms(1) t] w1 by simp
    obtain val w3 where g: "EtcdGet (ml_kv lib) DdlDisabledKey w2 = (val, w3)" by (rule prod.exhaust)
    have "barred store w2" using assms(2) w2 by (simp add: barred_def)
    from EtcdGet_barred [OF assms(1) this g] obtain m' where "create_unlocked lib s w2 = Some ((10, m'), w3)"
      using g by (auto simp: create_unlocked_def)
    then have "fst a = 10 \<and> (w' = snd (UnlockAndClose (ml_kv lib) lk w2) \<or> w' = snd (UnlockAndClose (ml_kv lib) lk w3))"
      using assms(3) v l lk t by (auto simp: createSpace_def Let_def split: if_splits)
    then show ?thesis using UnlockAndClose_store [OF assms(1)] EtcdGet_store [OF assms(1) g] w2 by metis
  next
    case False
    then have "fst a = 10 \<and> (w' = w \<or> w' = w1)" using assms(3) v l by (cases r) (auto simp: createSpace_def Let_def split: if_splits)
    then show ?thesis using w1 by auto
  qed
qed

lemma deleteSpace_barred:
  assumes "kv_spec (ml_kv lib) store" and "barred store w" and "deleteSpace lib body w = Some (a, w')"
  shows "fst a \<noteq> 0 \<and> store w' = store w"
proof (cases body)
  case (Inr b)
  obtain d s where b: "b = (d, s)" by (rule prod.exhaust)
  obtain r w1 where l: "GetEtcdLocker (ml_kv lib) DdlLockKey w = (r, w1)" by (rule prod.exhaust)
  note w1 = GetEtcdLocker_store [OF assms(1) l]
  show ?thesis
  proof (cases r)
    case (Inr lk)
    obtain e w2 where t: "TryLock (ml_kv lib) lk 20 200 w1 = (e, w2)" by (rule prod.exhaust)
    obtain detail w3 where g: "EtcdGet (ml_kv lib) (GetSpaceEtcdKey d s) w2 = (detail, w3)" by (rule prod.exhaust)
    have w3: "store w3 = store w" using EtcdGet_store [OF assms(1) g] TryLock_store [OF assms(1) t] w1 by simp
    obtain val w4 where g': "EtcdGet (ml_kv lib) DdlDisabledKey w3 = (val, w4)" by (rule prod.exhaust)
    have "barred store w3" using assms(2) w3 by (simp add: barred_def)
    note no = EtcdGet_barred [OF assms(1) this g']
    have "fst a \<noteq> 0 \<and> (w' = snd (UnlockAndClose (ml_kv lib) lk w3) \<or> w' = snd (UnlockAndClose (ml_kv lib) lk w4))"
    proof (cases "\<exists>j. detail = Inr (Some j)")
      case True
      then obtain j where "detail = Inr (Some j)" by blast
      moreover obtain m' where "delete_stored lib d s j w3 = Some ((100, m'), w4)" using no g' by (auto simp: delete_stored_def)
      ultimately show ?thesis using assms(3) \<open>body = Inr b\<close> b l Inr t g by (auto simp: deleteSpace_def Let_def)
    next
      case False
      then show ?thesis using assms(3) \<open>body = Inr b\<close> b l Inr t g by (auto simp: deleteSpace_def Let_def split: sum.splits option.splits)
    qed
    then show ?thesis using UnlockAndClose_store [OF assms(1)] EtcdGet_store [OF assms(1) g'] w3 by metis
  qed (use assms(3) \<open>body = Inr b\<close> b l w1 in \<open>auto simp: deleteSpace_def\<close>)
qed (use assms(3) in \<open>auto simp: deleteSpace_def\<close>)

lemma PutOrAppend_barred:
  assumes "kv_spec kv store" and "barred store w"
  shows "barred store (snd (PutOrAppend kv k v n w))"
proof -
  obtain r w1 where g: "EtcdGet kv k w = (r, w1)" by (rule prod.exhaust)
  have w1: "store w1 = store w" by (rule EtcdGet_store [OF assms(1) g])
  show ?thesis
  proof (cases "snd (PutOrAppend kv k v n w) = w1")
    case True
    then show ?thesis using assms(2) w1 by (simp add: barred_def)
  next
    case False
    then obtain old where r: "r = Inr old" and p: "snd (PutOrAppend kv k v n w) = snd (EtcdPut kv k (case old of None \<Rightarrow> v | Some x \<Rightarrow> x @ v) w1)"
      using g by (auto simp: PutOrAppend_def Let_def split: sum.splits if_splits)
    define new where "new = (case old of None \<Rightarrow> v | Some x \<Rightarrow> x @ v)"
    have "old \<noteq> None" if "k = DdlDisabledKey" using EtcdGet_barred [OF assms(1,2)] g r that by auto
    moreover have "old \<noteq> Some ''''" using g r by (auto simp: EtcdGet_def split: prod.splits sum.splits list.splits if_splits)
    ultimately have new: "k = DdlDisabledKey \<Longrightarrow> new \<noteq> ''''" by (auto simp: new_def)
    obtain e w2 where w2: "EtcdPut kv k new w1 = (e, w2)" by (rule prod.exhaust)
    then have "store w2 = (store w1)(k \<mapsto> new) \<or> store w2 = store w1" using kv_specD(5) [OF assms(1), of k new None w1 e w2] by (auto simp: EtcdPut_def)
    then have "barred store w2" using new assms(2) w1 by (auto simp: barred_def)
    then show ?thesis unfolding p new_def [symmetric] w2 by simp
  qed
qed


lemma PutNodesErrInfoToEtcd_barred:
  assumes "kv_spec (ml_kv lib) store"
  shows "PutNodesErrInfoToEtcd lib space failed m w = Some (s, w') \<Longrightarrow> barred store w \<Longrightarrow> barred store w'"
proof (induction failed arbitrary: s w)
  case (Cons i failed)
  obtain rep where rep: "task_replica space i = Some rep" using Cons.prems by (auto simp: bind_eq_Some_conv)
  let ?w1 = "snd (PutOrAppend (ml_kv lib) (GetErrPsNodeEtcdKey (rn_ps_ip rep) (rn_ps_port rep) (rn_ps_id rep))
      (''space_id:'' @ to_string (ns_id space) @ '' '' @ m) EtcdValMaxLen w)"
  obtain rest where "PutNodesErrInfoToEtcd lib space failed m ?w1 = Some (rest, w')"
    using Cons.prems(1) rep by (auto simp: bind_eq_Some_conv Let_def case_prod_beta)
  then show ?case using PutOrAppend_barred [OF assms Cons.prems(2)] by (rule Cons.IH)
qed simp

lemma undo_create_barred:
  assumes "master_env lib store" and "undo_create lib space m w = Some w'" and "barred store w"
  shows "barred store w'"
proof -
  have kv: "kv_spec (ml_kv lib) store" "http_keeps lib store" using assms(1) by (simp_all add: master_env_def)
  obtain failed w1 s w2 where d: "ParallelDeletePsSpace lib space w = Some (failed, w1)" "PutNodesErrInfoToEtcd lib space failed m w1 = Some (s, w2)"
    and w': "w' = w2 \<or> (\<exists>x. w' = snd (PutOrAppend (ml_kv lib) DdlDisabledKey x EtcdValMaxLen w2))"
    using assms(2) by (auto simp: undo_create_def bind_eq_Some_conv split: if_splits)
  have "barred store w1" using parallel_ps_store(2) [OF kv(2) d(1)] assms(3) by (simp add: barred_def)
  then have "barred store w2" by (rule PutNodesErrInfoToEtcd_barred [OF kv(1) d(2)])
  then show ?thesis using w' PutOrAppend_barred [OF kv(1)] by blast
qed

lemma create_filled_barred:
  assumes "master_env lib store" and "puts_succeed (ml_kv lib)" and "create_filled lib p s w = Some (False, m, s', w')"
  shows "barred store w'"
proof -
  let ?kv = "ml_kv lib" and ?err = "GetErrSpaceEtcdKey (ns_db_name s) (ns_space_name s) (ns_id s)"
  let ?w2 = "snd (EtcdPut ?kv DdlDisabledKey (gl_space_json (ml_go lib) s @ ''; '') w)"
  have kv: "kv_spec ?kv store" "http_keeps lib store" using assms(1) by (simp_all add: master_env_def)
  have no_err: "fst (EtcdPut ?kv k v x) = None" for k v x using assms(2) by (simp add: puts_succeed_def EtcdPut_def)
  have "store ?w2 = (store w)(DdlDisabledKey \<mapsto> gl_space_json (ml_go lib) s @ ''; '')"
    using kv_specD(5) [OF kv(1), of DdlDisabledKey "gl_space_json (ml_go lib) s @ ''; ''" None w None ?w2] kept_DdlDisabledKey no_err
    by (metis EtcdPut_def prod.collapse)
  then have "barred store ?w2" by (simp add: barred_def)
  moreover obtain failed w3 where w3: "ParallelCreatePsSpace lib s ?w2 = Some (failed, w3)"
    using assms(3) by (auto simp: create_filled_def Let_def case_prod_beta bind_eq_Some_conv)
  ultimately have b3: "barred store w3" using parallel_ps_store(1) [OF kv(2) w3] by (simp add: barred_def)
  have "length failed > 0" using assms(3) w3 no_err by (cases failed) (auto simp: create_filled_def Let_def case_prod_beta split: option.splits)
  then obtain str w4 where w4: "PutNodesErrInfoToEtcd lib s failed (p @ '', Create ps space failed, deadly error; '') w3 = Some (str, w4)"
    and undo: "undo_create lib s ''delete ps space failed; '' (snd (PutOrAppend ?kv DdlDisabledKey (''create ps space failed; failed nodes: '' @ str @ ''; '')
      EtcdValMaxLen (snd (PutOrAppend ?kv ?err (''create ps space failed; failed nodes: '' @ str @ ''; '') EtcdValMaxLen w4)))) = Some w'"
    using assms(3) w3 by (auto simp: create_filled_def Let_def case_prod_beta bind_eq_Some_conv)
  have "barred store w4" by (rule PutNodesErrInfoToEtcd_barred [OF kv(1) w4 b3])
  then show ?thesis using undo_create_barred [OF assms(1) undo] PutOrAppend_barred [OF kv(1)] by blast
qed


lemma createSpace_100_barred:
  assumes "master_env lib store" and "puts_succeed (ml_kv lib)" and "createSpace lib body w = Some ((100, m), w')"
  shows "barred store w'"
proof -
  have kv: "kv_spec (ml_kv lib) store" using assms(1) by (simp add: master_env_def)
  obtain s where v: "ValidateCreateSpaceParam lib body = Some (s, '''')"
    using assms(3) by (auto simp: createSpace_def bind_eq_Some_conv Let_def split: if_splits)
  obtain r w1 where l: "GetEtcdLocker (ml_kv lib) DdlLockKey w = (r, w1)" by (rule prod.exhaust)
  obtain lk where lk: "r = Inr lk" using assms(3) v l by (cases r) (auto simp: createSpace_def Let_def)
  obtain e w2 where t: "TryLock (ml_kv lib) lk 20 200 w1 = (e, w2)" by (rule prod.exhaust)
  obtain w3 where c: "create_unlocked lib s w2 = Some ((100, m), w3)" and w': "w' = snd (UnlockAndClose (ml_kv lib) lk w3)"
    using assms(3) v l lk t by (auto simp: createSpace_def bind_eq_Some_conv Let_def split: if_splits)
  obtain idle w4 s1 where i: "CreatePsSpaceImpl lib s idle w4 = Some (False, m, s1, w3)"
    using c by (auto simp: create_unlocked_def bind_eq_Some_conv Let_def split: prod.splits if_splits)
  then have en: "enough s idle" using CreatePsSpaceImpl_few [of s idle lib w4] by fastforce
  obtain j e' w5 where n: "NewIDGenerate (ml_kv lib) GenSpaceIdKey IdBaseVal w4 = ((j, e'), w5)" by (metis prod.exhaust)
  have "create_filled lib (create_prefix s) (filled (ml_time lib w4) idle j s) w5 = Some (False, m, s1, w3)"
    using i n CreatePsSpaceImpl_filled [OF ValidateCreateSpaceParam_pre [OF v] en, of lib w4] by simp
  then have "barred store w3" by (rule create_filled_barred [OF assms(1,2)])
  then show ?thesis using UnlockAndClose_store [OF kv] w' by (simp add: barred_def)
qed




subsection \<open>Registration\<close>

lemma map_of_update_all:
  "map_of (foldl (\<lambda>m r. AList.update (f r) r m) m rs) n = Some r \<Longrightarrow> map_of m n = Some r \<or> r \<in> set rs \<and> f r = n"
proof (induction rs arbitrary: m)
  case (Cons x rs)
  then have "map_of (AList.update (f x) x m) n = Some r \<or> r \<in> set rs \<and> f r = n" by simp
  then show ?case by (auto simp: update_conv' split: if_splits)
qed simp

lemma GetAllPsMap_member:
  assumes "go_spec gl" and "distinct (map fst m)" and "map_of (GetAllPsMap gl m) n = Some r"
  shows "node_name r = n \<and> (\<exists>s \<in> snd ` set m. r \<in> set (space_replicas s))"
proof -
  have "r \<in> set (concat (map (\<lambda>(n, s). space_replicas s) (range_map gl m))) \<and> GetPsNodeName (rn_ps_ip r) (rn_ps_port r) = n"
    using map_of_update_all [OF assms(3) [unfolded GetAllPsMap_def]] by (simp add: case_prod_beta)
  then obtain e where "e \<in> set (range_map gl m)" "r \<in> set (space_replicas (snd e))" "node_name r = n" by (auto simp: node_name_def)
  then show ?thesis unfolding range_map_keys(2) [OF assms(1,2)] by blast
qed

lemma replica_unique:
  assumes "spaces_ok gl st" and "of_spaces k" and "st k = Some v" and "of_spaces k'" and "st k' = Some v'"
    and "r \<in> set (space_replicas (decoded gl v))" and "r' \<in> set (space_replicas (decoded gl v'))" and "node_name r = node_name r'"
  shows "r = r'"
proof -
  have "node_name r \<in> nodes_of gl v" "node_name r' \<in> nodes_of gl v'"
    unfolding nodes_of_def using assms(6) assms(7) by (blast intro: imageI)+
  then have "node_name r \<in> nodes_of gl v \<inter> nodes_of gl v'" using assms(8) by simp
  moreover have "nodes_of gl v \<inter> nodes_of gl v' = {}" if "k \<noteq> k'" using assms(1-5) that by (simp add: spaces_ok_def)
  ultimately have "k = k'" by blast
  then have "v = v'" using assms(3,5) by simp
  then show ?thesis using inj_onD [of node_name, OF _ assms(8) assms(6)] spaces_okD(3) [OF assms(1-3)] assms(7) by (simp add: distinct_map)
qed

lemma busy_replica:
  assumes "go_spec gl" and "spaces_ok gl st" and "set kvs = {(k, v). of_spaces k \<and> st k = Some v}"
    and "map_of (GetAllPsMap gl (DeserializeFromByteList gl (map snd kvs))) n = Some r"
  shows "node_name r = n \<and> (\<exists>k v. of_spaces k \<and> st k = Some v \<and> r \<in> set (space_replicas (decoded gl v)))"
proof -
  let ?b = "DeserializeFromByteList gl (map snd kvs)"
  obtain e where e: "node_name r = n" "e \<in> set ?b" "r \<in> set (space_replicas (snd e))"
    using GetAllPsMap_member [OF assms(1) DeserializeFromByteList_distinct assms(4)] by blast
  then have "map_of ?b (fst e) = Some (snd e)" by (intro map_of_is_SomeI DeserializeFromByteList_distinct) simp
  then obtain k v where "of_spaces k" "st k = Some v" "snd e = decoded gl v" using busy_spaces [OF assms(2,3), THEN iffD1] by blast
  with e(1,3) show ?thesis by auto
qed




subsection \<open>What the check lets through\<close>

definition vector_ok :: "api_field \<Rightarrow> bool" where
  "vector_ok f \<longleftrightarrow> 1 \<le> af_dimension f \<and> af_dimension f \<le> 65536 \<and>
     (\<exists>idx p. af_index f = Some idx \<and> ai_params idx = Some p \<and> ai_type idx \<in> set VectorIndexTypes \<and> ip_metric_type p \<in> set MetricType \<and>
        check_index_params (ai_type idx) p = '''')"

definition scalar_ok :: "api_field \<Rightarrow> bool" where
  "scalar_ok f \<longleftrightarrow> af_type f \<in> set ScalarFieldTypes \<and> (\<forall>idx. af_index f = Some idx \<longrightarrow> ai_type idx = ''SCALAR'')"

text \<open>A format that starts with a plain character gives a text.\<close>

definition sprintf_literal :: "go_lib \<Rightarrow> bool" where
  "sprintf_literal gl \<longleftrightarrow> (\<forall>c f args. c \<noteq> CHR ''%'' \<longrightarrow> gl_sprintf gl (c # f) args \<noteq> '''')"

lemma InSlice_set: "InSlice x xs \<longleftrightarrow> x \<in> set xs"
  by (auto simp: InSlice_def list_ex_iff)

lemma check_vector_accepts:
  assumes "sprintf_literal gl" and "check_vector gl n f = Some ''''"
  shows "n \<le> 1 \<and> vector_ok f"
proof -
  have b: "n \<le> 1" "1 \<le> af_dimension f" "af_dimension f \<le> 65536" using assms(2) by (auto simp: check_vector_def split: if_splits)
  then obtain idx where idx: "af_index f = Some idx" using assms(2) by (auto simp: check_vector_def split: option.splits)
  have ty: "ai_type idx \<in> set VectorIndexTypes" using assms b idx by (auto simp: check_vector_def InSlice_set sprintf_literal_def split: if_splits)
  obtain p where p: "ai_params idx = Some p" and m: "(if \<not> InSlice (ip_metric_type p) MetricType then ''metric_type should is '' @ show_list MetricType @ ''. ''
      else check_index_params (ai_type idx) p) = ''''"
    using assms(2) b idx ty by (auto simp: check_vector_def InSlice_set bind_eq_Some_conv split: if_splits)
  have "ip_metric_type p \<in> set MetricType" "check_index_params (ai_type idx) p = ''''" using m by (auto simp: InSlice_set split: if_splits)
  with b idx ty p show ?thesis by (auto simp: vector_ok_def)
qed

lemma check_typed_accepts:
  assumes "sprintf_literal gl" and "check_typed gl f n = Some ('''', n')"
  shows "af_type f = ''vector'' \<and> n \<le> 1 \<and> n' = n + 1 \<and> vector_ok f \<or> af_type f \<noteq> ''vector'' \<and> n' = n \<and> scalar_ok f"
proof (cases "af_type f \<in> set ScalarFieldTypes")
  case True
  then have "n' = n" "scalar_ok f"
    using assms by (auto simp: check_typed_def InSlice_set scalar_ok_def ScalarIndexTypes_def sprintf_literal_def split: option.splits if_splits)
  moreover have "af_type f \<noteq> ''vector''" using True by (auto simp: ScalarFieldTypes_def)
  ultimately show ?thesis by blast
next
  case False
  have "af_type f = ''vector''" using assms False by (auto simp: check_typed_def InSlice_set VectorFieldTypes_def sprintf_literal_def split: if_splits)
  moreover from this have "check_vector gl n f = Some ''''" "n' = n + 1"
    using assms(2) False by (auto simp: check_typed_def InSlice_set VectorFieldTypes_def bind_eq_Some_conv split: if_splits)
  ultimately show ?thesis using check_vector_accepts [OF assms(1)] by blast
qed

lemma check_fields_message: "check_fields gl fs names idxs n m = Some (k, m') \<Longrightarrow> prefix m m'"
proof (induction gl fs names idxs n m rule: check_fields.induct)
  case (2 gl f fs names idxs n m)
  then show ?case by (fastforce simp: Let_def bind_eq_Some_conv split: if_splits option.splits dest: append_prefixD)
qed simp

lemma check_fields_step:
  assumes "check_fields gl (f # fs) names idxs n '''' = Some (k, '''')"
  shows "\<exists>n1 idxs'. af_name f \<noteq> '''' \<and> af_name f \<notin> set names \<and> check_typed gl f n = Some ('''', n1) \<and>
    check_fields gl fs (af_name f # names) idxs' n1 '''' = Some (k, '''')"
proof -
  have no: "check_fields gl fs a b c m \<noteq> Some (k, '''')" if "m \<noteq> ''''" for a b c m using check_fields_message [of gl fs a b c m k "''''"] that by auto
  have n: "af_name f \<noteq> ''''" "af_name f \<notin> set names" using assms no by (auto split: if_splits)
  obtain m1 n1 idxs' where "check_typed gl f n = Some (m1, n1)" "check_fields gl fs (af_name f # names) idxs' n1 m1 = Some (k, '''')"
  proof (cases "af_index f")
    case None
    then show ?thesis using assms n that by (auto simp: bind_eq_Some_conv)
  next
    case (Some idx)
    then have "ai_name idx \<noteq> ''''" "ai_name idx \<notin> set idxs" using assms n no by (auto simp: Let_def split: if_splits)
    then show ?thesis using assms n Some that by (auto simp: bind_eq_Some_conv)
  qed
  with n no show ?thesis by (cases "m1 = ''''") auto
qed

lemma check_fields_accepts:
  assumes "sprintf_literal gl"
  shows "check_fields gl fs names idxs n '''' = Some (k, '''') \<Longrightarrow> n \<le> 2 \<Longrightarrow>
    k \<le> 2 \<and> k = n + int (length (filter (\<lambda>f. af_type f = ''vector'') fs)) \<and> distinct (map af_name fs) \<and> set (map af_name fs) \<inter> set names = {} \<and>
    (\<forall>f \<in> set fs. af_name f \<noteq> '''' \<and> (if af_type f = ''vector'' then vector_ok f else scalar_ok f))"
proof (induction fs arbitrary: names idxs n)
  case (Cons f fs)
  obtain n1 idxs' where f: "af_name f \<noteq> ''''" "af_name f \<notin> set names" "check_typed gl f n = Some ('''', n1)"
    and r: "check_fields gl fs (af_name f # names) idxs' n1 '''' = Some (k, '''')" using check_fields_step [OF Cons.prems(1)] by blast
  note t = check_typed_accepts [OF assms f(3)]
  have "n1 \<le> 2" using t Cons.prems(2) by auto
  from Cons.IH [OF r this] t f(1,2) show ?case by auto
qed simp

text \<open>C19: A space the master accepts has 1 to 100 partitions of 1, 3 or 5 replicas, field names that are not empty and not repeated, and
  one or two vector fields, each with a dimension from 1 to 65536 and an index whose parameters are usable.
\<close>

theorem accepted_space:
  assumes "sprintf_literal gl" and "CheckApiSpace gl s = Some ''''"
  shows "as_partition_num s \<in> {1..100} \<and> as_replica_num s \<in> {1, 3, 5} \<and> distinct (map af_name (as_fields s)) \<and>
    length (filter (\<lambda>f. af_type f = ''vector'') (as_fields s)) \<in> {1, 2} \<and>
    (\<forall>f \<in> set (as_fields s). af_name f \<noteq> '''' \<and> (if af_type f = ''vector'' then vector_ok f else scalar_ok f))"
proof -
  obtain k m where c: "check_fields gl (as_fields s) [] [] 0 '''' = Some (k, m)" and m: "(if k = 0 then m @ ''There is no vector field. '' else m) = ''''"
    using assms(2) CheckApiSpace_accepts(1-6) [OF assms(2)] by (auto simp: CheckApiSpace_def bind_eq_Some_conv split: if_splits)
  have "k \<noteq> 0" "m = ''''" using m by (auto split: if_splits)
  let ?n = "length (filter (\<lambda>f. af_type f = ''vector'') (as_fields s))"
  have fs: "k \<le> 2" "k = int ?n" "distinct (map af_name (as_fields s))"
      "\<forall>f \<in> set (as_fields s). af_name f \<noteq> '''' \<and> (if af_type f = ''vector'' then vector_ok f else scalar_ok f)"
    using check_fields_accepts [OF assms(1), of "as_fields s" "[]" "[]" 0 k] c \<open>m = ''''\<close> by simp_all
  then have "?n \<in> {1, 2}" using \<open>k \<noteq> 0\<close> by (cases ?n) auto
  with fs(3,4) CheckApiSpace_accepts(4,5) [OF assms(2)] show ?thesis by auto
qed


theorem accepted_space_witness:
  "CheckApiSpace demo_go (demo_api_space 2 1) = Some '''' \<and> distinct (map af_name (as_fields (demo_api_space 2 1)))"
proof -
  have "sprintf_literal demo_go" by (simp add: sprintf_literal_def demo_go_def)
  moreover have "CheckApiSpace demo_go (demo_api_space 2 1) = Some ''''" by code_simp
  ultimately show ?thesis using accepted_space by blast
qed

end
