(* ===== verification/Spec2Isabelle.thy ===== *)
theory Spec2Isabelle
  imports Router_Server Ps_Server Dynamic_Resource Master_Guarantees
begin

text \<open>
  A verification development for SimSearch, a distributed vector search service. The program is two
  C++ processes around a replicated store: a \<^emph>\<open>router\<close>, which takes requests on documents, finds the
  space they belong to and sends them to the partitions of the space; and a \<^emph>\<open>partition server\<close>, which
  holds one replica of one partition in a raft group. Spaces and nodes are registered in etcd; a \<^emph>\<open>master\<close>,
  a Go process, hands out ids, takes registrations, and creates and deletes spaces: it picks idle partition
  servers, tells them over HTTP, stores the space in etcd and tells the routers.

  \<^bold>\<open>Conventions.\<close> A function of the source is a function on the state it reads and writes, which it returns
  changed. \<open>'a ub\<close> is \<open>'a option\<close>: \<open>None\<close> is undefined behaviour (an index out of range, a null pointer, a
  signed overflow), an exception nobody catches, a panic of the Go code, a failed \<open>CHECK\<close>, or, for the loops
  that may not end, a run that does not return. Messages are strings, \<open>''''\<close> being success, as in the code. Machine integers
  are \<open>int\<close> with the conversions of theory \<open>Prelude\<close> written out where the code converts, hashes are
  \<open>64 word\<close>. A \<open>std::map\<close> is an association list sorted by key. Log output is left out; a mutex makes an
  operation one step. Code outside the repository (brpc, braft, butil, gamma, protobuf, JSON conversion,
  toml11, etcd itself) is a parameter: a record of functions over a world the model does not look into,
  with what their documentation promises as named hypotheses (\<open>butil_spec\<close>, \<open>protobuf_spec\<close>,
  \<open>net_order_spec\<close>, \<open>rand_spec\<close>, \<open>gamma_doc_spec\<close> and the like). Every property with such a hypothesis has a
  witness on concrete functions.

  \<^bold>\<open>Shared theories.\<close>
  \<^item> \<open>Prelude\<close>: types, machine integers, decimal printing, sorted maps, checked access to lists.
  \<^item> \<open>Bytes\<close>: little-endian encodings; the locale \<open>codec\<close> states what an encoding of fixed length promises
    and is interpreted on each width.
  \<^item> \<open>Messages\<close>: the messages of \<open>idl/rpc_service_idl\<close> as records.
  \<^item> \<open>Numeric_Util\<close>, \<open>Common\<close>, \<open>Files\<close>, \<open>Config\<close>: \<open>utils/numeric_util.cc\<close>; \<open>common/common.cc\<close> and
    \<open>common/common_type.cc\<close>; a file system with inodes and descriptors, with \<open>utils/file_tool.cc\<close>;
    \<open>config/toml_conf.cc\<close>, \<open>config/conf.cc\<close> and \<open>utils/net.cc\<close>.
  \<^item> \<open>Dto\<close>: \<open>common/dto.cc\<close>. The checks accept exactly the conforming documents and id lists; a document
    converted for the engine and back keeps its fields.
  \<^item> \<open>Rpc_Clients\<close>: \<open>utils/brpc_http.h\<close>, \<open>common/brpc_options.cc\<close>, \<open>clients/ps_rpc_client.cc\<close> and
    \<open>raft_store/raft_client.cc\<close>. The two retry loops that walk a list of servers share the locale
    \<open>round_robin\<close>, the two buffers of clients the locale \<open>two_buffer\<close>: calls reach a server that answers,
    and a write reports success only when it was acknowledged.
  \<^item> \<open>Etcd_Client\<close>: \<open>clients/etcd_client.cc\<close>. Operations reach a server that answers; one turn of the
    keep-alive thread restores the registration; the range end of a key is its prefix range.
  \<^item> \<open>Dynamic_Resource\<close>: \<open>clients/dynamic_resource.h\<close>. Readers keep what they hold through an update.
  \<^item> \<open>Server_Lib\<close>: the wait for the signal to quit, shared by both processes.

  \<^bold>\<open>The router.\<close>
  \<^item> \<open>One_Writer_Map\<close>: \<open>utils/one_writer_multi_reader_map.cc\<close>, the hash table from space keys to slots. The
    locale \<open>index_map\<close> is its contract, interpreted on the model; it includes that a key is refused when
    its bucket is taken.
  \<^item> \<open>Local_Spaces\<close>, \<open>Partition_Connection\<close>, \<open>Space_Connection\<close>, \<open>Space_Manager\<close>: the files of the same names
    under \<open>service/router\<close>. The abstract state of the manager is the map \<open>served\<close> from space keys to
    connections; adding, deleting and looking up a space refine operations on it. Grouping documents puts
    each into the group of its partition; a read accounts for every key; a write that reports no error
    for a document was acknowledged.
  \<^item> \<open>Router_Rpc\<close>: \<open>service/router/router_rpc.cc\<close>. Requests are a datatype and \<open>router_run\<close> relates the states
    a sequence of requests passes: none ends in undefined behaviour.
  \<^item> \<open>Router_Server\<close>: \<open>router_register.cc\<close>, \<open>router_server.cc\<close> and \<open>router_main.cc\<close>.

  \<^bold>\<open>The partition server.\<close>
  \<^item> \<open>Engine\<close>: \<open>engine/engine.cc\<close>, a store in two files. \<open>engine_ok\<close> relates the index, the counters and the
    files; \<open>docs\<close> is what the store holds. Adding, reading, reopening and snapshots are stated over \<open>docs\<close>.
  \<^item> \<open>Raft_Store\<close>: \<open>raft_store/raft_store.cc\<close>. Replicas that apply the same log end in the same state; the
    responses of a batch are truthful.
  \<^item> \<open>Local_Mata\<close>: \<open>service/ps/local_mata.cc\<close> and \<open>local_storager.cc\<close>. The id of a node is handed out once.
  \<^item> \<open>Ps_Register\<close>: \<open>service/ps/ps_register.cc\<close>. The registration loop is a partial function; it ends once
    the master accepts.
  \<^item> \<open>Ps_Rpc\<close>: \<open>service/ps/ps_rpc.cc\<close> and \<open>raft_rpc.cc\<close>. \<open>ps_step\<close> is one request or one call of braft,
    \<open>ps_reachable\<close> the states they lead to: a server that names a space runs a replica of it, and a write is
    always defined.
  \<^item> \<open>Ps_Server\<close>: \<open>service/ps/brpc_server.cc\<close> and \<open>service/ps_main.cc\<close>. A space that was created is served
    again after a restart.

  \<^bold>\<open>The master.\<close>
  \<^item> \<open>Master_Entity\<close>: \<open>master/entity\<close>, \<open>master/common\<close>, the constants of \<open>master/config/config.go\<close> and
    \<open>master/utils/genericutil\<close>: spaces, nodes, keys in etcd, the check of a new space and its stored form. A Go map
    is an association list; the order in which \<open>range\<close> visits it is a parameter, as is JSON.
  \<^item> \<open>Master_Etcd\<close>: the operations of \<open>master/etcdcluster/etcd_client.go\<close> the handlers use, the id counters, and the
    lock of \<open>distributed_lock.go\<close>, over the etcd library.
  \<^item> \<open>Master_Api\<close>: \<open>master/clusterapi\<close> with \<open>utils/httputil\<close> and \<open>utils/concurrent\<close>: every handler, with the calls to
    partition servers and routers in an order the scheduler chooses.
  \<^item> \<open>Master_Spaces\<close> and \<open>Master_Runs\<close>: what is supposed of the libraries (\<open>kv_spec\<close>, \<open>go_spec\<close>, \<open>http_keeps\<close>,
    \<open>scans_ok\<close>), the effect of each operation and handler on the spaces in etcd, and \<open>cluster_step\<close>, one handler
    or one event outside the master. \<open>Master_Demo\<close> gives concrete libraries.
  \<^item> \<open>Master_Guarantees\<close>: no node serves two spaces; a stored space has the shape that was asked for; ids only grow; a
    node in a space keeps its id; a failed creation bars the cluster; what the check lets through; which node a
    failed call is blamed on; register keys agree with those of the C++ code.
  \<^item> This theory ends with the composition: a space the master created can be served by the router.

  \<^bold>\<open>Loops.\<close> No definition uses fuel chosen by the model. Counted loops of the code recurse on their count
  (three attempts of a read or a write, the retries of an HTTP call, the hundred names of a backup); loops
  over containers recurse on the list; the registration of a partition server, the keep-alive thread and
  the wait for the signal may run forever and are partial functions, about which termination is proved
  where it holds.

  \<^bold>\<open>Not modelled.\<close> \<open>utils/log.cc\<close> (set-up of the logger), \<open>example/etcdctl.cc\<close> (a command line around the etcd
  client), \<open>test/\<close>, the bundled logger, the generated message classes, and interleavings inside an operation that
  takes a mutex or the lock in etcd. Of the master: the start of the process and of its embedded etcd, reading
  its configuration, logging, and the operations of its etcd client that no handler calls. Commented-out code
  is not modelled.
\<close>


section \<open>A space from the master to the router\<close>

text \<open>
  The router gets a space as JSON and the RPC library turns it into a message. A field of the message is the
  field of the same name.
\<close>

definition same_replica :: "replica_node \<Rightarrow> pb_replica \<Rightarrow> bool" where
  "same_replica r p \<longleftrightarrow> rp_ps_id p = rn_ps_id r \<and> rp_ps_ip p = rn_ps_ip r \<and> rp_ps_port p = rn_ps_port r"

definition same_partition :: "partition_info \<Rightarrow> pb_partition \<Rightarrow> bool" where
  "same_partition q p \<longleftrightarrow> pt_partition_id p = pi_partition_id q \<and> pt_group_name p = pi_group_name q \<and>
     list_all2 same_replica (pi_replicas q) (pt_replicas p)"

definition read_as :: "inner_space \<Rightarrow> pb_space \<Rightarrow> bool" where
  "read_as s p \<longleftrightarrow> sp_db_name p = ns_db_name s \<and> sp_space_name p = ns_space_name s \<and> sp_id p = ns_id s \<and>
     sp_partition_num p = ns_partition_num s \<and> sp_replica_num p = ns_replica_num s \<and>
     list_all2 same_partition (ns_partitions s) (sp_partitions p)"

lemma servable_filled:
  assumes "CheckApiSpace gl a = Some ''''" and "enough (ApiSpaceToInnerSpace gl a) idle"
    and "read_as (filled t idle i (ApiSpaceToInnerSpace gl a)) p"
  shows "servable p"
proof -
  let ?s = "ApiSpaceToInnerSpace gl a"
  define P R where PR: "P = nat (as_partition_num a)" "R = nat (as_replica_num a)"
  have a: "as_partition_num a = int P" "as_replica_num a = int R" "0 < P" "P \<le> 100" "0 < R" "R \<le> 5"
    using CheckApiSpace_accepts(4,5) [OF assms(1)] by (auto simp: PR)
  have len: "P * R \<le> length idle" using assms(2) a by (simp add: enough_def ApiSpaceToInnerSpace_def flip: of_nat_mult)
  have parts: "list_all2 same_partition (map (given idle t ?s) [0..<P]) (sp_partitions p)" "sp_partition_num p = as_partition_num a"
    using assms(3) by (simp_all add: read_as_def filled_def ApiSpaceToInnerSpace_def PR(1))
  have given: "length (pi_replicas (given idle t ?s q)) = R" if "q < P" for q
  proof -
    have "Suc q * R \<le> P * R" using that by (intro mult_le_mono1) simp
    with len show ?thesis by (simp add: given_def ApiSpaceToInnerSpace_def PR)
  qed
  have "partition_wf (sp_partitions p ! q)" if "q < P" for q
  proof -
    have "same_partition (given idle t ?s q) (sp_partitions p ! q)" using list_all2_nthD [OF parts(1), of q] that by simp
    then have "length (pt_replicas (sp_partitions p ! q)) = R"
      using list_all2_lengthD [of same_replica] given [OF that] unfolding same_partition_def by metis
    then show ?thesis using a(5,6) by (auto simp: partition_wf_def)
  qed
  moreover have "length (sp_partitions p) = P" using list_all2_lengthD [OF parts(1)] by simp
  ultimately show ?thesis using parts(2) a by (simp add: servable_def list_all_length int32_of_id is_int32_def)
qed


definition pb_of_replica :: "replica_node \<Rightarrow> pb_replica" where
  "pb_of_replica r = \<lparr>rp_ps_id = rn_ps_id r, rp_ps_ip = rn_ps_ip r, rp_ps_port = rn_ps_port r, rp_is_leader = Some (rn_is_leader r),
     rp_node_status = Some (rn_node_status r), rp_msg = Some (rn_msg r)\<rparr>"

definition pb_of_partition :: "partition_info \<Rightarrow> pb_partition" where
  "pb_of_partition q = \<lparr>pt_partition_id = pi_partition_id q, pt_group_name = pi_group_name q, pt_replicas = map pb_of_replica (pi_replicas q),
     pt_create_time = Some (pi_ctime q), pt_update_time = Some (pi_mtime q)\<rparr>"

definition pb_of_space :: "inner_space \<Rightarrow> pb_space" where
  "pb_of_space s = \<lparr>sp_db_name = ns_db_name s, sp_space_name = ns_space_name s, sp_id = ns_id s, sp_partition_num = ns_partition_num s,
     sp_replica_num = ns_replica_num s, sp_fields = [], sp_partitions = map pb_of_partition (ns_partitions s),
     sp_id_type = Some (ns_id_type s), sp_ctime = Some (ns_ctime s), sp_mtime = Some (ns_mtime s)\<rparr>"

lemma read_as_pb: "read_as s (pb_of_space s)"
  by (simp add: read_as_def pb_of_space_def list_all2_map2 same_partition_def pb_of_partition_def same_replica_def pb_of_replica_def list_all2_refl)


end
